theory Spec2Isabelle
  imports Complex_Main "HOL-Library.Word" "HOL-Library.Signed_Division" "HOL-Library.Multiset"
begin

section \<open>Embedding of \<^verbatim>\<open>src/pathtrace.cu\<close>\<close>

text \<open>
  The CUDA path tracer and its A-trous denoiser, as HOL functions. Conventions:
  \<^item> a \<^verbatim>\<open>float\<close> is a \<^typ>\<open>real\<close>: rounding and overflow are not modelled. The operations
    whose IEEE-754 result can be an infinity or a NaN (division, \<^verbatim>\<open>pow\<close>) return
    \<^term>\<open>None\<close> there, since no real number stands for such a result;
  \<open>glm::vec3\<close> is the datatype \<open>vec3\<close>;
  \<^item> a kernel is the function of one thread; a launch runs the threads of the grid one
    after the other (\<open>launch\<close>);
  \<^item> undefined behaviour, \<^verbatim>\<open>std::abort()\<close> and results that are no number are values of
    the type \<open>fault\<close>.
\<close>

subsection \<open>Vectors and floating-point operations\<close>

datatype vec3 = Vec3 (vx: real) (vy: real) (vz: real)

definition vec3s :: "real \<Rightarrow> vec3" where
  \<comment> \<open>\<^verbatim>\<open>glm::vec3(s)\<close>\<close>
  "vec3s s = Vec3 s s s"

definition vadd :: "vec3 \<Rightarrow> vec3 \<Rightarrow> vec3" where
  "vadd a b = Vec3 (vx a + vx b) (vy a + vy b) (vz a + vz b)"

definition vsub :: "vec3 \<Rightarrow> vec3 \<Rightarrow> vec3" where
  "vsub a b = Vec3 (vx a - vx b) (vy a - vy b) (vz a - vz b)"

definition smul :: "real \<Rightarrow> vec3 \<Rightarrow> vec3" where
  \<comment> \<open>scalar times vector\<close>
  "smul s a = Vec3 (s * vx a) (s * vy a) (s * vz a)"

definition sadd :: "vec3 \<Rightarrow> real \<Rightarrow> vec3" where
  \<comment> \<open>vector plus scalar, componentwise\<close>
  "sadd a s = Vec3 (vx a + s) (vy a + s) (vz a + s)"

definition length2 :: "vec3 \<Rightarrow> real" where
  \<comment> \<open>\<^verbatim>\<open>glm::length2\<close>: the squared Euclidean length\<close>
  "length2 a = vx a * vx a + vy a * vy a + vz a * vz a"

definition mix :: "vec3 \<Rightarrow> vec3 \<Rightarrow> real \<Rightarrow> vec3" where
  \<comment> \<open>\<^verbatim>\<open>glm::mix(a, b, t) = a * (1 - t) + b * t\<close>\<close>
  "mix a b t = vadd (smul (1 - t) a) (smul t b)"

instantiation vec3 :: comm_monoid_add
begin

definition zero_vec3 :: vec3 where
  "zero_vec3 = vec3s 0"

definition plus_vec3 :: "vec3 \<Rightarrow> vec3 \<Rightarrow> vec3" where
  "plus_vec3 a b = vadd a b"

instance
  by standard (simp_all add: plus_vec3_def zero_vec3_def vadd_def vec3s_def)

end

definition fdiv :: "real \<Rightarrow> real \<Rightarrow> real option" where
  \<comment> \<open>float division: on a zero divisor IEEE-754 gives an infinity or a NaN\<close>
  "fdiv a b = (if b = 0 then None else Some (a / b))"

definition vdivs :: "vec3 \<Rightarrow> real \<Rightarrow> vec3 option" where
  \<comment> \<open>vector divided by a scalar\<close>
  "vdivs a s = (if s = 0 then None else Some (Vec3 (vx a / s) (vy a / s) (vz a / s)))"

definition fpow :: "real \<Rightarrow> real \<Rightarrow> real option" where
  \<comment> \<open>\<^verbatim>\<open>pow(x, y)\<close> for a positive exponent that is no integer (here 0.3 and 1/2.2):
      a NaN on a negative base\<close>
  "fpow x y = (if x < 0 then None else Some (x powr y))"

definition vpow :: "vec3 \<Rightarrow> real \<Rightarrow> vec3 option" where
  \<comment> \<open>\<^verbatim>\<open>glm::pow(v, glm::vec3(y))\<close>, componentwise\<close>
  "vpow a y =
     (case (fpow (vx a) y, fpow (vy a) y, fpow (vz a) y) of
        (Some p, Some q, Some r) \<Rightarrow> Some (Vec3 p q r)
      | _ \<Rightarrow> None)"

subsection \<open>Faults and kernel launches\<close>

datatype fault =
    ProcessAbort    \<comment> \<open>\<^verbatim>\<open>std::abort()\<close>\<close>
  | OutOfBounds     \<comment> \<open>an array access outside its allocation\<close>
  | NonFinite       \<comment> \<open>a float result that is an infinity or a NaN\<close>
  | DivideByZero    \<comment> \<open>an integer remainder with no defined result\<close>
  | BadPointer      \<comment> \<open>a null or indeterminate pointer is dereferenced\<close>
  | NoReturnValue   \<comment> \<open>control flows off the end of a value-returning function\<close>

fun forEach :: "('t \<Rightarrow> 's \<Rightarrow> fault + 's) \<Rightarrow> 't list \<Rightarrow> 's \<Rightarrow> fault + 's" where
  \<comment> \<open>a loop over the list that stops at the first fault\<close>
  "forEach k [] s = Inr s"
| "forEach k (t # ts) s = (case k t s of Inl e \<Rightarrow> Inl e | Inr s' \<Rightarrow> forEach k ts s')"

abbreviation launch :: "('t \<Rightarrow> 's \<Rightarrow> fault + 's) \<Rightarrow> 't list \<Rightarrow> 's \<Rightarrow> fault + 's" where
  \<comment> \<open>a kernel launch: the threads of the grid, one after the other\<close>
  "launch \<equiv> forEach"

definition ceilDiv :: "nat \<Rightarrow> nat \<Rightarrow> nat" where
  \<comment> \<open>\<^verbatim>\<open>(n + b - 1) / b\<close>, the number of blocks\<close>
  "ceilDiv n b = (n + b - 1) div b"

definition grid1D :: "nat \<Rightarrow> nat \<Rightarrow> nat list" where
  \<comment> \<open>the thread indices \<^verbatim>\<open>blockIdx.x * blockDim.x + threadIdx.x\<close> of a launch\<close>
  "grid1D numBlocks blockSize = [0..<numBlocks * blockSize]"

definition grid2D :: "nat \<times> nat \<Rightarrow> nat \<times> nat \<Rightarrow> (nat \<times> nat) list" where
  \<comment> \<open>the thread coordinates \<open>(x, y)\<close> of a two-dimensional launch\<close>
  "grid2D numBlocks blockSize =
     List.product [0..<fst numBlocks * fst blockSize] [0..<snd numBlocks * snd blockSize]"

definition writeAt :: "nat \<Rightarrow> 'a \<Rightarrow> 'a list \<Rightarrow> fault + 'a list" where
  \<comment> \<open>\<^verbatim>\<open>buf[i] = v\<close>\<close>
  "writeAt i v buf = (if i < length buf then Inr (buf[i := v]) else Inl OutOfBounds)"

definition readAt :: "'a list \<Rightarrow> nat \<Rightarrow> fault + 'a" where
  \<comment> \<open>\<^verbatim>\<open>buf[i]\<close>\<close>
  "readAt buf i = (if i < length buf then Inr (buf ! i) else Inl OutOfBounds)"

subsection \<open>Data of the scene and of the device\<close>

text \<open>
  The structs come from \<^verbatim>\<open>sceneStructs.h\<close>, which is not among the sources: each record
  has the fields that \<^verbatim>\<open>pathtrace.cu\<close> reads or writes. An enumeration has the
  enumerators the file names, and one more constructor for every other value.
\<close>

type_synonym vec2 = "real \<times> real"

record Ray =
  origin :: vec3
  direction :: vec3

record PathSegment =
  ray :: Ray
  colorThroughput :: vec3
  directAccum :: vec3
  indirectAccum :: vec3
  pixelIndex :: nat
  lastGeom :: int
  remainingBounces :: int
  prevBounceNoMis :: bool
  prevBounceSpecular :: bool
  indirectIllum :: bool

record ShadeableIntersection =
  isect_t :: real             \<comment> \<open>the field \<^verbatim>\<open>t\<close>\<close>
  materialId :: int
  geometricNormal :: vec3
  shadingNormal :: vec3

record CameraSample =
  pixel :: vec2
  dof :: vec2

record IntersectionSample =
  out :: vec2
  mis1 :: vec2
  mis2 :: vec2

datatype MaterialType = specularReflection | specularTransmission | otherMaterialType nat

datatype GeomType = TRIANGLE | otherGeomType nat

record Material =
  mtype :: MaterialType       \<comment> \<open>the field \<^verbatim>\<open>type\<close>\<close>

record Geom =
  gtype :: GeomType           \<comment> \<open>the field \<^verbatim>\<open>type\<close>\<close>
  materialid :: int

datatype BufferType =
    DirectSpecularIllumination
  | IndirectDiffuseIllumination
  | DirectSpecularIlluminationVariance
  | IndirectDiffuseIlluminationVariance
  | FullIllumination
  | Normal
  | Position
  | FilteredDirectSpecular
  | FilteredIndirectDiffuse
  | FilteredColor
  | unlistedBufferType nat    \<comment> \<open>a value of the enumeration's underlying type that is no enumerator\<close>

record config =
  \<comment> \<open>the \<^verbatim>\<open>constexpr bool\<close> switches of lines 26 to 29\<close>
  sortByMaterial :: bool
  stratifiedSplat :: bool
  cacheFirstBounce :: bool

definition compiledConfig :: config where
  \<comment> \<open>the values the file is compiled with\<close>
  "compiledConfig = \<lparr>sortByMaterial = False, stratifiedSplat = False, cacheFirstBounce = False\<rparr>"

text \<open>
  The functions of the headers that are not among the sources (\<^verbatim>\<open>utilities.h\<close>,
  \<^verbatim>\<open>intersections.h\<close>, \<^verbatim>\<open>interactions.h\<close>), the random engine and the read-only tables
  of the scene are parameters. \<^verbatim>\<open>utilhash\<close> maps \<^verbatim>\<open>unsigned int\<close> to \<^verbatim>\<open>unsigned int\<close>.
  An argument passed by reference and written by the callee is returned.
\<close>

record externals =
  utilhash :: "32 word \<Rightarrow> 32 word"
  geoms :: "int \<Rightarrow> Geom"                  \<comment> \<open>\<^verbatim>\<open>dev_geoms[i]\<close>\<close>
  materials :: "int \<Rightarrow> Material"          \<comment> \<open>\<^verbatim>\<open>dev_materials[i]\<close>\<close>
  samplePool :: "nat \<Rightarrow> nat \<Rightarrow> IntersectionSample"
     \<comment> \<open>\<^verbatim>\<open>(dev_samplePool + depth * numStratifiedSamples)[i]\<close>, by depth and i\<close>
  camSamplePool :: "nat \<Rightarrow> CameraSample"  \<comment> \<open>\<^verbatim>\<open>dev_camSamplePool[i]\<close>\<close>
  uniformDraw :: "int \<Rightarrow> nat \<Rightarrow> int \<Rightarrow> nat \<Rightarrow> real"
     \<comment> \<open>the k-th draw \<^verbatim>\<open>dist(rng)\<close> of the engine \<^verbatim>\<open>makeSeededRandomEngine(iter, index, depth)\<close>\<close>
  traverseAABBTree :: "Ray \<Rightarrow> int \<Rightarrow> int \<times> real \<times> vec3"
     \<comment> \<open>the ray and the excluded geometry to the hit geometry (-1: none), \<^verbatim>\<open>t_min\<close> and the normal token\<close>
  computeNormals :: "Geom \<Rightarrow> vec3 \<Rightarrow> vec3 \<times> vec3"
  multipleImportanceSampling ::
    "PathSegment \<Rightarrow> vec3 \<Rightarrow> vec3 \<Rightarrow> vec3 \<Rightarrow> Material \<Rightarrow> vec2 \<Rightarrow> vec2 \<Rightarrow> int \<Rightarrow> int \<Rightarrow> bool \<Rightarrow> PathSegment"
  scatterRay ::
    "PathSegment \<Rightarrow> vec3 \<Rightarrow> vec3 \<Rightarrow> vec3 \<Rightarrow> Material \<Rightarrow> vec2 \<Rightarrow> bool \<Rightarrow> bool \<Rightarrow> bool \<Rightarrow> PathSegment \<times> bool"
     \<comment> \<open>the bool before the last two is \<^verbatim>\<open>*isSpecularRay\<close> on entry, the result's on exit\<close>
  primaryRay :: "int \<Rightarrow> nat \<Rightarrow> nat \<Rightarrow> nat \<Rightarrow> CameraSample \<Rightarrow> Ray"
     \<comment> \<open>lines 205 to 223: the jittered camera ray of iteration, x, y, index and camera sample\<close>

text \<open>
  The device memory. Every \<^verbatim>\<open>glm::vec3*\<close> and \<^verbatim>\<open>float*\<close> variable holds an address;
  \<open>vecMem\<close> and \<open>floatMem\<close> give the array allocated there.
\<close>

record devState =
  resolution :: "nat \<times> nat"        \<comment> \<open>\<^verbatim>\<open>hst_scene->state.camera.resolution\<close>\<close>
  traceDepth :: int                \<comment> \<open>\<^verbatim>\<open>hst_scene->state.traceDepth\<close>\<close>
  numStratifiedSamples :: int
  vecMem :: "nat \<Rightarrow> vec3 list"
  floatMem :: "nat \<Rightarrow> real list"
  dev_directIllum :: nat
  dev_indirectIllum :: nat
  dev_directIllumSqr :: nat
  dev_indirectIllumSqr :: nat
  dev_normalBuffer :: nat
  dev_positionBuffer :: nat
  dev_filteredDirectSpecular :: nat
  dev_filteredIndirectDiffuse :: nat
  dev_filteredTemp :: nat
  dev_stddevBuffer :: nat
  dev_paths :: "PathSegment list"
  dev_intersections :: "ShadeableIntersection list"
  dev_materialSortBuffer :: "int list"
  dev_materialSortBuffer2 :: "int list"
  firstBounceCached :: bool
  dev_firstBounceIntersections :: "ShadeableIntersection list"

subsection \<open>Stratified sample index and camera rays\<close>

definition stratifiedSampleIndex ::
  "config \<Rightarrow> externals \<Rightarrow> 32 word \<Rightarrow> 32 word \<Rightarrow> 32 word \<Rightarrow> fault + 32 word" where
  \<comment> \<open>\<open>n\<close> is the parameter \<^verbatim>\<open>total\<close>. \<^verbatim>\<open>iter % total\<close> is the remainder of \<^verbatim>\<open>int\<close>, truncating; in
      \<^verbatim>\<open>(iter + utilhash(pixelIndex)) % total\<close> the \<^verbatim>\<open>int\<close> operands are converted to
      \<^verbatim>\<open>unsigned int\<close>, the sum wraps and the remainder is unsigned\<close>
  "stratifiedSampleIndex cfg ext iter pixelIdx n =
     (if stratifiedSplat cfg then
        (if n = 0 \<or> (sint iter = - (2 ^ 31) \<and> sint n = - 1) then Inl DivideByZero
         else Inr (word_of_int (sint iter smod sint n)))
      else
        (if n = 0 then Inl DivideByZero
         else Inr ((iter + utilhash ext pixelIdx) mod n)))"

definition poolSlot :: "fault + 32 word \<Rightarrow> int \<Rightarrow> fault + nat" where
  \<comment> \<open>the slot of a pool of \<open>n\<close> samples that the index, read as an \<^verbatim>\<open>int\<close>, names\<close>
  "poolSlot r n =
     (case r of
        Inl e \<Rightarrow> Inl e
      | Inr i \<Rightarrow> if 0 \<le> sint i \<and> sint i < n then Inr (nat (sint i)) else Inl OutOfBounds)"

definition generateRayFromCamera ::
  "config \<Rightarrow> externals \<Rightarrow> nat \<times> nat \<Rightarrow> int \<Rightarrow> int \<Rightarrow> int \<Rightarrow> nat \<times> nat \<Rightarrow>
   PathSegment list \<Rightarrow> fault + PathSegment list" where
  "generateRayFromCamera cfg ext res iter depthLimit numSamples t pathSegments =
     (case t of (x, y) \<Rightarrow>
        if x \<ge> fst res \<and> y \<ge> snd res then Inr pathSegments
        else
          let index = x + y * fst res in
          (case poolSlot (stratifiedSampleIndex cfg ext (word_of_int iter) (word_of_nat index)
                            (word_of_int numSamples)) numSamples of
             Inl e \<Rightarrow> Inl e
           | Inr slot \<Rightarrow>
               writeAt index
                 \<lparr>ray = primaryRay ext iter x y index (camSamplePool ext slot),
                  colorThroughput = vec3s 1,
                  directAccum = vec3s 0,
                  indirectAccum = vec3s 0,
                  pixelIndex = index,
                  lastGeom = - 1,
                  remainingBounces = depthLimit,
                  prevBounceNoMis = True,
                  prevBounceSpecular = True,
                  indirectIllum = False\<rparr>
                 pathSegments))"

subsection \<open>Intersection, shading, gathering\<close>

definition computeIntersections ::
  "externals \<Rightarrow> nat \<Rightarrow> nat \<Rightarrow> nat \<Rightarrow>
   PathSegment list \<times> ShadeableIntersection list \<times> int list \<Rightarrow>
   fault + PathSegment list \<times> ShadeableIntersection list \<times> int list" where
  "computeIntersections ext depth numPaths path_index st =
     (case st of (pathSegments, intersections, materialKeys) \<Rightarrow>
        if path_index \<ge> numPaths then Inr st
        else if path_index \<ge> length pathSegments \<or> path_index \<ge> length intersections
                \<or> path_index \<ge> length materialKeys then Inl OutOfBounds
        else
          let pathSegment = pathSegments ! path_index;
              (hitGeomIndex, t_min, normToken) =
                 traverseAABBTree ext (ray pathSegment) (lastGeom pathSegment);
              old = intersections ! path_index;
              new =
                (if hitGeomIndex = - 1 then old\<lparr>isect_t := - 1, materialId := - 1\<rparr>
                 else
                   let (geomNorm, shadeNorm) = computeNormals ext (geoms ext hitGeomIndex) normToken
                   in old\<lparr>geometricNormal := geomNorm, shadingNormal := shadeNorm,
                          isect_t := t_min, materialId := materialid (geoms ext hitGeomIndex)\<rparr>)
          in Inr (pathSegments[path_index := pathSegment\<lparr>lastGeom := hitGeomIndex\<rparr>],
                  intersections[path_index := new],
                  materialKeys[path_index := materialId new]))"

definition vec2add :: "vec2 \<Rightarrow> vec2 \<Rightarrow> vec2" where
  "vec2add a b = (fst a + fst b, snd a + snd b)"

definition shadePath ::
  "config \<Rightarrow> externals \<Rightarrow> int \<Rightarrow> nat \<Rightarrow> nat \<Rightarrow> int \<Rightarrow> int \<Rightarrow> int \<Rightarrow>
   ShadeableIntersection \<Rightarrow> PathSegment \<Rightarrow> fault + PathSegment" where
  \<comment> \<open>lines 295 to 331 of \<^verbatim>\<open>shade\<close>: the new value of \<^verbatim>\<open>path\<close>\<close>
  "shadePath cfg ext iter depth iSelf stratCount lightMis numLights intersection path =
     (if materialId intersection \<noteq> - 1 then
        (case poolSlot (stratifiedSampleIndex cfg ext (word_of_int iter)
                          (word_of_nat (pixelIndex path)) (word_of_int stratCount)) stratCount of
           Inl e \<Rightarrow> Inl e
         | Inr slot \<Rightarrow>
             let pooled = samplePool ext depth slot;
                 draw = uniformDraw ext iter iSelf (int depth);
                 sample_out = vec2add (out pooled) (draw 0, draw 1);
                 sample_mis1 = vec2add (mis1 pooled) (draw 2, draw 3);
                 sample_mis2 = vec2add (mis2 pooled) (draw 4, draw 5);
                 intersectPoint =
                   vadd (origin (ray path)) (smul (isect_t intersection) (direction (ray path)));
                 mat = materials ext (materialId intersection);
                 isSpecular =
                   (mtype mat = specularReflection \<or> mtype mat = specularTransmission);
                 misIsIndirect = (indirectIllum path \<or> \<not> prevBounceSpecular path);
                 path1 =
                   (if lightMis \<noteq> - 1 \<and> \<not> isSpecular then
                      multipleImportanceSampling ext path intersectPoint
                        (geometricNormal intersection) (shadingNormal intersection)
                        mat sample_mis1 sample_mis2 lightMis numLights misIsIndirect
                    else path);
                 (path2, isSpecularRay) =
                   scatterRay ext path1 intersectPoint
                     (geometricNormal intersection) (shadingNormal intersection) mat
                     sample_out isSpecular
                     (depth = 0 \<or> lightMis = - 1 \<or> gtype (geoms ext (lastGeom path1)) \<noteq> TRIANGLE)
                     (indirectIllum path1)
             in Inr (path2\<lparr>indirectIllum := misIsIndirect,
                           prevBounceNoMis := isSpecular,
                           prevBounceSpecular := isSpecularRay\<rparr>))
      else Inr (path\<lparr>colorThroughput := vec3s 0, remainingBounces := 0\<rparr>))"

definition shade ::
  "config \<Rightarrow> externals \<Rightarrow> int \<Rightarrow> nat \<Rightarrow> nat \<Rightarrow> ShadeableIntersection list \<Rightarrow> int \<Rightarrow> int \<Rightarrow> int \<Rightarrow>
   nat \<Rightarrow> PathSegment list \<Rightarrow> fault + PathSegment list" where
  "shade cfg ext iter depth numPaths intersections stratCount lightMis numLights iSelf paths =
     (if iSelf \<ge> numPaths then Inr paths
      else
        (case readAt intersections iSelf of
           Inl e \<Rightarrow> Inl e
         | Inr intersection \<Rightarrow>
             (case readAt paths iSelf of
                Inl e \<Rightarrow> Inl e
              | Inr path \<Rightarrow>
                  (case shadePath cfg ext iter depth iSelf stratCount lightMis numLights
                          intersection path of
                     Inl e \<Rightarrow> Inl e
                   | Inr path' \<Rightarrow> writeAt iSelf path' paths))))"

type_synonym accum = "vec3 list \<times> real list \<times> vec3 list \<times> real list"

definition finalGather :: "nat \<Rightarrow> PathSegment list \<Rightarrow> nat \<Rightarrow> accum \<Rightarrow> fault + accum" where
  \<comment> \<open>the state is \<^verbatim>\<open>direct\<close>, \<^verbatim>\<open>directSqr\<close>, \<^verbatim>\<open>indirect\<close>, \<^verbatim>\<open>indirectSqr\<close>\<close>
  "finalGather nPaths iterationPaths index st =
     (case st of (direct, directSqr, indirect, indirectSqr) \<Rightarrow>
        if index < nPaths then
          (case readAt iterationPaths index of
             Inl e \<Rightarrow> Inl e
           | Inr iterationPath \<Rightarrow>
               let p = pixelIndex iterationPath in
               if p < length direct \<and> p < length directSqr
                  \<and> p < length indirect \<and> p < length indirectSqr then
                 Inr (direct[p := vadd (direct ! p) (directAccum iterationPath)],
                      directSqr[p := directSqr ! p + length2 (directAccum iterationPath)],
                      indirect[p := vadd (indirect ! p) (indirectAccum iterationPath)],
                      indirectSqr[p := indirectSqr ! p + length2 (indirectAccum iterationPath)])
               else Inl OutOfBounds)
        else Inr st)"

definition IsRayTravelling :: "PathSegment \<Rightarrow> bool" where
  "IsRayTravelling path = (remainingBounces path > 0)"

subsection \<open>One iteration of the path tracer\<close>

definition zeroIntersection :: ShadeableIntersection where
  \<comment> \<open>a \<^verbatim>\<open>ShadeableIntersection\<close> of zero bytes\<close>
  "zeroIntersection =
     \<lparr>isect_t = 0, materialId = 0, geometricNormal = vec3s 0, shadingNormal = vec3s 0\<rparr>"

definition cudaMemset0 :: "nat \<Rightarrow> ShadeableIntersection list \<Rightarrow> fault + ShadeableIntersection list" where
  \<comment> \<open>\<^verbatim>\<open>cudaMemset(buf, 0, n * sizeof(ShadeableIntersection))\<close>\<close>
  "cudaMemset0 n buf =
     (if n \<le> length buf then Inr (replicate n zeroIntersection @ drop n buf) else Inl OutOfBounds)"

definition cudaMemcpy :: "'a list \<Rightarrow> nat \<Rightarrow> 'a list \<Rightarrow> fault + 'a list" where
  \<comment> \<open>the first \<open>n\<close> elements of the source over those of the destination\<close>
  "cudaMemcpy source n dst =
     (if n \<le> length source \<and> n \<le> length dst then Inr (take n source @ drop n dst)
      else Inl OutOfBounds)"

definition thrust_partition :: "('a \<Rightarrow> bool) \<Rightarrow> 'a list \<Rightarrow> 'a list \<times> nat" where
  \<comment> \<open>\<^verbatim>\<open>thrust::partition\<close>: the elements that satisfy the predicate first, and their number.
      The order inside the two parts is left open by thrust; here it is the one before.\<close>
  "thrust_partition pred xs =
     (filter pred xs @ filter (\<lambda>x. \<not> pred x) xs, length (filter pred xs))"

definition thrust_sort_by_key :: "int list \<Rightarrow> 'a list \<Rightarrow> int list \<times> 'a list" where
  \<comment> \<open>\<^verbatim>\<open>thrust::sort_by_key\<close>: keys ascending, the values permuted with them\<close>
  "thrust_sort_by_key keys vals =
     (map fst (sort_key fst (zip keys vals)), map snd (sort_key fst (zip keys vals)))"

definition sortStage :: "nat \<Rightarrow> devState \<Rightarrow> fault + devState" where
  \<comment> \<open>lines 458 to 462\<close>
  "sortStage numPaths s =
     (case cudaMemcpy (dev_materialSortBuffer s) numPaths (dev_materialSortBuffer2 s) of
        Inl e \<Rightarrow> Inl e
      | Inr keys2 \<Rightarrow>
          if numPaths \<le> length (dev_intersections s) \<and> numPaths \<le> length (dev_paths s) then
            let (k1, sortedIsects) =
                  thrust_sort_by_key (take numPaths (dev_materialSortBuffer s))
                    (take numPaths (dev_intersections s));
                (k2, sortedPaths) =
                  thrust_sort_by_key (take numPaths keys2) (take numPaths (dev_paths s))
            in Inr (s\<lparr>dev_materialSortBuffer := k1 @ drop numPaths (dev_materialSortBuffer s),
                       dev_materialSortBuffer2 := k2 @ drop numPaths keys2,
                       dev_intersections := sortedIsects @ drop numPaths (dev_intersections s),
                       dev_paths := sortedPaths @ drop numPaths (dev_paths s)\<rparr>)
          else Inl OutOfBounds)"

definition intersectStage :: "config \<Rightarrow> externals \<Rightarrow> nat \<Rightarrow> nat \<Rightarrow> devState \<Rightarrow> fault + devState" where
  \<comment> \<open>lines 424 to 447\<close>
  "intersectStage cfg ext depth numPaths s =
     (let pixelcount = fst (resolution s) * snd (resolution s) in
      case cudaMemset0 pixelcount (dev_intersections s) of
        Inl e \<Rightarrow> Inl e
      | Inr cleared \<Rightarrow>
          if depth = 0 \<and> firstBounceCached s then
            (case cudaMemcpy (dev_firstBounceIntersections s) pixelcount cleared of
               Inl e \<Rightarrow> Inl e
             | Inr copied \<Rightarrow> Inr (s\<lparr>dev_intersections := copied\<rparr>))
          else
            (case launch (computeIntersections ext depth numPaths)
                    (grid1D (ceilDiv numPaths 128) 128)
                    (dev_paths s, cleared, dev_materialSortBuffer s) of
               Inl e \<Rightarrow> Inl e
             | Inr (ps, isects, keys) \<Rightarrow>
                 let s1 = s\<lparr>dev_paths := ps, dev_intersections := isects,
                            dev_materialSortBuffer := keys\<rparr> in
                 if cacheFirstBounce cfg \<and> depth = 0 then
                   (case cudaMemcpy isects pixelcount (dev_firstBounceIntersections s1) of
                      Inl e \<Rightarrow> Inl e
                    | Inr cached \<Rightarrow>
                        Inr (s1\<lparr>dev_firstBounceIntersections := cached,
                                 firstBounceCached := True\<rparr>))
                 else Inr s1))"

definition depthStep ::
  "config \<Rightarrow> externals \<Rightarrow> int \<Rightarrow> int \<Rightarrow> int \<Rightarrow> nat \<Rightarrow> nat \<Rightarrow> devState \<Rightarrow> fault + devState \<times> nat" where
  \<comment> \<open>the body of the loop over the depths (lines 423 to 472): the new state and \<^verbatim>\<open>numPaths\<close>\<close>
  "depthStep cfg ext iter lightMis numLights depth numPaths s =
     (case intersectStage cfg ext depth numPaths s of
        Inl e \<Rightarrow> Inl e
      | Inr s1 \<Rightarrow>
          (case (if sortByMaterial cfg then sortStage numPaths s1 else Inr s1) of
             Inl e \<Rightarrow> Inl e
           | Inr s2 \<Rightarrow>
               (case launch (shade cfg ext iter depth numPaths (dev_intersections s2)
                               (numStratifiedSamples s2) lightMis numLights)
                       (grid1D (ceilDiv numPaths 128) 128) (dev_paths s2) of
                  Inl e \<Rightarrow> Inl e
                | Inr shaded \<Rightarrow>
                    if numPaths \<le> length shaded then
                      let (front, n) = thrust_partition IsRayTravelling (take numPaths shaded)
                      in Inr (s2\<lparr>dev_paths := front @ drop numPaths shaded\<rparr>, n)
                    else Inl OutOfBounds)))"

partial_function (option) depthLoop ::
  "config \<Rightarrow> externals \<Rightarrow> int \<Rightarrow> int \<Rightarrow> int \<Rightarrow> nat \<Rightarrow> nat \<Rightarrow> devState \<Rightarrow> (fault + devState \<times> nat) option" where
  \<comment> \<open>\<^verbatim>\<open>for (int depth = 0; numPaths > 0; ++depth)\<close>: the state and the depth at the exit\<close>
  "depthLoop cfg ext iter lightMis numLights depth numPaths s =
     (if numPaths > 0 then
        (case depthStep cfg ext iter lightMis numLights depth numPaths s of
           Inl e \<Rightarrow> Some (Inl e)
         | Inr (s', numPaths') \<Rightarrow> depthLoop cfg ext iter lightMis numLights (depth + 1) numPaths' s')
      else Some (Inr (s, depth)))"

definition pathtrace ::
  "config \<Rightarrow> externals \<Rightarrow> int \<Rightarrow> int \<Rightarrow> int \<Rightarrow> int \<Rightarrow> devState \<Rightarrow> (fault + devState) option" where
  \<comment> \<open>\<^term>\<open>None\<close>: the loop over the depths does not end\<close>
  "pathtrace cfg ext frame iter lightMis numLights s =
     (let pixelcount = fst (resolution s) * snd (resolution s);
          blocksPerGrid2d = (ceilDiv (fst (resolution s)) 8, ceilDiv (snd (resolution s)) 8)
      in
      case launch (generateRayFromCamera cfg ext (resolution s) iter (traceDepth s)
                     (numStratifiedSamples s))
             (grid2D blocksPerGrid2d (8, 8)) (dev_paths s) of
        Inl e \<Rightarrow> Some (Inl e)
      | Inr generated \<Rightarrow>
          (case depthLoop cfg ext iter lightMis numLights 0 pixelcount
                  (s\<lparr>dev_paths := generated\<rparr>) of
             None \<Rightarrow> None
           | Some (Inl e) \<Rightarrow> Some (Inl e)
           | Some (Inr (s1, depth)) \<Rightarrow>
               (case launch (finalGather pixelcount (dev_paths s1))
                       (grid1D (ceilDiv pixelcount 128) 128)
                       (vecMem s1 (dev_directIllum s1), floatMem s1 (dev_directIllumSqr s1),
                        vecMem s1 (dev_indirectIllum s1), floatMem s1 (dev_indirectIllumSqr s1)) of
                  Inl e \<Rightarrow> Some (Inl e)
                | Inr (direct, directSqr, indirect, indirectSqr) \<Rightarrow>
                    Some (Inr (s1\<lparr>vecMem := (vecMem s1)
                                     (dev_directIllum s1 := direct, dev_indirectIllum s1 := indirect),
                                   floatMem := (floatMem s1)
                                     (dev_directIllumSqr s1 := directSqr,
                                      dev_indirectIllumSqr s1 := indirectSqr)\<rparr>)))))"

subsection \<open>The variance pass of the denoiser\<close>

definition varianceEstimate :: "vec3 \<Rightarrow> real \<Rightarrow> int \<Rightarrow> real option" where
  \<comment> \<open>the value \<^verbatim>\<open>aTrousComputeVariance\<close> stores for one pixel (lines 638 to 647)\<close>
  "varianceEstimate pixColorTotal pixColorSqrTotal iter =
     (if iter > 1 then
        (case fdiv (length2 pixColorTotal) (real_of_int iter) of
           None \<Rightarrow> None
         | Some q \<Rightarrow>
             (case fdiv (pixColorSqrTotal - q) (real_of_int (iter - 1)) of
                None \<Rightarrow> None
              | Some v \<Rightarrow> Some (sqrt (max 0 v))))
      else Some 1)"

definition aTrousComputeVariance ::
  "vec3 list \<Rightarrow> real list \<Rightarrow> nat \<Rightarrow> nat \<Rightarrow> int \<Rightarrow> nat \<times> nat \<Rightarrow> real list \<Rightarrow> fault + real list" where
  "aTrousComputeVariance colorTotal colorSqr width height iter t stddev =
     (case t of (ix, iy) \<Rightarrow>
        if ix \<ge> width \<or> iy \<ge> height then Inr stddev
        else
          let pixelIdx = iy * width + ix in
          (case readAt colorTotal pixelIdx of
             Inl e \<Rightarrow> Inl e
           | Inr pixColorTotal \<Rightarrow>
               (case readAt colorSqr pixelIdx of
                  Inl e \<Rightarrow> Inl e
                | Inr pixColorSqrTotal \<Rightarrow>
                    (case varianceEstimate pixColorTotal pixColorSqrTotal iter of
                       None \<Rightarrow> Inl NonFinite
                     | Some v \<Rightarrow> writeAt pixelIdx v stddev))))"

subsection \<open>The filter pass of the denoiser\<close>

definition texelFetch :: "'a list \<Rightarrow> int \<Rightarrow> int \<Rightarrow> int \<Rightarrow> int \<Rightarrow> fault + 'a" where
  \<comment> \<open>\<^verbatim>\<open>glm::clamp(x, lo, hi)\<close> is \<^verbatim>\<open>min(max(x, lo), hi)\<close>\<close>
  "texelFetch tex width height x y =
     (let cx = min (max x 0) (width - 1);
          cy = min (max y 0) (height - 1);
          i = cy * width + cx
      in if 0 \<le> i \<and> i < int (length tex) then Inr (tex ! nat i) else Inl OutOfBounds)"

definition textureSampleBilinear :: "vec3 list \<Rightarrow> int \<Rightarrow> int \<Rightarrow> real \<Rightarrow> real \<Rightarrow> fault + vec3" where
  "textureSampleBilinear tex width height pixelX pixelY =
     (let px = pixelX - 0.5;
          py = pixelY - 0.5;
          x = \<lfloor>px\<rfloor>;
          y = \<lfloor>py\<rfloor>;
          fx = px - real_of_int x;
          fy = py - real_of_int y
      in
      case texelFetch tex width height x y of
        Inl e \<Rightarrow> Inl e
      | Inr p11 \<Rightarrow>
          (case texelFetch tex width height (x + 1) y of
             Inl e \<Rightarrow> Inl e
           | Inr p12 \<Rightarrow>
               (case texelFetch tex width height x (y + 1) of
                  Inl e \<Rightarrow> Inl e
                | Inr p21 \<Rightarrow>
                    (case texelFetch tex width height (x + 1) (y + 1) of
                       Inl e \<Rightarrow> Inl e
                     | Inr p22 \<Rightarrow> Inr (mix (mix p11 p12 fx) (mix p21 p22 fx) fy)))))"

definition aTrousOffsets :: "real \<Rightarrow> real list" where
  "aTrousOffsets stepSize = [- 2 * stepSize, - 1 * stepSize, 0, 1 * stepSize, 2 * stepSize]"

definition aTrousWeights :: "real list" where
  "aTrousWeights = [0.0625, 0.25, 0.375, 0.25, 0.0625]"

record aTrousCenter =
  \<comment> \<open>the locals of \<^verbatim>\<open>aTrousIter\<close> that are set before its loops\<close>
  centerColor :: vec3
  centerNormal :: vec3
  centerPosition :: vec3
  centerStddev :: real
  centerX :: real
  centerY :: real

definition aTrousTap ::
  "vec3 list \<Rightarrow> vec3 list \<Rightarrow> vec3 list \<Rightarrow> nat \<Rightarrow> nat \<Rightarrow> real \<Rightarrow> real \<Rightarrow> real \<Rightarrow> real \<Rightarrow>
   aTrousCenter \<Rightarrow> nat \<times> nat \<Rightarrow> real \<times> vec3 \<Rightarrow> fault + real \<times> vec3" where
  \<comment> \<open>the body of the loops (lines 555 to 574); the state is \<^verbatim>\<open>totalWeight\<close>, \<^verbatim>\<open>totalColor\<close>\<close>
  "aTrousTap color normal position width height stepSize
       colorWeightSqr normalWeightSqr positionWeightSqr c xy acc =
     (case (xy, acc) of ((x, y), (totalWeight, totalColor)) \<Rightarrow>
        let curWeight = aTrousWeights ! x * aTrousWeights ! y in
        if x = 2 \<and> y = 2 then
          Inr (totalWeight + curWeight, vadd totalColor (smul curWeight (centerColor c)))
        else
          let pixelX = centerX c + aTrousOffsets stepSize ! x;
              pixelY = centerY c + aTrousOffsets stepSize ! y
          in
          (case textureSampleBilinear color (int width) (int height) pixelX pixelY of
             Inl e \<Rightarrow> Inl e
           | Inr curColor \<Rightarrow>
           (case fdiv (length2 (vsub curColor (centerColor c)))
                   (colorWeightSqr * centerStddev c + 0.01) of
              None \<Rightarrow> Inl NonFinite
            | Some colorExp \<Rightarrow>
            (case textureSampleBilinear normal (int width) (int height) pixelX pixelY of
               Inl e \<Rightarrow> Inl e
             | Inr curNormal \<Rightarrow>
             (case fdiv (length2 (vsub curNormal (centerNormal c)))
                     (normalWeightSqr * stepSize * stepSize) of
                None \<Rightarrow> Inl NonFinite
              | Some normalExp \<Rightarrow>
              (case textureSampleBilinear position (int width) (int height) pixelX pixelY of
                 Inl e \<Rightarrow> Inl e
               | Inr curPosition \<Rightarrow>
               (case fdiv (length2 (vsub curPosition (centerPosition c))) positionWeightSqr of
                  None \<Rightarrow> Inl NonFinite
                | Some positionExp \<Rightarrow>
                    let w = curWeight * exp (- (colorExp + normalExp + positionExp))
                    in Inr (totalWeight + w, vadd totalColor (smul w curColor)))))))))"

definition aTrousTaps :: "(nat \<times> nat) list" where
  \<comment> \<open>\<^verbatim>\<open>for (x = 0; x < 5; ++x) for (y = 0; y < 5; ++y)\<close>\<close>
  "aTrousTaps = List.product [0..<5] [0..<5]"

definition aTrousIter ::
  "vec3 list \<Rightarrow> vec3 list \<Rightarrow> vec3 list \<Rightarrow> real list \<Rightarrow> nat \<Rightarrow> nat \<Rightarrow> real \<Rightarrow> real \<Rightarrow> real \<Rightarrow> real \<Rightarrow>
   nat \<times> nat \<Rightarrow> vec3 list \<Rightarrow> fault + vec3 list" where
  "aTrousIter color normal position stddev width height stepSize
       colorWeightSqr normalWeightSqr positionWeightSqr t colorOut =
     (case t of (ix, iy) \<Rightarrow>
        if ix \<ge> width \<or> iy \<ge> height then Inr colorOut
        else
          let pixelIdx = iy * width + ix in
          (case readAt color pixelIdx of Inl e \<Rightarrow> Inl e | Inr cColor \<Rightarrow>
          (case readAt normal pixelIdx of Inl e \<Rightarrow> Inl e | Inr cNormal \<Rightarrow>
          (case readAt position pixelIdx of Inl e \<Rightarrow> Inl e | Inr cPosition \<Rightarrow>
          (case readAt stddev pixelIdx of Inl e \<Rightarrow> Inl e | Inr cStddev \<Rightarrow>
             let c = \<lparr>centerColor = cColor, centerNormal = cNormal, centerPosition = cPosition,
                      centerStddev = cStddev, centerX = real ix + 0.5, centerY = real iy + 0.5\<rparr>
             in
             (case forEach (aTrousTap color normal position width height stepSize
                              colorWeightSqr normalWeightSqr positionWeightSqr c)
                     aTrousTaps (0, vec3s 0) of
                Inl e \<Rightarrow> Inl e
              | Inr (totalWeight, totalColor) \<Rightarrow>
                  (case vdivs totalColor totalWeight of
                     None \<Rightarrow> Inl NonFinite
                   | Some filtered \<Rightarrow> writeAt (iy * width + ix) filtered colorOut)))))))"

definition aTrousCopyBuffer :: "vec3 list \<Rightarrow> nat \<Rightarrow> int \<Rightarrow> nat \<Rightarrow> vec3 list \<Rightarrow> fault + vec3 list" where
  "aTrousCopyBuffer accumBuf numPixels iter iSelf target =
     (if iSelf \<ge> numPixels then Inr target
      else
        (case readAt accumBuf iSelf of
           Inl e \<Rightarrow> Inl e
         | Inr a \<Rightarrow>
             (case vdivs a (real_of_int iter) of
                None \<Rightarrow> Inl NonFinite
              | Some m \<Rightarrow> writeAt iSelf m target)))"

subsection \<open>The denoiser run\<close>

datatype resultVar = addr_filteredIndirectDiffuse | addr_filteredDirectSpecular
  \<comment> \<open>what \<^verbatim>\<open>glm::vec3 **resultBuf\<close> points to: one of two pointer variables\<close>

definition deref :: "resultVar \<Rightarrow> devState \<Rightarrow> nat" where
  \<comment> \<open>\<^verbatim>\<open>*resultBuf\<close>\<close>
  "deref r s =
     (case r of
        addr_filteredIndirectDiffuse \<Rightarrow> dev_filteredIndirectDiffuse s
      | addr_filteredDirectSpecular \<Rightarrow> dev_filteredDirectSpecular s)"

definition assign :: "resultVar \<Rightarrow> nat \<Rightarrow> devState \<Rightarrow> devState" where
  \<comment> \<open>\<^verbatim>\<open>*resultBuf = a\<close>\<close>
  "assign r a s =
     (case r of
        addr_filteredIndirectDiffuse \<Rightarrow> s\<lparr>dev_filteredIndirectDiffuse := a\<rparr>
      | addr_filteredDirectSpecular \<Rightarrow> s\<lparr>dev_filteredDirectSpecular := a\<rparr>)"

fun aTrousLevels ::
  "resultVar \<Rightarrow> real \<Rightarrow> real \<Rightarrow> real \<Rightarrow> nat \<Rightarrow> real \<Rightarrow> devState \<Rightarrow> fault + devState" where
  \<comment> \<open>the loop of lines 702 to 712, by the number of levels still to run\<close>
  "aTrousLevels resultBuf colorWeight normalWeight positionWeight 0 stepSize s = Inr s"
| "aTrousLevels resultBuf colorWeight normalWeight positionWeight (Suc n) stepSize s =
     (case launch (aTrousIter (vecMem s (deref resultBuf s)) (vecMem s (dev_normalBuffer s))
                     (vecMem s (dev_positionBuffer s)) (floatMem s (dev_stddevBuffer s))
                     (fst (resolution s)) (snd (resolution s)) stepSize
                     (colorWeight * colorWeight) (normalWeight * normalWeight)
                     (positionWeight * positionWeight))
             (grid2D (ceilDiv (fst (resolution s)) 16, ceilDiv (snd (resolution s)) 16) (16, 16))
             (vecMem s (dev_filteredTemp s)) of
        Inl e \<Rightarrow> Inl e
      | Inr colorOut \<Rightarrow>
          let s1 = s\<lparr>vecMem := (vecMem s)(dev_filteredTemp s := colorOut)\<rparr>;
              s2 = (assign resultBuf (dev_filteredTemp s1) s1)\<lparr>dev_filteredTemp := deref resultBuf s1\<rparr>
          in aTrousLevels resultBuf colorWeight normalWeight positionWeight n (stepSize * 2) s2)"

definition aTrous ::
  "BufferType \<Rightarrow> int \<Rightarrow> real \<Rightarrow> int \<Rightarrow> real \<Rightarrow> real \<Rightarrow> real \<Rightarrow> devState \<Rightarrow> fault + devState" where
  \<comment> \<open>\<^verbatim>\<open>glm::pow(2.0f, levels)\<close> is positive, so the division by it is a real division\<close>
  "aTrous buf levels radius iter colorWeight normalWeight positionWeight s =
     (let numPixels = fst (resolution s) * snd (resolution s);
          numBlocks = ceilDiv numPixels 128;
          numBlocks2D = (ceilDiv (fst (resolution s)) 16, ceilDiv (snd (resolution s)) 16)
      in
      case (if buf = DirectSpecularIllumination then
              Inr (dev_indirectIllum s, dev_indirectIllumSqr s, addr_filteredIndirectDiffuse)
            else if buf = IndirectDiffuseIllumination then
              Inr (dev_directIllum s, dev_directIllumSqr s, addr_filteredDirectSpecular)
            else Inl ProcessAbort) of
        Inl e \<Rightarrow> Inl e
      | Inr (colorBuf, colorSqrBuf, resultBuf) \<Rightarrow>
          (case launch (aTrousCopyBuffer (vecMem s colorBuf) numPixels iter)
                  (grid1D numBlocks 128) (vecMem s (deref resultBuf s)) of
             Inl e \<Rightarrow> Inl e
           | Inr target \<Rightarrow>
               let s1 = s\<lparr>vecMem := (vecMem s)(deref resultBuf s := target)\<rparr> in
               (case launch (aTrousComputeVariance (vecMem s1 colorBuf) (floatMem s1 colorSqrBuf)
                               (fst (resolution s1)) (snd (resolution s1)) iter)
                       (grid2D numBlocks2D (16, 16)) (floatMem s1 (dev_stddevBuffer s1)) of
                  Inl e \<Rightarrow> Inl e
                | Inr stddev \<Rightarrow>
                    let s2 = s1\<lparr>floatMem := (floatMem s1)(dev_stddevBuffer s1 := stddev)\<rparr>;
                        stepSize = 0.5 * radius / (2 powr real_of_int levels)
                    in aTrousLevels resultBuf colorWeight normalWeight positionWeight
                         (nat levels) stepSize s2)))"

subsection \<open>Buffer selection and the display transform\<close>

datatype voidPtr = nullptr | floatPtr nat | vecPtr nat
  \<comment> \<open>a \<^verbatim>\<open>const void *\<close>: null, or the address of a \<^verbatim>\<open>float\<close> or of a \<^verbatim>\<open>glm::vec3\<close> array\<close>

datatype voidArray = nullArray | floatArray "real list" | vecArray "vec3 list"
  \<comment> \<open>what a \<^verbatim>\<open>const void *\<close> points to\<close>

definition getBuffers :: "BufferType \<Rightarrow> devState \<Rightarrow> nat option \<Rightarrow> nat option \<times> voidPtr" where
  \<comment> \<open>the third argument is \<^verbatim>\<open>*buf1\<close> at the call (\<^term>\<open>None\<close>: indeterminate); the result
      is \<^verbatim>\<open>*buf1\<close> and \<^verbatim>\<open>*buf2\<close> at the return\<close>
  "getBuffers buf s buf1 =
     (case buf of
        DirectSpecularIlluminationVariance \<Rightarrow>
          (Some (dev_directIllum s), floatPtr (dev_directIllumSqr s))
      | DirectSpecularIllumination \<Rightarrow> (Some (dev_directIllum s), nullptr)
      | IndirectDiffuseIlluminationVariance \<Rightarrow>
          (Some (dev_indirectIllum s), floatPtr (dev_indirectIllumSqr s))
      | IndirectDiffuseIllumination \<Rightarrow> (Some (dev_indirectIllum s), nullptr)
      | FullIllumination \<Rightarrow> (Some (dev_directIllum s), vecPtr (dev_indirectIllum s))
      | Normal \<Rightarrow> (Some (dev_normalBuffer s), nullptr)
      | Position \<Rightarrow> (Some (dev_positionBuffer s), nullptr)
      | FilteredDirectSpecular \<Rightarrow> (Some (dev_filteredDirectSpecular s), nullptr)
      | FilteredIndirectDiffuse \<Rightarrow> (Some (dev_filteredIndirectDiffuse s), nullptr)
      | FilteredColor \<Rightarrow>
          (Some (dev_filteredDirectSpecular s), vecPtr (dev_filteredIndirectDiffuse s))
      | unlistedBufferType _ \<Rightarrow> (buf1, nullptr))"

definition asFloats :: "voidArray \<Rightarrow> nat \<Rightarrow> fault + real" where
  \<comment> \<open>\<^verbatim>\<open>static_cast<const float*>(buf2)[index]\<close>\<close>
  "asFloats buf2 index =
     (case buf2 of floatArray fs \<Rightarrow> readAt fs index | _ \<Rightarrow> Inl BadPointer)"

definition asVecs :: "voidArray \<Rightarrow> nat \<Rightarrow> fault + vec3" where
  \<comment> \<open>\<^verbatim>\<open>static_cast<const glm::vec3*>(buf2)[index]\<close>\<close>
  "asVecs buf2 index =
     (case buf2 of vecArray vs \<Rightarrow> readAt vs index | _ \<Rightarrow> Inl BadPointer)"

definition gammaEncode :: "vec3 \<Rightarrow> fault + vec3" where
  \<comment> \<open>\<^verbatim>\<open>glm::pow(v, glm::vec3(1.0f / 2.2f))\<close>\<close>
  "gammaEncode v = (case vpow v (1 / 2.2) of None \<Rightarrow> Inl NonFinite | Some r \<Rightarrow> Inr r)"

definition texelVariance :: "vec3 \<Rightarrow> voidArray \<Rightarrow> nat \<Rightarrow> int \<Rightarrow> fault + vec3" where
  \<comment> \<open>lines 724 to 728, the case of the two variance types\<close>
  "texelVariance pix1 buf2 index iter =
     (case asFloats buf2 index of
        Inl e \<Rightarrow> Inl e
      | Inr sumSqr \<Rightarrow>
          (case fdiv (length2 pix1) (real_of_int iter) of
             None \<Rightarrow> Inl NonFinite
           | Some q \<Rightarrow>
               (case fdiv (sumSqr - q) (real_of_int (iter - 1)) of
                  None \<Rightarrow> Inl NonFinite
                | Some variance \<Rightarrow>
                    (case vpow (Vec3 variance 0 0) 0.3 of
                       None \<Rightarrow> Inl NonFinite
                     | Some r \<Rightarrow> Inr r))))"

definition texelIllumination :: "vec3 \<Rightarrow> voidArray \<Rightarrow> nat \<Rightarrow> int \<Rightarrow> fault + vec3" where
  \<comment> \<open>lines 735 to 763, the case of the three illumination types; the block under
      \<^verbatim>\<open>CHECK_NAN\<close> and \<^verbatim>\<open>CHECK_NEGATIVE\<close> is not compiled\<close>
  "texelIllumination pix1 buf2 index iter =
     (case (if buf2 \<noteq> nullArray then
              (case asVecs buf2 index of Inl e \<Rightarrow> Inl e | Inr v \<Rightarrow> Inr (vadd pix1 v))
            else Inr pix1) of
        Inl e \<Rightarrow> Inl e
      | Inr pix \<Rightarrow>
          (case vdivs pix (real_of_int iter) of
             None \<Rightarrow> Inl NonFinite
           | Some raw \<Rightarrow> gammaEncode raw))"

definition processTexel :: "vec3 list \<Rightarrow> voidArray \<Rightarrow> nat \<Rightarrow> BufferType \<Rightarrow> int \<Rightarrow> fault + vec3" where
  "processTexel buf1 buf2 index bufType iter =
     (case readAt buf1 index of
        Inl e \<Rightarrow> Inl e
      | Inr pix1 \<Rightarrow>
          (case bufType of
             DirectSpecularIlluminationVariance \<Rightarrow> texelVariance pix1 buf2 index iter
           | IndirectDiffuseIlluminationVariance \<Rightarrow> texelVariance pix1 buf2 index iter
           | DirectSpecularIllumination \<Rightarrow> texelIllumination pix1 buf2 index iter
           | IndirectDiffuseIllumination \<Rightarrow> texelIllumination pix1 buf2 index iter
           | FullIllumination \<Rightarrow> texelIllumination pix1 buf2 index iter
           | Normal \<Rightarrow> Inr (smul 0.5 (sadd pix1 1))
           | Position \<Rightarrow>
               (case vdivs (sadd pix1 (0.5 * 30)) 30 of
                  None \<Rightarrow> Inl NonFinite
                | Some r \<Rightarrow> Inr r)
           | FilteredDirectSpecular \<Rightarrow> gammaEncode pix1
           | FilteredIndirectDiffuse \<Rightarrow> gammaEncode pix1
           | FilteredColor \<Rightarrow>
               (case asVecs buf2 index of
                  Inl e \<Rightarrow> Inl e
                | Inr v \<Rightarrow> gammaEncode (vadd pix1 v))
           | unlistedBufferType _ \<Rightarrow> Inl NoReturnValue))"

definition processImage ::
  "vec3 list \<Rightarrow> voidArray \<Rightarrow> nat \<times> nat \<Rightarrow> int \<Rightarrow> BufferType \<Rightarrow> nat \<times> nat \<Rightarrow> vec3 list \<Rightarrow> fault + vec3 list" where
  "processImage in1 in2 res iter bufType t outBuf =
     (case t of (x, y) \<Rightarrow>
        if x < fst res \<and> y < snd res then
          (case processTexel in1 in2 (x + y * fst res) bufType iter of
             Inl e \<Rightarrow> Inl e
           | Inr v \<Rightarrow> writeAt (x + y * fst res) v outBuf)
        else Inr outBuf)"

definition pointee :: "devState \<Rightarrow> voidPtr \<Rightarrow> voidArray" where
  "pointee s p =
     (case p of
        nullptr \<Rightarrow> nullArray
      | floatPtr a \<Rightarrow> floatArray (floatMem s a)
      | vecPtr a \<Rightarrow> vecArray (vecMem s a))"

definition saveBufferState :: "BufferType \<Rightarrow> int \<Rightarrow> devState \<Rightarrow> fault + vec3 list" where
  \<comment> \<open>the result is the new \<^verbatim>\<open>hst_scene->state.image\<close>; \<^verbatim>\<open>tmpBuffer\<close> is a fresh array\<close>
  "saveBufferState buf iter s =
     (case getBuffers buf s None of
        (None, _) \<Rightarrow> Inl BadPointer
      | (Some buf1, buf2) \<Rightarrow>
          launch (processImage (vecMem s buf1) (pointee s buf2) (resolution s) iter buf)
            (grid2D (ceilDiv (fst (resolution s)) 8, ceilDiv (snd (resolution s)) 8) (8, 8))
            (replicate (fst (resolution s) * snd (resolution s)) (vec3s 0)))"

definition unbiasedVariance :: "vec3 \<Rightarrow> real \<Rightarrow> int \<Rightarrow> real" where
  \<comment> \<open>the formula of the specification: \<open>(sumSqr - |sum|\<^sup>2 / iter) / (iter - 1)\<close>\<close>
  "unbiasedVariance csum sumSqr iter =
     (sumSqr - length2 csum / real_of_int iter) / real_of_int (iter - 1)"

definition storedEstimate :: "vec3 \<Rightarrow> real \<Rightarrow> int \<Rightarrow> real" where
  \<comment> \<open>what the variance pass stores, in closed form\<close>
  "storedEstimate csum sumSqr iter =
     (if 1 < iter then sqrt (max 0 (unbiasedVariance csum sumSqr iter)) else 1)"

subsection \<open>The filter pass in closed form\<close>

text \<open>
  What one thread of \<^verbatim>\<open>aTrousIter\<close> computes, as sums over the 5 by 5 taps: the taps are
  fetched by bilinear interpolation with clamped sampling, each tap's weight is the product
  of the binomial weights and the edge-stopping factor, and the output is the weighted
  average. The colour difference is divided by \<^verbatim>\<open>colorWeightSqr * centerStddev + 0.01f\<close>
  (lines 545 and 563), where \<^verbatim>\<open>centerStddev\<close> is the centre's entry of the buffer that
  \<^verbatim>\<open>aTrousComputeVariance\<close> fills.
\<close>

record filterPass =
  passColor :: "vec3 list"
  passNormal :: "vec3 list"
  passPosition :: "vec3 list"
  passStddev :: "real list"     \<comment> \<open>the buffer \<^verbatim>\<open>stddev\<close> of the code\<close>
  passWidth :: nat
  passHeight :: nat
  passStep :: real
  passColorWeight :: real
  passNormalWeight :: real
  passPositionWeight :: real

definition clampedTexel :: "vec3 list \<Rightarrow> nat \<Rightarrow> nat \<Rightarrow> int \<Rightarrow> int \<Rightarrow> vec3" where
  "clampedTexel tex w h x y =
     tex ! (nat (min (max y 0) (int h - 1)) * w + nat (min (max x 0) (int w - 1)))"

definition bilinearTap :: "vec3 list \<Rightarrow> nat \<Rightarrow> nat \<Rightarrow> real \<times> real \<Rightarrow> vec3" where
  "bilinearTap tex w h q =
     (let x = \<lfloor>fst q - 0.5\<rfloor>;
          y = \<lfloor>snd q - 0.5\<rfloor>;
          fx = fst q - 0.5 - real_of_int x;
          fy = snd q - 0.5 - real_of_int y
      in mix (mix (clampedTexel tex w h x y) (clampedTexel tex w h (x + 1) y) fx)
             (mix (clampedTexel tex w h x (y + 1)) (clampedTexel tex w h (x + 1) (y + 1)) fx) fy)"

definition binomialWeight :: "nat \<Rightarrow> real" where
  "binomialWeight k = [0.0625, 0.25, 0.375, 0.25, 0.0625] ! k"

definition centerIndex :: "filterPass \<Rightarrow> nat \<times> nat \<Rightarrow> nat" where
  "centerIndex f p = snd p * passWidth f + fst p"

definition tapPoint :: "filterPass \<Rightarrow> nat \<times> nat \<Rightarrow> nat \<times> nat \<Rightarrow> real \<times> real" where
  \<comment> \<open>the tap \<open>t\<close> of the 5 by 5 grid around the centre of pixel \<open>p\<close>, spaced by the step size\<close>
  "tapPoint f p t =
     (real (fst p) + 0.5 + (real (fst t) - 2) * passStep f,
      real (snd p) + 0.5 + (real (snd t) - 2) * passStep f)"

definition colorTerm :: "filterPass \<Rightarrow> nat \<times> nat \<Rightarrow> nat \<times> nat \<Rightarrow> real" where
  "colorTerm f p t =
     length2 (vsub (bilinearTap (passColor f) (passWidth f) (passHeight f) (tapPoint f p t))
                   (passColor f ! centerIndex f p))
     / ((passColorWeight f)\<^sup>2 * passStddev f ! centerIndex f p + 0.01)"

definition normalTerm :: "filterPass \<Rightarrow> nat \<times> nat \<Rightarrow> nat \<times> nat \<Rightarrow> real" where
  "normalTerm f p t =
     length2 (vsub (bilinearTap (passNormal f) (passWidth f) (passHeight f) (tapPoint f p t))
                   (passNormal f ! centerIndex f p))
     / ((passNormalWeight f)\<^sup>2 * (passStep f)\<^sup>2)"

definition positionTerm :: "filterPass \<Rightarrow> nat \<times> nat \<Rightarrow> nat \<times> nat \<Rightarrow> real" where
  "positionTerm f p t =
     length2 (vsub (bilinearTap (passPosition f) (passWidth f) (passHeight f) (tapPoint f p t))
                   (passPosition f ! centerIndex f p))
     / (passPositionWeight f)\<^sup>2"

definition tapWeight :: "filterPass \<Rightarrow> nat \<times> nat \<Rightarrow> nat \<times> nat \<Rightarrow> real" where
  "tapWeight f p t =
     (if t = (2, 2) then 0.375 * 0.375
      else binomialWeight (fst t) * binomialWeight (snd t)
           * exp (- (colorTerm f p t + normalTerm f p t + positionTerm f p t)))"

definition tapColor :: "filterPass \<Rightarrow> nat \<times> nat \<Rightarrow> nat \<times> nat \<Rightarrow> vec3" where
  "tapColor f p t =
     (if t = (2, 2) then passColor f ! centerIndex f p
      else bilinearTap (passColor f) (passWidth f) (passHeight f) (tapPoint f p t))"

definition weightedAverage :: "filterPass \<Rightarrow> nat \<times> nat \<Rightarrow> vec3" where
  "weightedAverage f p =
     (let totalW = (\<Sum>t\<in>{0..<5} \<times> {0..<5}. tapWeight f p t);
          totalC = (\<Sum>t\<in>{0..<5} \<times> {0..<5}. smul (tapWeight f p t) (tapColor f p t))
      in Vec3 (vx totalC / totalW) (vy totalC / totalW) (vz totalC / totalW))"

definition passOf ::
  "vec3 list \<Rightarrow> vec3 list \<Rightarrow> vec3 list \<Rightarrow> real list \<Rightarrow> nat \<Rightarrow> nat \<Rightarrow> real \<Rightarrow> real \<Rightarrow> real \<Rightarrow> real
   \<Rightarrow> filterPass" where
  \<comment> \<open>the pass that the arguments of \<^verbatim>\<open>aTrousIter\<close> describe\<close>
  "passOf color normal position stddev w h stepSize cw nw pw =
     \<lparr>passColor = color, passNormal = normal, passPosition = position, passStddev = stddev,
      passWidth = w, passHeight = h, passStep = stepSize,
      passColorWeight = cw, passNormalWeight = nw, passPositionWeight = pw\<rparr>"

subsection \<open>The filter pass in the words of the specification\<close>

text \<open>
  These definitions follow the specification, not the code. Its phase 1 gives every pixel
  the unbiased sample variance \<open>(sumSqr - |sum|\<^sup>2 / iter) / (iter - 1)\<close> when \<open>iter > 1\<close> and
  1.0 otherwise; its colour term divides the squared colour difference from the centre by
  \<open>colorWeight\<^sup>2 * centerVariance + \<epsilon>\<close>, with that variance of the centre. The normal term,
  the position term, the binomial weights and the taps are those of the closed form above;
  \<open>\<epsilon>\<close> is taken to be the 0.01 of the code.
\<close>

definition specVariance :: "vec3 \<Rightarrow> real \<Rightarrow> int \<Rightarrow> real" where
  "specVariance csum sumSqr iter = (if 1 < iter then unbiasedVariance csum sumSqr iter else 1)"

definition specColorTerm :: "filterPass \<Rightarrow> real list \<Rightarrow> nat \<times> nat \<Rightarrow> nat \<times> nat \<Rightarrow> real" where
  "specColorTerm f variance p t =
     length2 (vsub (bilinearTap (passColor f) (passWidth f) (passHeight f) (tapPoint f p t))
                   (passColor f ! centerIndex f p))
     / ((passColorWeight f)\<^sup>2 * variance ! centerIndex f p + 0.01)"

definition specTapWeight :: "filterPass \<Rightarrow> real list \<Rightarrow> nat \<times> nat \<Rightarrow> nat \<times> nat \<Rightarrow> real" where
  "specTapWeight f variance p t =
     (if t = (2, 2) then 0.375 * 0.375
      else binomialWeight (fst t) * binomialWeight (snd t)
           * exp (- (specColorTerm f variance p t + normalTerm f p t + positionTerm f p t)))"

definition specWeightedAverage :: "filterPass \<Rightarrow> real list \<Rightarrow> nat \<times> nat \<Rightarrow> vec3" where
  "specWeightedAverage f variance p =
     (let totalW = (\<Sum>t\<in>{0..<5} \<times> {0..<5}. specTapWeight f variance p t);
          totalC = (\<Sum>t\<in>{0..<5} \<times> {0..<5}. smul (specTapWeight f variance p t) (tapColor f p t))
      in Vec3 (vx totalC / totalW) (vy totalC / totalW) (vz totalC / totalW))"

subsection \<open>The denoiser run in closed form\<close>

definition filterImage :: "filterPass \<Rightarrow> vec3 list" where
  \<comment> \<open>one level over the whole image\<close>
  "filterImage f =
     map (\<lambda>i. weightedAverage f (i mod passWidth f, i div passWidth f))
       [0..<passWidth f * passHeight f]"

fun filterLevels :: "nat \<Rightarrow> filterPass \<Rightarrow> vec3 list" where
  \<comment> \<open>so many levels, each reading the output of the one before at twice the step size\<close>
  "filterLevels 0 f = passColor f"
| "filterLevels (Suc n) f =
     filterLevels n (f\<lparr>passColor := filterImage f, passStep := passStep f * 2\<rparr>)"

definition meanImage :: "vec3 list \<Rightarrow> int \<Rightarrow> vec3 list" where
  \<comment> \<open>\<open>sum / iter\<close> at every pixel\<close>
  "meanImage accum iter =
     map (\<lambda>v. Vec3 (vx v / real_of_int iter) (vy v / real_of_int iter) (vz v / real_of_int iter))
       accum"

definition denoisedImage ::
  "vec3 list \<Rightarrow> real list \<Rightarrow> devState \<Rightarrow> int \<Rightarrow> real \<Rightarrow> int \<Rightarrow> real \<Rightarrow> real \<Rightarrow> real \<Rightarrow> vec3 list" where
  \<comment> \<open>the filtered image of the running sum \<open>accum\<close> and the running sum of squares \<open>accumSqr\<close>,
      guided by the normal and the position buffer of the state\<close>
  "denoisedImage accum accumSqr s levels radius iter cw nw pw =
     filterLevels (nat levels)
       (passOf (meanImage accum iter)
          (vecMem s (dev_normalBuffer s)) (vecMem s (dev_positionBuffer s))
          (map (\<lambda>i. storedEstimate (accum ! i) (accumSqr ! i) iter)
             [0..<fst (resolution s) * snd (resolution s)])
          (fst (resolution s)) (snd (resolution s))
          (0.5 * radius / (2 powr real_of_int levels)) cw nw pw)"

definition denoiserBuffersOK :: "devState \<Rightarrow> bool" where
  \<comment> \<open>as \<^verbatim>\<open>pathtraceInit\<close> allocates them: every buffer has its own array of one entry per pixel\<close>
  "denoiserBuffersOK s =
     (let n = fst (resolution s) * snd (resolution s) in
      distinct [dev_directIllum s, dev_indirectIllum s, dev_normalBuffer s, dev_positionBuffer s,
                dev_filteredDirectSpecular s, dev_filteredIndirectDiffuse s, dev_filteredTemp s]
      \<and> distinct [dev_directIllumSqr s, dev_indirectIllumSqr s, dev_stddevBuffer s]
      \<and> length (vecMem s (dev_directIllum s)) = n
      \<and> length (vecMem s (dev_indirectIllum s)) = n
      \<and> length (vecMem s (dev_normalBuffer s)) = n
      \<and> length (vecMem s (dev_positionBuffer s)) = n
      \<and> length (vecMem s (dev_filteredDirectSpecular s)) = n
      \<and> length (vecMem s (dev_filteredIndirectDiffuse s)) = n
      \<and> length (vecMem s (dev_filteredTemp s)) = n
      \<and> length (floatMem s (dev_directIllumSqr s)) = n
      \<and> length (floatMem s (dev_indirectIllumSqr s)) = n
      \<and> length (floatMem s (dev_stddevBuffer s)) = n)"

definition otherVar :: "resultVar \<Rightarrow> resultVar" where
  "otherVar r =
     (case r of
        addr_filteredIndirectDiffuse \<Rightarrow> addr_filteredDirectSpecular
      | addr_filteredDirectSpecular \<Rightarrow> addr_filteredIndirectDiffuse)"

definition denoiserFrame :: "resultVar \<Rightarrow> devState \<Rightarrow> devState \<Rightarrow> bool" where
  \<comment> \<open>what a run with the result variable \<open>r\<close> leaves as it was: every pointer but \<open>r\<close>'s and
      \<^verbatim>\<open>dev_filteredTemp\<close>, which may have changed places, and every array but theirs and the
      one of \<^verbatim>\<open>dev_stddevBuffer\<close>\<close>
  "denoiserFrame r s s' =
     (resolution s' = resolution s
      \<and> dev_directIllum s' = dev_directIllum s
      \<and> dev_indirectIllum s' = dev_indirectIllum s
      \<and> dev_directIllumSqr s' = dev_directIllumSqr s
      \<and> dev_indirectIllumSqr s' = dev_indirectIllumSqr s
      \<and> dev_normalBuffer s' = dev_normalBuffer s
      \<and> dev_positionBuffer s' = dev_positionBuffer s
      \<and> dev_stddevBuffer s' = dev_stddevBuffer s
      \<and> deref (otherVar r) s' = deref (otherVar r) s
      \<and> {deref r s', dev_filteredTemp s'} = {deref r s, dev_filteredTemp s}
      \<and> (\<forall>a. a \<noteq> deref r s \<longrightarrow> a \<noteq> dev_filteredTemp s \<longrightarrow> vecMem s' a = vecMem s a)
      \<and> (\<forall>a. a \<noteq> dev_stddevBuffer s \<longrightarrow> floatMem s' a = floatMem s a))"

subsection \<open>One iteration of the path tracer in closed form\<close>

definition intersectPath :: "externals \<Rightarrow> PathSegment \<Rightarrow> PathSegment \<times> ShadeableIntersection" where
  \<comment> \<open>what \<^verbatim>\<open>computeIntersections\<close> leaves in the slot of a path and in its cleared
      intersection slot\<close>
  "intersectPath ext p =
     (let (hitGeomIndex, t_min, normToken) = traverseAABBTree ext (ray p) (lastGeom p)
      in (p\<lparr>lastGeom := hitGeomIndex\<rparr>,
          if hitGeomIndex = - 1 then zeroIntersection\<lparr>isect_t := - 1, materialId := - 1\<rparr>
          else
            let (geomNorm, shadeNorm) = computeNormals ext (geoms ext hitGeomIndex) normToken
            in zeroIntersection\<lparr>geometricNormal := geomNorm, shadingNormal := shadeNorm,
                                 isect_t := t_min,
                                 materialId := materialid (geoms ext hitGeomIndex)\<rparr>))"

definition gatherSums :: "accum \<Rightarrow> PathSegment list \<Rightarrow> accum" where
  \<comment> \<open>every sum, with the contributions of the slots that name its pixel added\<close>
  "gatherSums st ps =
     (case st of (direct, directSqr, indirect, indirectSqr) \<Rightarrow>
        (map (\<lambda>i. direct ! i + sum_list (map directAccum (filter (\<lambda>p. pixelIndex p = i) ps)))
           [0..<length direct],
         map (\<lambda>i. directSqr ! i
                   + sum_list (map (\<lambda>p. length2 (directAccum p)) (filter (\<lambda>p. pixelIndex p = i) ps)))
           [0..<length directSqr],
         map (\<lambda>i. indirect ! i + sum_list (map indirectAccum (filter (\<lambda>p. pixelIndex p = i) ps)))
           [0..<length indirect],
         map (\<lambda>i. indirectSqr ! i
                   + sum_list (map (\<lambda>p. length2 (indirectAccum p)) (filter (\<lambda>p. pixelIndex p = i) ps)))
           [0..<length indirectSqr]))"

definition pathBuffersOK :: "devState \<Rightarrow> bool" where
  \<comment> \<open>as \<^verbatim>\<open>pathtraceInit\<close> allocates them: one slot per pixel\<close>
  "pathBuffersOK s =
     (let n = fst (resolution s) * snd (resolution s) in
      length (dev_paths s) = n
      \<and> length (dev_intersections s) = n
      \<and> length (dev_materialSortBuffer s) = n
      \<and> length (dev_materialSortBuffer2 s) = n)"

definition samplesOK :: "config \<Rightarrow> int \<Rightarrow> int \<Rightarrow> bool" where
  \<comment> \<open>a pool that is not empty, of a size that is an \<^verbatim>\<open>int\<close>, and for splatting an iteration
      counter that is a non-negative \<^verbatim>\<open>int\<close>\<close>
  "samplesOK cfg iter n =
     (0 < n \<and> n < 2 ^ 31 \<and> (if stratifiedSplat cfg then 0 \<le> iter \<and> iter < 2 ^ 31 else True))"

definition accumOf :: "devState \<Rightarrow> accum" where
  \<comment> \<open>the four arrays of running sums\<close>
  "accumOf s =
     (vecMem s (dev_directIllum s), floatMem s (dev_directIllumSqr s),
      vecMem s (dev_indirectIllum s), floatMem s (dev_indirectIllumSqr s))"

subsection \<open>A scene for the examples\<close>

definition exampleHash :: "32 word \<Rightarrow> 32 word" where
  \<comment> \<open>a hash with the value \<open>2\<^sup>3\<^sup>2 - 1\<close> at pixel 0\<close>
  "exampleHash p = (if p = 0 then 4294967295 else 0)"

definition exampleExternals :: "int \<Rightarrow> (32 word \<Rightarrow> 32 word) \<Rightarrow> externals" where
  \<comment> \<open>a scene for the examples: every ray hits the geometry \<open>hit\<close> (none when it is -1),
      and scattering takes one bounce from the path\<close>
  "exampleExternals hit h =
     \<lparr>utilhash = h,
      geoms = (\<lambda>_. \<lparr>gtype = TRIANGLE, materialid = 0\<rparr>),
      materials = (\<lambda>_. \<lparr>mtype = otherMaterialType 0\<rparr>),
      samplePool = (\<lambda>_ _. \<lparr>out = (0, 0), mis1 = (0, 0), mis2 = (0, 0)\<rparr>),
      camSamplePool = (\<lambda>_. \<lparr>pixel = (0, 0), dof = (0, 0)\<rparr>),
      uniformDraw = (\<lambda>_ _ _ _. 0),
      traverseAABBTree = (\<lambda>_ _. (hit, 1, vec3s 0)),
      computeNormals = (\<lambda>_ _. (vec3s 0, vec3s 0)),
      multipleImportanceSampling = (\<lambda>path _ _ _ _ _ _ _ _ _. path),
      scatterRay = (\<lambda>path _ _ _ _ _ _ _ _.
                     (path\<lparr>remainingBounces := remainingBounces path - 1\<rparr>, False)),
      primaryRay = (\<lambda>_ _ _ _ _. \<lparr>origin = vec3s 0, direction = Vec3 0 0 1\<rparr>)\<rparr>"

definition examplePath :: PathSegment where
  "examplePath =
     \<lparr>ray = \<lparr>origin = vec3s 0, direction = Vec3 0 0 1\<rparr>,
      colorThroughput = vec3s 1, directAccum = vec3s 0, indirectAccum = vec3s 0,
      pixelIndex = 0, lastGeom = - 1, remainingBounces = 2,
      prevBounceNoMis = True, prevBounceSpecular = True, indirectIllum = False\<rparr>"

definition exampleState :: devState where
  \<comment> \<open>8 by 8 pixels, trace depth 2, four stratified samples, every buffer zero\<close>
  "exampleState =
     \<lparr>resolution = (8, 8), traceDepth = 2, numStratifiedSamples = 4,
      vecMem = (\<lambda>_. replicate 64 (vec3s 0)), floatMem = (\<lambda>_. replicate 64 0),
      dev_directIllum = 0, dev_indirectIllum = 1,
      dev_directIllumSqr = 0, dev_indirectIllumSqr = 1,
      dev_normalBuffer = 2, dev_positionBuffer = 3,
      dev_filteredDirectSpecular = 4, dev_filteredIndirectDiffuse = 5, dev_filteredTemp = 6,
      dev_stddevBuffer = 2,
      dev_paths = replicate 64 examplePath,
      dev_intersections = replicate 64 zeroIntersection,
      dev_materialSortBuffer = replicate 64 0,
      dev_materialSortBuffer2 = replicate 64 0,
      firstBounceCached = False,
      dev_firstBounceIntersections = []\<rparr>"

definition smallState :: devState where
  \<comment> \<open>one pixel, trace depth 2, four stratified samples, every buffer zero\<close>
  "smallState =
     \<lparr>resolution = (1, 1), traceDepth = 2, numStratifiedSamples = 4,
      vecMem = (\<lambda>_. [vec3s 0]), floatMem = (\<lambda>_. [0]),
      dev_directIllum = 0, dev_indirectIllum = 1,
      dev_directIllumSqr = 0, dev_indirectIllumSqr = 1,
      dev_normalBuffer = 2, dev_positionBuffer = 3,
      dev_filteredDirectSpecular = 4, dev_filteredIndirectDiffuse = 5, dev_filteredTemp = 6,
      dev_stddevBuffer = 2,
      dev_paths = [examplePath],
      dev_intersections = [zeroIntersection],
      dev_materialSortBuffer = [0],
      dev_materialSortBuffer2 = [0],
      firstBounceCached = False,
      dev_firstBounceIntersections = []\<rparr>"

section \<open>Properties\<close>

subsection \<open>Loops and launches\<close>

lemma forEach_append:
  "forEach k (xs @ ys) s = (case forEach k xs s of Inl e \<Rightarrow> Inl e | Inr s' \<Rightarrow> forEach k ys s')"
  by (induction xs arbitrary: s) (auto split: sum.splits)

lemma forEach_slots:
  assumes skip: "\<And>t b. t \<in> set ts \<Longrightarrow> skip t \<Longrightarrow> k t b = Inr b"
    and act: "\<And>t b v. t \<in> set ts \<Longrightarrow> \<not> skip t \<Longrightarrow> idx t < length b
                \<Longrightarrow> val t (b ! idx t) = Inr v \<Longrightarrow> k t b = Inr (b[idx t := v])"
    and dist: "distinct (map idx (filter (\<lambda>t. \<not> skip t) ts))"
    and ok: "\<And>t. t \<in> set ts \<Longrightarrow> \<not> skip t \<Longrightarrow> idx t < length b \<and> val t (b ! idx t) = Inr (f t)"
  shows "\<exists>b'. forEach k ts b = Inr b' \<and> length b' = length b
           \<and> (\<forall>t\<in>set ts. \<not> skip t \<longrightarrow> b' ! idx t = f t)
           \<and> (\<forall>i. (\<forall>t\<in>set ts. \<not> skip t \<longrightarrow> idx t \<noteq> i) \<longrightarrow> b' ! i = b ! i)"
  using skip act dist ok
proof (induction ts arbitrary: b)
  case Nil
  then show ?case by simp
next
  case (Cons t ts)
  have skip': "\<And>u b. u \<in> set ts \<Longrightarrow> skip u \<Longrightarrow> k u b = Inr b"
    using Cons.prems(1) by simp
  have act': "\<And>u b v. u \<in> set ts \<Longrightarrow> \<not> skip u \<Longrightarrow> idx u < length b
                \<Longrightarrow> val u (b ! idx u) = Inr v \<Longrightarrow> k u b = Inr (b[idx u := v])"
    using Cons.prems(2) by simp
  show ?case
  proof (cases "skip t")
    case True
    have "\<exists>b'. forEach k ts b = Inr b' \<and> length b' = length b
           \<and> (\<forall>t\<in>set ts. \<not> skip t \<longrightarrow> b' ! idx t = f t)
           \<and> (\<forall>i. (\<forall>t\<in>set ts. \<not> skip t \<longrightarrow> idx t \<noteq> i) \<longrightarrow> b' ! i = b ! i)"
      using Cons.prems(3,4) True by (intro Cons.IH skip' act') auto
    moreover have "forEach k (t # ts) b = forEach k ts b"
      using Cons.prems(1)[of t b] True by simp
    ultimately show ?thesis using True by auto
  next
    case False
    let ?b1 = "b[idx t := f t]"
    have t_ok: "idx t < length b" "val t (b ! idx t) = Inr (f t)"
      using Cons.prems(4)[of t] False by auto
    have fresh: "\<And>u. u \<in> set ts \<Longrightarrow> \<not> skip u \<Longrightarrow> idx u \<noteq> idx t"
      using Cons.prems(3) False by (auto simp: image_iff)
    have "\<exists>b'. forEach k ts ?b1 = Inr b' \<and> length b' = length ?b1
           \<and> (\<forall>t\<in>set ts. \<not> skip t \<longrightarrow> b' ! idx t = f t)
           \<and> (\<forall>i. (\<forall>t\<in>set ts. \<not> skip t \<longrightarrow> idx t \<noteq> i) \<longrightarrow> b' ! i = ?b1 ! i)"
    proof (intro Cons.IH skip' act')
      show "distinct (map idx (filter (\<lambda>t. \<not> skip t) ts))"
        using Cons.prems(3) by (simp split: if_splits)
    next
      fix u assume u: "u \<in> set ts" "\<not> skip u"
      then have "idx u \<noteq> idx t" by (rule fresh)
      then show "idx u < length ?b1 \<and> val u (?b1 ! idx u) = Inr (f u)"
        using Cons.prems(4)[of u] u by simp
    qed
    then obtain b' where b': "forEach k ts ?b1 = Inr b'" "length b' = length b"
      "\<forall>u\<in>set ts. \<not> skip u \<longrightarrow> b' ! idx u = f u"
      "\<forall>i. (\<forall>u\<in>set ts. \<not> skip u \<longrightarrow> idx u \<noteq> i) \<longrightarrow> b' ! i = ?b1 ! i"
      by auto
    have step: "forEach k (t # ts) b = Inr b'"
      using Cons.prems(2)[of t b "f t"] False t_ok b'(1) by simp
    have at_t: "b' ! idx t = f t"
      using b'(4) fresh t_ok(1) by auto
    have frame: "\<forall>i. (\<forall>u\<in>set (t # ts). \<not> skip u \<longrightarrow> idx u \<noteq> i) \<longrightarrow> b' ! i = b ! i"
      using b'(4) False by auto
    show ?thesis
      using step b'(2) b'(3) at_t frame by auto
  qed
qed

lemma ceilDiv_covers: "0 < b \<Longrightarrow> n \<le> ceilDiv n b * b"
proof -
  assume b: "0 < b"
  have "n + b - 1 = (n + b - 1) div b * b + (n + b - 1) mod b" by simp
  moreover have "(n + b - 1) mod b \<le> b - 1" using b
    by (metis Suc_pred' less_Suc_eq_le mod_less_divisor)
  ultimately show ?thesis unfolding ceilDiv_def using b by linarith
qed

lemma pixel_index_inj:
  fixes w :: nat
  assumes "x < w" "x' < w" "y * w + x = y' * w + x'"
  shows "x = x' \<and> y = y'"
proof -
  have "(y * w + x) mod w = (y' * w + x') mod w" using assms(3) by simp
  then have x: "x = x'" using assms(1,2) by simp
  have "(y * w + x) div w = (y' * w + x') div w" using assms(3) by simp
  then have "y = y'" using assms(1,2) by simp
  then show ?thesis using x by simp
qed

lemma launch_pixels2D:
  assumes skip: "\<And>x y b. (x, y) \<in> set (grid2D nb bs) \<Longrightarrow> x \<ge> w \<or> y \<ge> h
                \<Longrightarrow> k (x, y) b = Inr b"
    and act: "\<And>x y b. x < w \<Longrightarrow> y < h \<Longrightarrow> y * w + x < length b
                \<Longrightarrow> k (x, y) b = Inr (b[y * w + x := f (x, y)])"
    and len: "length b = w * h"
    and cover: "w \<le> fst nb * fst bs" "h \<le> snd nb * snd bs"
  shows "launch k (grid2D nb bs) b = Inr (map (\<lambda>i. f (i mod w, i div w)) [0..<w * h])"
proof -
  let ?skip = "\<lambda>t. fst t \<ge> w \<or> snd t \<ge> h"
  let ?idx = "\<lambda>t. snd t * w + fst t"
  let ?ts = "grid2D nb bs"
  have d: "distinct (map ?idx (filter (\<lambda>t. \<not> ?skip t) ?ts))"
  proof (subst distinct_map, intro conjI)
    show "distinct (filter (\<lambda>t. \<not> ?skip t) ?ts)"
      by (simp add: grid2D_def distinct_product)
    show "inj_on ?idx (set (filter (\<lambda>t. \<not> ?skip t) ?ts))"
    proof (rule inj_onI)
      fix t u
      assume "t \<in> set (filter (\<lambda>t. \<not> ?skip t) ?ts)" "u \<in> set (filter (\<lambda>t. \<not> ?skip t) ?ts)"
        and "?idx t = ?idx u"
      then have "fst t = fst u \<and> snd t = snd u"
        by (intro pixel_index_inj[of _ w]) (auto simp: not_le)
      then show "t = u" by (simp add: prod_eq_iff)
    qed
  qed
  have in_range: "\<And>x y. x < w \<Longrightarrow> y < h \<Longrightarrow> y * w + x < w * h"
  proof -
    fix x y assume xy: "x < w" "y < h"
    have "y * w + x < y * w + w" using xy by simp
    also have "\<dots> = Suc y * w" by simp
    also have "\<dots> \<le> h * w" using xy by (intro mult_le_mono1) simp
    finally show "y * w + x < w * h" by (simp add: mult.commute)
  qed
  have "\<exists>b'. forEach k ?ts b = Inr b' \<and> length b' = length b
           \<and> (\<forall>t\<in>set ?ts. \<not> ?skip t \<longrightarrow> b' ! ?idx t = f t)
           \<and> (\<forall>i. (\<forall>t\<in>set ?ts. \<not> ?skip t \<longrightarrow> ?idx t \<noteq> i) \<longrightarrow> b' ! i = b ! i)"
  proof (rule forEach_slots[where val = "\<lambda>t _. Inr (f t)"])
    show "\<And>t b. t \<in> set ?ts \<Longrightarrow> ?skip t \<Longrightarrow> k t b = Inr b"
      using skip by (metis prod.collapse)
    show "\<And>t b v. t \<in> set ?ts \<Longrightarrow> \<not> ?skip t \<Longrightarrow> ?idx t < length b \<Longrightarrow> Inr (f t) = Inr v
            \<Longrightarrow> k t b = Inr (b[?idx t := v])"
      using act by (metis (no_types, lifting) Inr_inject not_le prod.collapse)
    show "distinct (map ?idx (filter (\<lambda>t. \<not> ?skip t) ?ts))" by (rule d)
    show "\<And>t. t \<in> set ?ts \<Longrightarrow> \<not> ?skip t \<Longrightarrow> ?idx t < length b \<and> Inr (f t) = Inr (f t)"
      using in_range len by (auto simp: not_le)
  qed
  then obtain b' where b': "forEach k ?ts b = Inr b'" "length b' = w * h"
      "\<forall>t\<in>set ?ts. \<not> ?skip t \<longrightarrow> b' ! ?idx t = f t"
    using len by auto
  have "b' = map (\<lambda>i. f (i mod w, i div w)) [0..<w * h]"
  proof (rule nth_equalityI)
    show "length b' = length (map (\<lambda>i. f (i mod w, i div w)) [0..<w * h])"
      using b'(2) by simp
  next
    fix i assume "i < length b'"
    then have i: "i < w * h" using b'(2) by simp
    then have w0: "0 < w" by (cases w) auto
    have m: "i mod w < w" using w0 by simp
    have dv: "i div w < h" using i w0 by (simp add: less_mult_imp_div_less mult.commute)
    have "(i mod w, i div w) \<in> set ?ts"
      using m dv cover by (auto simp: grid2D_def)
    then have "b' ! ?idx (i mod w, i div w) = f (i mod w, i div w)"
      using b'(3) m dv by (auto simp: not_le)
    then show "b' ! i = map (\<lambda>i. f (i mod w, i div w)) [0..<w * h] ! i"
      using i by simp
  qed
  then show ?thesis using b'(1) by simp
qed

subsection \<open>C1: the stored estimate\<close>

lemma varianceEstimate_gt1:
  "1 < iter \<Longrightarrow>
   varianceEstimate csum sumSqr iter = Some (sqrt (max 0 (unbiasedVariance csum sumSqr iter)))"
  by (simp add: varianceEstimate_def fdiv_def unbiasedVariance_def)

lemma varianceEstimate_le1: "iter \<le> 1 \<Longrightarrow> varianceEstimate csum sumSqr iter = Some 1"
  by (simp add: varianceEstimate_def)

lemma varianceEstimate_eq: "varianceEstimate csum sumSqr iter = Some (storedEstimate csum sumSqr iter)"
  by (simp add: storedEstimate_def varianceEstimate_gt1 varianceEstimate_le1)

lemma div_mod_index: "0 < (w::nat) \<Longrightarrow> i div w * w + i mod w = i"
  by simp

lemma aTrousComputeVariance_launch:
  assumes "length colorTotal = w * h" "length colorSqr = w * h" "length stddev = w * h"
  shows "launch (aTrousComputeVariance colorTotal colorSqr w h iter)
           (grid2D (ceilDiv w 16, ceilDiv h 16) (16, 16)) stddev
         = Inr (map (\<lambda>i. storedEstimate (colorTotal ! i) (colorSqr ! i) iter) [0..<w * h])"
proof -
  let ?f = "\<lambda>t. storedEstimate (colorTotal ! (snd t * w + fst t)) (colorSqr ! (snd t * w + fst t)) iter"
  have "launch (aTrousComputeVariance colorTotal colorSqr w h iter)
           (grid2D (ceilDiv w 16, ceilDiv h 16) (16, 16)) stddev
         = Inr (map (\<lambda>i. ?f (i mod w, i div w)) [0..<w * h])"
  proof (rule launch_pixels2D)
    show "\<And>x y b. w \<le> x \<or> h \<le> y \<Longrightarrow>
            aTrousComputeVariance colorTotal colorSqr w h iter (x, y) b = Inr b"
      by (auto simp: aTrousComputeVariance_def)
    show "\<And>x y b. x < w \<Longrightarrow> y < h \<Longrightarrow> y * w + x < length b \<Longrightarrow>
            aTrousComputeVariance colorTotal colorSqr w h iter (x, y) b
            = Inr (b[y * w + x := ?f (x, y)])"
    proof -
      fix x y and b :: "real list"
      assume xy: "x < w" "y < h" and b: "y * w + x < length b"
      have "y * w + x < y * w + w" using xy by simp
      also have "\<dots> = Suc y * w" by simp
      also have "\<dots> \<le> h * w" using xy by (intro mult_le_mono1) simp
      finally have "y * w + x < w * h" by (simp add: mult.commute)
      then show "aTrousComputeVariance colorTotal colorSqr w h iter (x, y) b
            = Inr (b[y * w + x := ?f (x, y)])"
        using xy b assms
        by (simp add: aTrousComputeVariance_def readAt_def writeAt_def varianceEstimate_eq Let_def)
    qed
    show "length stddev = w * h" by (rule assms)
    show "w \<le> fst (ceilDiv w 16, ceilDiv h 16) * fst (16::nat, 16::nat)"
      by (simp add: ceilDiv_covers)
    show "h \<le> snd (ceilDiv w 16, ceilDiv h 16) * snd (16::nat, 16::nat)"
      by (simp add: ceilDiv_covers)
  qed
  moreover have "map (\<lambda>i. ?f (i mod w, i div w)) [0..<w * h]
      = map (\<lambda>i. storedEstimate (colorTotal ! i) (colorSqr ! i) iter) [0..<w * h]"
    by (rule map_cong) (auto simp: div_mod_index)
  ultimately show ?thesis by simp
qed

text \<open>
  C1, amended. For every pixel, the variance pass stores the square root of the unbiased
  sample variance \<open>(sumSqr - |sum|\<^sup>2 / iter) / (iter - 1)\<close>, floored at zero, when
  \<open>iter > 1\<close>, and 1 otherwise: a standard deviation, not the variance.
\<close>

theorem C1_stored_estimate:
  assumes "length colorTotal = w * h" "length colorSqr = w * h" "length stddev = w * h"
    and "i < w * h"
  shows "\<exists>stddev'.
           launch (aTrousComputeVariance colorTotal colorSqr w h iter)
             (grid2D (ceilDiv w 16, ceilDiv h 16) (16, 16)) stddev = Inr stddev'
           \<and> length stddev' = w * h
           \<and> stddev' ! i =
               (if 1 < iter then sqrt (max 0 (unbiasedVariance (colorTotal ! i) (colorSqr ! i) iter))
                else 1)"
  using assms by (simp add: aTrousComputeVariance_launch storedEstimate_def)

theorem C1_stored_estimate_witness:
  "length [Vec3 2 2 0] = 1 * 1 \<and> length [8::real] = 1 * 1 \<and> length [0::real] = 1 * 1
   \<and> (0::nat) < 1 * 1
   \<and> (\<exists>stddev'.
         launch (aTrousComputeVariance [Vec3 2 2 0] [8] 1 1 2)
           (grid2D (ceilDiv 1 16, ceilDiv 1 16) (16, 16)) [0] = Inr stddev'
         \<and> length stddev' = 1 * 1
         \<and> stddev' ! 0 = 2)"
  using C1_stored_estimate[of "[Vec3 2 2 0]" 1 1 "[8]" "[0]" 0 2]
  by (simp add: unbiasedVariance_def length2_def)

text \<open>
  With the sums \<open>(2, 2, 0)\<close> and 8 of two iterations the unbiased variance is 4 and the
  kernel stores 2.
\<close>

theorem C1_variance_counterexample:
  "launch (aTrousComputeVariance [Vec3 2 2 0] [8] 1 1 2)
     (grid2D (ceilDiv 1 16, ceilDiv 1 16) (16, 16)) [0] = Inr [2]
   \<and> unbiasedVariance (Vec3 2 2 0) 8 2 = 4"
  using aTrousComputeVariance_launch[of "[Vec3 2 2 0]" 1 1 "[8]" "[0]" 2]
  by (simp add: storedEstimate_def unbiasedVariance_def length2_def)

subsection \<open>C3: the stratified sample index\<close>

lemma sint_eq_uint_small:
  fixes r :: "32 word"
  assumes "uint r < 2 ^ 31"
  shows "sint r = uint r"
proof -
  have "signed_take_bit 31 (uint r) = uint r"
    using assms by (intro signed_take_bit_int_eq_self) (simp_all add: order_trans[of _ 0])
  then show ?thesis by (simp add: sint_uint)
qed

lemma uint_eq_sint_nonneg:
  fixes r :: "32 word"
  assumes "0 \<le> sint r"
  shows "uint r = sint r"
proof -
  have "uint r < 2 ^ 31"
  proof (rule ccontr)
    assume "\<not> uint r < 2 ^ 31"
    then have "2 ^ 31 \<le> uint r" by simp
    moreover have "uint r < 2 ^ 32" using uint_bounded[of r] by simp
    ultimately have "(uint r + 2 ^ 31 - 2 ^ 32) mod 2 ^ 32 = uint r + 2 ^ 31 - 2 ^ 32"
      by (intro mod_pos_pos_trivial) simp_all
    then have "(uint r + 2 ^ 31) mod 2 ^ 32 = uint r + 2 ^ 31 - 2 ^ 32"
      using minus_mod_self2[of "uint r + 2 ^ 31" "2 ^ 32"] by simp
    then have "signed_take_bit 31 (uint r) = uint r - 2 ^ 32"
      by (simp add: signed_take_bit_eq_take_bit_shift take_bit_eq_mod)
    then have "sint r < 0" using \<open>uint r < 2 ^ 32\<close> by (simp add: sint_uint)
    then show False using assms by simp
  qed
  then show ?thesis by (simp add: sint_eq_uint_small)
qed

lemma splat_index:
  assumes "0 < sint n" "0 \<le> sint iter" "stratifiedSplat cfg"
  shows "\<exists>r. stratifiedSampleIndex cfg ext iter p n = Inr r \<and> sint r = sint iter mod sint n"
proof -
  have n0: "n \<noteq> 0" using assms(1) by auto
  have nm: "sint n \<noteq> - 1" using assms(1) by auto
  have sm: "sint iter smod sint n = sint iter mod sint n"
    using assms(1,2) by (simp add: signed_modulo_int_def sgn_if abs_if) 
  have lt: "sint iter mod sint n < sint n" using assms(1) by simp
  have "sint n \<le> 2 ^ 31 - 1" using sint_lt[of n] by simp
  then have "sint iter mod sint n < 2 ^ 31" using lt by linarith
  moreover have "0 \<le> sint iter mod sint n" using assms(1) by simp
  ultimately have "sint (word_of_int (sint iter mod sint n) :: 32 word) = sint iter mod sint n"
    by (simp add: sint_sbintrunc' signed_take_bit_int_eq_self order_trans[of _ 0])
  then show ?thesis
    using assms(3) n0 nm sm by (simp add: stratifiedSampleIndex_def)
qed

lemma full_index:
  assumes "0 < sint n" "\<not> stratifiedSplat cfg"
  shows "\<exists>r. stratifiedSampleIndex cfg ext iter p n = Inr r
           \<and> 0 \<le> sint r \<and> sint r < sint n
           \<and> sint r = ((uint iter + uint (utilhash ext p)) mod 2 ^ 32) mod sint n"
proof -
  have n0: "n \<noteq> 0" using assms(1) by auto
  have un: "uint n = sint n" using assms(1) by (simp add: uint_eq_sint_nonneg)
  let ?r = "(iter + utilhash ext p) mod n"
  have ur: "uint ?r = ((uint iter + uint (utilhash ext p)) mod 2 ^ 32) mod sint n"
    by (simp add: uint_mod_distrib uint_word_ariths un)
  have "uint ?r < sint n" using ur assms(1) by simp
  moreover have "sint n \<le> 2 ^ 31 - 1" using sint_lt[of n] by simp
  ultimately have "uint ?r < 2 ^ 31" by linarith
  then have "sint ?r = uint ?r" by (rule sint_eq_uint_small)
  then show ?thesis
    using assms n0 ur \<open>uint ?r < sint n\<close> by (simp add: stratifiedSampleIndex_def)
qed

text \<open>
  C3, amended. For a pool of \<open>N > 0\<close> samples and an iteration counter \<open>iter \<ge> 0\<close> the
  index is \<open>iter mod N\<close> under the splatting policy. Under the full-stratified policy it
  is \<open>((iter + hash p) mod 2\<^sup>3\<^sup>2) mod N\<close>, the sum being one of \<^verbatim>\<open>unsigned int\<close>; this is
  \<open>(iter + hash p) mod N\<close> when the sum stays below \<open>2\<^sup>3\<^sup>2\<close>, and the indices of two pixels
  whose sums both stay below \<open>2\<^sup>3\<^sup>2\<close> differ by the phase \<open>(hash pA - hash pB) mod N\<close>.
\<close>

theorem C3_stratified_index:
  assumes "0 < sint n" "0 \<le> sint iter"
  shows "if stratifiedSplat cfg then
           (\<exists>r. stratifiedSampleIndex cfg ext iter pA n = Inr r \<and> sint r = sint iter mod sint n)
         else
           (\<exists>a b. stratifiedSampleIndex cfg ext iter pA n = Inr a
              \<and> stratifiedSampleIndex cfg ext iter pB n = Inr b
              \<and> sint a = ((sint iter + uint (utilhash ext pA)) mod 2 ^ 32) mod sint n
              \<and> (sint iter + uint (utilhash ext pA) < 2 ^ 32 \<longrightarrow>
                   sint a = (sint iter + uint (utilhash ext pA)) mod sint n)
              \<and> (sint iter + uint (utilhash ext pA) < 2 ^ 32
                  \<and> sint iter + uint (utilhash ext pB) < 2 ^ 32 \<longrightarrow>
                   (sint a - sint b) mod sint n
                   = (uint (utilhash ext pA) - uint (utilhash ext pB)) mod sint n))"
proof (cases "stratifiedSplat cfg")
  case True
  then show ?thesis using splat_index[OF assms True] by simp
next
  case False
  have ui: "uint iter = sint iter" using assms(2) by (rule uint_eq_sint_nonneg)
  obtain a where a: "stratifiedSampleIndex cfg ext iter pA n = Inr a"
      "sint a = ((sint iter + uint (utilhash ext pA)) mod 2 ^ 32) mod sint n"
    using full_index[OF assms(1) False, of ext iter pA] ui by auto
  obtain b where b: "stratifiedSampleIndex cfg ext iter pB n = Inr b"
      "sint b = ((sint iter + uint (utilhash ext pB)) mod 2 ^ 32) mod sint n"
    using full_index[OF assms(1) False, of ext iter pB] ui by auto
  have nonneg: "\<And>p. 0 \<le> sint iter + uint (utilhash ext p)" using assms(2) by simp
  have nowrap: "\<And>p. sint iter + uint (utilhash ext p) < 2 ^ 32 \<Longrightarrow>
      (sint iter + uint (utilhash ext p)) mod 2 ^ 32 = sint iter + uint (utilhash ext p)"
    using nonneg by (intro mod_pos_pos_trivial) simp_all
  have phase: "((sint iter + uint (utilhash ext pA)) mod sint n
                 - (sint iter + uint (utilhash ext pB)) mod sint n) mod sint n
               = (uint (utilhash ext pA) - uint (utilhash ext pB)) mod sint n"
    by (simp add: mod_diff_eq)
  show ?thesis
    using False a b nowrap phase by auto
qed

theorem C3_stratified_index_witness:
  "(0::int) < sint (3 :: 32 word) \<and> (0::int) \<le> sint (1 :: 32 word)
   \<and> (\<exists>r. stratifiedSampleIndex (compiledConfig\<lparr>stratifiedSplat := True\<rparr>)
              (exampleExternals (- 1) exampleHash) 7 0 3 = Inr r \<and> sint r = 1)
   \<and> (\<exists>a b. stratifiedSampleIndex compiledConfig (exampleExternals (- 1) exampleHash) 1 1 3 = Inr a
         \<and> stratifiedSampleIndex compiledConfig (exampleExternals (- 1) exampleHash) 1 2 3 = Inr b
         \<and> sint a = 1 \<and> (sint a - sint b) mod 3 = 0)"
  using C3_stratified_index[of 3 7 "compiledConfig\<lparr>stratifiedSplat := True\<rparr>"
          "exampleExternals (- 1) exampleHash" 0 0]
        C3_stratified_index[of 3 1 compiledConfig "exampleExternals (- 1) exampleHash" 1 2]
  by (simp add: compiledConfig_def exampleExternals_def exampleHash_def)

text \<open>
  At iteration 1 with \<open>hash pA = 2\<^sup>3\<^sup>2 - 1\<close>, \<open>hash pB = 0\<close> and \<open>N = 3\<close> the sum for \<open>pA\<close>
  wraps to 0: the indices are 0 and 1, while \<open>(iter + hash pA) mod N\<close> is 1, and they differ
  by 2 modulo 3 while the phase \<open>(hash pA - hash pB) mod N\<close> is 0.
\<close>

theorem C3_wrap_counterexample:
  "stratifiedSampleIndex compiledConfig (exampleExternals (- 1) exampleHash) 1 0 3 = Inr 0
   \<and> (1 + uint (utilhash (exampleExternals (- 1) exampleHash) 0)) mod 3 = 1
   \<and> stratifiedSampleIndex compiledConfig (exampleExternals (- 1) exampleHash) 1 1 3 = Inr 1
   \<and> (sint (0 :: 32 word) - sint (1 :: 32 word)) mod 3 = 2
   \<and> (uint (utilhash (exampleExternals (- 1) exampleHash) 0)
        - uint (utilhash (exampleExternals (- 1) exampleHash) 1)) mod 3 = 0"
  by (simp add: stratifiedSampleIndex_def compiledConfig_def exampleExternals_def exampleHash_def)

subsection \<open>C9: the guard of the camera-ray kernel\<close>

lemma generateRayFromCamera_guard:
  "generateRayFromCamera cfg ext res iter depthLimit numSamples (x, y) pathSegments = Inr pathSegments'
   \<Longrightarrow> pathSegments' \<noteq> pathSegments \<Longrightarrow> x < fst res \<or> y < snd res"
  by (auto simp: generateRayFromCamera_def split: if_splits)

text \<open>
  C9 at resolution 1 by 1, one path slot: the thread \<open>(1, 0)\<close> of the 8 by 8 block passes
  the guard, as only its x is out of range, and writes slot 1 of an array of one slot.
  So does the launch of \<^verbatim>\<open>pathtrace\<close>.
\<close>

theorem C9_guard_failing_input:
  "generateRayFromCamera compiledConfig (exampleExternals (- 1) exampleHash) (1, 1) 1 2 4 (1, 0)
     [examplePath] = Inl OutOfBounds
   \<and> launch (generateRayFromCamera compiledConfig (exampleExternals (- 1) exampleHash) (1, 1) 1 2 4)
       (grid2D (ceilDiv 1 8, ceilDiv 1 8) (8, 8)) [examplePath] = Inl OutOfBounds"
  by (simp add: generateRayFromCamera_def poolSlot_def stratifiedSampleIndex_def compiledConfig_def
      exampleExternals_def exampleHash_def writeAt_def grid2D_def ceilDiv_def upt_rec)

subsection \<open>C10: the display transform of the variance types\<close>

lemma texelVariance_defined:
  assumes "index < length sqs" "iter \<noteq> 0" "iter \<noteq> 1"
  shows "texelVariance pix1 (floatArray sqs) index iter =
           (if unbiasedVariance pix1 (sqs ! index) iter < 0 then Inl NonFinite
            else Inr (Vec3 (unbiasedVariance pix1 (sqs ! index) iter powr 0.3) 0 0))"
  using assms
  by (simp add: texelVariance_def asFloats_def readAt_def fdiv_def vpow_def fpow_def
      unbiasedVariance_def)

lemma texelVariance_undefined:
  assumes "iter = 0 \<or> iter = 1"
  shows "\<exists>e. texelVariance pix1 buf2 index iter = Inl e"
  using assms
  by (auto simp: texelVariance_def fdiv_def split: sum.splits)

lemma texelVariance_undefined_floats:
  assumes "index < length sqs" "iter = 0 \<or> iter = 1"
  shows "texelVariance pix1 (floatArray sqs) index iter = Inl NonFinite"
  using assms
  by (auto simp: texelVariance_def asFloats_def readAt_def fdiv_def)

text \<open>
  C10. For the two variance types and an iteration count \<open>iter \<ge> 0\<close>, the transform is
  \<open>(sumSqr - |sum|\<^sup>2 / iter) / (iter - 1)\<close> raised to 0.3 when \<open>iter > 1\<close> (both divisors are
  then not zero); at \<open>iter = 1\<close> it divides by zero and has no number as result, where the
  variance pass of the denoiser stores 1; so a result implies \<open>iter > 1\<close>.
\<close>

theorem C10_variance_texel:
  assumes "bufType = DirectSpecularIlluminationVariance
           \<or> bufType = IndirectDiffuseIlluminationVariance"
    and "index < length buf1" "index < length sqs" "0 \<le> iter"
  shows "(1 < iter \<longrightarrow>
            processTexel buf1 (floatArray sqs) index bufType iter =
              (if unbiasedVariance (buf1 ! index) (sqs ! index) iter < 0 then Inl NonFinite
               else Inr (Vec3 (unbiasedVariance (buf1 ! index) (sqs ! index) iter powr 0.3) 0 0)))
       \<and> (iter = 1 \<longrightarrow>
            processTexel buf1 (floatArray sqs) index bufType iter = Inl NonFinite
            \<and> varianceEstimate (buf1 ! index) (sqs ! index) iter = Some 1)
       \<and> (\<forall>r. processTexel buf1 (floatArray sqs) index bufType iter = Inr r \<longrightarrow> 1 < iter)"
proof -
  have pt: "processTexel buf1 (floatArray sqs) index bufType iter
            = texelVariance (buf1 ! index) (floatArray sqs) index iter"
    using assms(1,2) by (auto simp: processTexel_def readAt_def)
  have a: "1 < iter \<longrightarrow>
            processTexel buf1 (floatArray sqs) index bufType iter =
              (if unbiasedVariance (buf1 ! index) (sqs ! index) iter < 0 then Inl NonFinite
               else Inr (Vec3 (unbiasedVariance (buf1 ! index) (sqs ! index) iter powr 0.3) 0 0))"
    using assms(3) by (simp add: pt texelVariance_defined)
  have b: "iter = 1 \<longrightarrow>
            processTexel buf1 (floatArray sqs) index bufType iter = Inl NonFinite
            \<and> varianceEstimate (buf1 ! index) (sqs ! index) iter = Some 1"
    using assms(3) pt texelVariance_undefined_floats[of index sqs iter "buf1 ! index"]
    by (auto simp: varianceEstimate_le1)
  have c: "\<forall>r. processTexel buf1 (floatArray sqs) index bufType iter = Inr r \<longrightarrow> 1 < iter"
  proof (intro allI impI)
    fix r assume r: "processTexel buf1 (floatArray sqs) index bufType iter = Inr r"
    have "\<not> (iter = 0 \<or> iter = 1)"
      using r assms(3) texelVariance_undefined_floats[of index sqs iter "buf1 ! index"]
      by (auto simp: pt)
    then show "1 < iter" using assms(4) by auto
  qed
  show ?thesis using a b c by blast
qed

theorem C10_variance_texel_witness:
  "(DirectSpecularIlluminationVariance = DirectSpecularIlluminationVariance
      \<or> DirectSpecularIlluminationVariance = IndirectDiffuseIlluminationVariance)
   \<and> (0::nat) < length [Vec3 2 2 0] \<and> (0::nat) < length [8::real] \<and> (0::int) \<le> 2
   \<and> processTexel [Vec3 2 2 0] (floatArray [8]) 0 DirectSpecularIlluminationVariance 2
       = Inr (Vec3 (4 powr 0.3) 0 0)
   \<and> processTexel [Vec3 2 2 0] (floatArray [8]) 0 DirectSpecularIlluminationVariance 1
       = Inl NonFinite"
  using C10_variance_texel[of DirectSpecularIlluminationVariance 0 "[Vec3 2 2 0]" "[8]" 2]
        C10_variance_texel[of DirectSpecularIlluminationVariance 0 "[Vec3 2 2 0]" "[8]" 1]
  by (simp add: unbiasedVariance_def length2_def)

subsection \<open>C8: identifiers outside the closed set\<close>

lemma aTrous_abort:
  "buf \<noteq> DirectSpecularIllumination \<Longrightarrow> buf \<noteq> IndirectDiffuseIllumination \<Longrightarrow>
   aTrous buf levels radius iter colorWeight normalWeight positionWeight s = Inl ProcessAbort"
  by (simp add: aTrous_def)

text \<open>
  C8, amended. For every buffer identifier but the two illumination categories, the
  denoiser run ends the process by \<^verbatim>\<open>std::abort()\<close> before it reads or writes a buffer,
  and no function of the file has an error result. For an identifier that is no
  enumerator, buffer selection returns with the second buffer null and the first as the
  caller had it.
\<close>

theorem C8_unlisted_identifier:
  "(buf \<noteq> DirectSpecularIllumination \<longrightarrow> buf \<noteq> IndirectDiffuseIllumination \<longrightarrow>
      aTrous buf levels radius iter colorWeight normalWeight positionWeight s = Inl ProcessAbort)
   \<and> getBuffers (unlistedBufferType k) s buf1 = (buf1, nullptr)"
  by (simp add: aTrous_abort getBuffers_def)

theorem C8_unlisted_identifier_witness:
  "FullIllumination \<noteq> DirectSpecularIllumination \<and> FullIllumination \<noteq> IndirectDiffuseIllumination
   \<and> aTrous FullIllumination 1 1 1 1 1 1 exampleState = Inl ProcessAbort
   \<and> getBuffers (unlistedBufferType 0) exampleState None = (None, nullptr)"
  using C8_unlisted_identifier[of FullIllumination 1 1 1 1 1 1 exampleState 0 None]
  by simp

text \<open>
  For an identifier that is no enumerator the denoiser run aborts the process, and the
  display transform ends without a return value: neither is an error result.
\<close>

theorem C8_abort_counterexample:
  "aTrous (unlistedBufferType 0) 1 1 1 1 1 1 exampleState = Inl ProcessAbort
   \<and> processTexel [vec3s 0] nullArray 0 (unlistedBufferType 0) 1 = Inl NoReturnValue"
  by (simp add: aTrous_def processTexel_def readAt_def)

subsection \<open>One thread of the filter pass\<close>

lemma texelFetch_clamped:
  assumes "length tex = w * h" "0 < w" "0 < h"
  shows "texelFetch tex (int w) (int h) x y = Inr (clampedTexel tex w h x y)"
proof -
  let ?cx = "min (max x 0) (int w - 1)" and ?cy = "min (max y 0) (int h - 1)"
  have cx: "0 \<le> ?cx" "?cx \<le> int w - 1" using assms(2) by auto
  have cy: "0 \<le> ?cy" "?cy \<le> int h - 1" using assms(3) by auto
  have "?cy * int w + ?cx \<le> (int h - 1) * int w + (int w - 1)"
    using cx cy by (intro add_mono mult_right_mono) auto
  also have "\<dots> < int w * int h" by (simp add: algebra_simps)
  finally have hi: "?cy * int w + ?cx < int (length tex)" using assms(1) by simp
  have lo: "0 \<le> ?cy * int w + ?cx" using cx cy by simp
  have "nat (?cy * int w + ?cx) = nat ?cy * w + nat ?cx"
    using cx cy by (simp add: nat_add_distrib nat_mult_distrib)
  then show ?thesis
    using lo hi by (simp add: texelFetch_def clampedTexel_def Let_def)
qed

lemma textureSampleBilinear_tap:
  assumes "length tex = w * h" "0 < w" "0 < h"
  shows "textureSampleBilinear tex (int w) (int h) px py = Inr (bilinearTap tex w h (px, py))"
  using assms
  by (simp add: textureSampleBilinear_def bilinearTap_def texelFetch_clamped Let_def)

lemma aTrousWeights_binomial: "aTrousWeights ! k = binomialWeight k"
  by (simp add: aTrousWeights_def binomialWeight_def)

lemma aTrousOffsets_nth: "k < 5 \<Longrightarrow> aTrousOffsets s ! k = (real k - 2) * s"
proof -
  assume "k < 5"
  then consider "k = 0" | "k = 1" | "k = 2" | "k = 3" | "k = 4" by linarith
  then show ?thesis by cases (simp_all add: aTrousOffsets_def)
qed

lemma binomialWeight_pos: "k < 5 \<Longrightarrow> 0 < binomialWeight k"
proof -
  assume "k < 5"
  then consider "k = 0" | "k = 1" | "k = 2" | "k = 3" | "k = 4" by linarith
  then show ?thesis by cases (simp_all add: binomialWeight_def)
qed

lemma binomialWeight_center: "binomialWeight 2 = 0.375"
  by (simp add: binomialWeight_def)

lemma tapWeight_pos:
  assumes "fst t < 5" "snd t < 5"
  shows "0 < tapWeight f p t"
  using assms by (simp add: tapWeight_def binomialWeight_pos)

lemma aTrousTap_step:
  assumes len: "length color = w * h" "length normal = w * h" "length position = w * h"
    and p: "ix < w" "iy < h"
    and t: "x < 5" "y < 5"
    and nz: "cw * cw * stddev ! (iy * w + ix) + 0.01 \<noteq> 0" "nw \<noteq> 0" "stepSize \<noteq> 0" "pw \<noteq> 0"
  defines "f \<equiv> passOf color normal position stddev w h stepSize cw nw pw"
  defines "c \<equiv> \<lparr>centerColor = color ! (iy * w + ix), centerNormal = normal ! (iy * w + ix),
                 centerPosition = position ! (iy * w + ix), centerStddev = stddev ! (iy * w + ix),
                 centerX = real ix + 0.5, centerY = real iy + 0.5\<rparr>"
  shows "aTrousTap color normal position w h stepSize (cw * cw) (nw * nw) (pw * pw) c (x, y) (tw, tc)
         = Inr (tw + tapWeight f (ix, iy) (x, y),
                vadd tc (smul (tapWeight f (ix, iy) (x, y)) (tapColor f (ix, iy) (x, y))))"
proof (cases "x = 2 \<and> y = 2")
  case True
  then show ?thesis
    by (simp add: aTrousTap_def c_def f_def passOf_def tapWeight_def tapColor_def centerIndex_def
        aTrousWeights_binomial binomialWeight_center Let_def)
next
  case False
  have w0: "0 < w" "0 < h" using p by auto
  have pt: "(centerX c + aTrousOffsets stepSize ! x, centerY c + aTrousOffsets stepSize ! y)
            = tapPoint f (ix, iy) (x, y)"
    using t by (simp add: c_def f_def passOf_def tapPoint_def aTrousOffsets_nth)
  have d1: "cw * cw * centerStddev c + 0.01 \<noteq> 0" using nz(1) by (simp add: c_def)
  have d2: "nw * nw * stepSize * stepSize \<noteq> 0" using nz(2,3) by simp
  have d3: "pw * pw \<noteq> 0" using nz(4) by simp
  have bc: "textureSampleBilinear color (int w) (int h)
              (centerX c + aTrousOffsets stepSize ! x) (centerY c + aTrousOffsets stepSize ! y)
            = Inr (bilinearTap color w h (tapPoint f (ix, iy) (x, y)))"
    using textureSampleBilinear_tap[OF len(1) w0] pt by simp
  have bn: "textureSampleBilinear normal (int w) (int h)
              (centerX c + aTrousOffsets stepSize ! x) (centerY c + aTrousOffsets stepSize ! y)
            = Inr (bilinearTap normal w h (tapPoint f (ix, iy) (x, y)))"
    using textureSampleBilinear_tap[OF len(2) w0] pt by simp
  have bp: "textureSampleBilinear position (int w) (int h)
              (centerX c + aTrousOffsets stepSize ! x) (centerY c + aTrousOffsets stepSize ! y)
            = Inr (bilinearTap position w h (tapPoint f (ix, iy) (x, y)))"
    using textureSampleBilinear_tap[OF len(3) w0] pt by simp
  have ct: "length2 (vsub (bilinearTap color w h (tapPoint f (ix, iy) (x, y))) (centerColor c))
              / (cw * cw * centerStddev c + 0.01) = colorTerm f (ix, iy) (x, y)"
    by (simp add: colorTerm_def f_def c_def passOf_def centerIndex_def tapPoint_def power2_eq_square)
  have nt: "length2 (vsub (bilinearTap normal w h (tapPoint f (ix, iy) (x, y))) (centerNormal c))
              / (nw * nw * stepSize * stepSize) = normalTerm f (ix, iy) (x, y)"
    by (simp add: normalTerm_def f_def c_def passOf_def centerIndex_def tapPoint_def
        power2_eq_square mult.assoc)
  have ptm: "length2 (vsub (bilinearTap position w h (tapPoint f (ix, iy) (x, y))) (centerPosition c))
              / (pw * pw) = positionTerm f (ix, iy) (x, y)"
    by (simp add: positionTerm_def f_def c_def passOf_def centerIndex_def tapPoint_def
        power2_eq_square)
  have tw: "tapWeight f (ix, iy) (x, y)
            = aTrousWeights ! x * aTrousWeights ! y
              * exp (- (colorTerm f (ix, iy) (x, y) + normalTerm f (ix, iy) (x, y)
                        + positionTerm f (ix, iy) (x, y)))"
    using False by (auto simp: tapWeight_def aTrousWeights_binomial)
  have tcl: "tapColor f (ix, iy) (x, y) = bilinearTap color w h (tapPoint f (ix, iy) (x, y))"
    using False by (auto simp: tapColor_def f_def passOf_def)
  have nf: "(x = 2 \<and> y = 2) = False" using False by simp
  have raw: "aTrousTap color normal position w h stepSize (cw * cw) (nw * nw) (pw * pw) c (x, y) (tw, tc)
      = Inr (tw + aTrousWeights ! x * aTrousWeights ! y
                  * exp (- (length2 (vsub (bilinearTap color w h (tapPoint f (ix, iy) (x, y)))
                                          (centerColor c))
                              / (cw * cw * centerStddev c + 0.01)
                            + length2 (vsub (bilinearTap normal w h (tapPoint f (ix, iy) (x, y)))
                                            (centerNormal c))
                              / (nw * nw * stepSize * stepSize)
                            + length2 (vsub (bilinearTap position w h (tapPoint f (ix, iy) (x, y)))
                                            (centerPosition c))
                              / (pw * pw))),
             vadd tc (smul (aTrousWeights ! x * aTrousWeights ! y
                  * exp (- (length2 (vsub (bilinearTap color w h (tapPoint f (ix, iy) (x, y)))
                                          (centerColor c))
                              / (cw * cw * centerStddev c + 0.01)
                            + length2 (vsub (bilinearTap normal w h (tapPoint f (ix, iy) (x, y)))
                                            (centerNormal c))
                              / (nw * nw * stepSize * stepSize)
                            + length2 (vsub (bilinearTap position w h (tapPoint f (ix, iy) (x, y)))
                                            (centerPosition c))
                              / (pw * pw))))
                (bilinearTap color w h (tapPoint f (ix, iy) (x, y)))))"
    unfolding aTrousTap_def
    by (simp only: prod.case nf if_False Let_def bc bn bp sum.case fdiv_def d1 d2 d3 option.case)
  show ?thesis
    by (simp only: raw tw tcl ct[symmetric] nt[symmetric] ptm[symmetric])
qed

lemma forEach_accumulate:
  assumes "\<And>t acc. t \<in> set ts \<Longrightarrow>
             k t acc = Inr (fst acc + wt t, vadd (snd acc) (smul (wt t) (col t)))"
  shows "forEach k ts (tw, tc)
         = Inr (tw + sum_list (map wt ts),
                vadd tc (sum_list (map (\<lambda>t. smul (wt t) (col t)) ts)))"
  using assms
proof (induction ts arbitrary: tw tc)
  case Nil
  then show ?case by (simp add: zero_vec3_def vadd_def vec3s_def)
next
  case (Cons t ts)
  have "forEach k (t # ts) (tw, tc)
        = forEach k ts (tw + wt t, vadd tc (smul (wt t) (col t)))"
    using Cons.prems[of t "(tw, tc)"] by simp
  also have "\<dots> = Inr (tw + wt t + sum_list (map wt ts),
                vadd (vadd tc (smul (wt t) (col t)))
                  (sum_list (map (\<lambda>t. smul (wt t) (col t)) ts)))"
    using Cons.prems by (intro Cons.IH) simp
  finally show ?case
    by (simp add: plus_vec3_def[symmetric] add.assoc)
qed

lemma aTrousTaps_sum:
  fixes g :: "nat \<times> nat \<Rightarrow> 'a::comm_monoid_add"
  shows "sum_list (map g aTrousTaps) = (\<Sum>t\<in>{0..<5} \<times> {0..<5}. g t)"
proof -
  have "distinct aTrousTaps" by (simp add: aTrousTaps_def distinct_product)
  then have "sum_list (map g aTrousTaps) = sum g (set aTrousTaps)"
    by (rule sum_list_distinct_conv_sum_set)
  then show ?thesis by (simp add: aTrousTaps_def)
qed

lemma totalWeight_pos: "0 < (\<Sum>t\<in>{0..<5} \<times> {0..<5}. tapWeight f p t)"
  by (rule sum_pos) (auto simp: tapWeight_pos)

lemma aTrousIter_pixel:
  assumes "length color = w * h" "length normal = w * h" "length position = w * h"
    and "length stddev = w * h"
    and "ix < w" "iy < h"
    and "cw * cw * stddev ! (iy * w + ix) + 0.01 \<noteq> 0" "nw \<noteq> 0" "stepSize \<noteq> 0" "pw \<noteq> 0"
  shows "aTrousIter color normal position stddev w h stepSize (cw * cw) (nw * nw) (pw * pw)
           (ix, iy) colorOut
         = writeAt (iy * w + ix)
             (weightedAverage (passOf color normal position stddev w h stepSize cw nw pw) (ix, iy))
             colorOut"
proof -
  let ?f = "passOf color normal position stddev w h stepSize cw nw pw"
  let ?c = "\<lparr>centerColor = color ! (iy * w + ix), centerNormal = normal ! (iy * w + ix),
             centerPosition = position ! (iy * w + ix), centerStddev = stddev ! (iy * w + ix),
             centerX = real ix + 0.5, centerY = real iy + 0.5\<rparr>"
  have "iy * w + ix < iy * w + w" using assms(5) by simp
  also have "\<dots> = Suc iy * w" by simp
  also have "\<dots> \<le> h * w" using assms(6) by (intro mult_le_mono1) simp
  finally have idx: "iy * w + ix < w * h" by (simp add: mult.commute)
  have loop: "forEach (aTrousTap color normal position w h stepSize (cw * cw) (nw * nw) (pw * pw) ?c)
                aTrousTaps (0, vec3s 0)
              = Inr (0 + sum_list (map (tapWeight ?f (ix, iy)) aTrousTaps),
                     vadd (vec3s 0)
                       (sum_list (map (\<lambda>t. smul (tapWeight ?f (ix, iy) t) (tapColor ?f (ix, iy) t))
                                   aTrousTaps)))"
  proof (rule forEach_accumulate)
    fix t :: "nat \<times> nat" and acc :: "real \<times> vec3"
    assume "t \<in> set aTrousTaps"
    then have t: "fst t < 5" "snd t < 5" by (auto simp: aTrousTaps_def)
    show "aTrousTap color normal position w h stepSize (cw * cw) (nw * nw) (pw * pw) ?c t acc
          = Inr (fst acc + tapWeight ?f (ix, iy) t,
                 vadd (snd acc) (smul (tapWeight ?f (ix, iy) t) (tapColor ?f (ix, iy) t)))"
      using aTrousTap_step[OF assms(1,2,3,5,6) t assms(7,8,9,10), of "fst acc" "snd acc"]
      by simp
  qed
  have z: "\<And>v. vadd (vec3s 0) v = v" by (simp add: vadd_def vec3s_def)
  have loop': "forEach (aTrousTap color normal position w h stepSize (cw * cw) (nw * nw) (pw * pw) ?c)
                aTrousTaps (0, vec3s 0)
              = Inr (\<Sum>t\<in>{0..<5} \<times> {0..<5}. tapWeight ?f (ix, iy) t,
                     \<Sum>t\<in>{0..<5} \<times> {0..<5}. smul (tapWeight ?f (ix, iy) t) (tapColor ?f (ix, iy) t))"
    by (simp only: loop aTrousTaps_sum z add_0_left)
  have nzw: "(\<Sum>t\<in>{0..<5} \<times> {0..<5}. tapWeight ?f (ix, iy) t) \<noteq> 0"
    using totalWeight_pos[of ?f "(ix, iy)"] by simp
  have guard: "(w \<le> ix \<or> h \<le> iy) = False" using assms(5,6) by simp
  have rd: "readAt color (iy * w + ix) = Inr (color ! (iy * w + ix))"
      "readAt normal (iy * w + ix) = Inr (normal ! (iy * w + ix))"
      "readAt position (iy * w + ix) = Inr (position ! (iy * w + ix))"
      "readAt stddev (iy * w + ix) = Inr (stddev ! (iy * w + ix))"
    using assms(1-4) idx by (simp_all add: readAt_def)
  have dv: "vdivs (\<Sum>t\<in>{0..<5} \<times> {0..<5}. smul (tapWeight ?f (ix, iy) t) (tapColor ?f (ix, iy) t))
              (\<Sum>t\<in>{0..<5} \<times> {0..<5}. tapWeight ?f (ix, iy) t)
            = Some (weightedAverage ?f (ix, iy))"
    using nzw by (simp add: vdivs_def weightedAverage_def Let_def)
  show ?thesis
    unfolding aTrousIter_def
    by (simp only: prod.case guard if_False Let_def rd sum.case loop' dv option.case)
qed

subsection \<open>C2: which buffers the denoiser run reads and writes\<close>

lemma launch_slots1D:
  assumes skip: "\<And>t b. n \<le> t \<Longrightarrow> k t b = Inr b"
    and act: "\<And>t b v. t < n \<Longrightarrow> t < length b \<Longrightarrow> val t (b ! t) = Inr v \<Longrightarrow> k t b = Inr (b[t := v])"
    and ok: "\<And>t. t < n \<Longrightarrow> val t (b ! t) = Inr (f t)"
    and len: "n \<le> length b" "n \<le> m"
  shows "forEach k [0..<m] b = Inr (map f [0..<n] @ drop n b)"
proof -
  have "\<exists>b'. forEach k [0..<m] b = Inr b' \<and> length b' = length b
           \<and> (\<forall>t\<in>set [0..<m]. \<not> n \<le> t \<longrightarrow> b' ! t = f t)
           \<and> (\<forall>i. (\<forall>t\<in>set [0..<m]. \<not> n \<le> t \<longrightarrow> t \<noteq> i) \<longrightarrow> b' ! i = b ! i)"
  proof (rule forEach_slots[where val = val and idx = "\<lambda>t. t"])
    show "\<And>t b. t \<in> set [0..<m] \<Longrightarrow> n \<le> t \<Longrightarrow> k t b = Inr b" by (rule skip)
    show "\<And>t b v. t \<in> set [0..<m] \<Longrightarrow> \<not> n \<le> t \<Longrightarrow> t < length b \<Longrightarrow> val t (b ! t) = Inr v
            \<Longrightarrow> k t b = Inr (b[t := v])"
      using act by (simp add: not_le)
    show "distinct (map (\<lambda>t. t) (filter (\<lambda>t. \<not> n \<le> t) [0..<m]))" by simp
    show "\<And>t. t \<in> set [0..<m] \<Longrightarrow> \<not> n \<le> t \<Longrightarrow> t < length b \<and> val t (b ! t) = Inr (f t)"
      using ok len by (simp add: not_le)
  qed
  then obtain b' where b': "forEach k [0..<m] b = Inr b'" "length b' = length b"
      "\<forall>t\<in>set [0..<m]. \<not> n \<le> t \<longrightarrow> b' ! t = f t"
      "\<forall>i. (\<forall>t\<in>set [0..<m]. \<not> n \<le> t \<longrightarrow> t \<noteq> i) \<longrightarrow> b' ! i = b ! i"
    by blast
  have "b' = map f [0..<n] @ drop n b"
  proof (rule nth_equalityI)
    show "length b' = length (map f [0..<n] @ drop n b)" using b'(2) len by simp
  next
    fix i assume i: "i < length b'"
    show "b' ! i = (map f [0..<n] @ drop n b) ! i"
    proof (cases "i < n")
      case True
      then have "b' ! i = f i" using b'(3) len by auto
      then show ?thesis using True by (simp add: nth_append)
    next
      case False
      then have "b' ! i = b ! i" using b'(4) by auto
      then show ?thesis using False len by (simp add: nth_append)
    qed
  qed
  then show ?thesis using b'(1) by simp
qed

lemma aTrousCopyBuffer_launch:
  assumes "length accum = n" "length target = n" "iter \<noteq> 0"
  shows "launch (aTrousCopyBuffer accum n iter) (grid1D (ceilDiv n 128) 128) target
         = Inr (meanImage accum iter)"
proof -
  let ?f = "\<lambda>t. Vec3 (vx (accum ! t) / real_of_int iter) (vy (accum ! t) / real_of_int iter)
                    (vz (accum ! t) / real_of_int iter)"
  have "forEach (aTrousCopyBuffer accum n iter) [0..<ceilDiv n 128 * 128] target
        = Inr (map ?f [0..<n] @ drop n target)"
  proof (rule launch_slots1D[where val = "\<lambda>t _. Inr (?f t)"])
    show "\<And>t b. n \<le> t \<Longrightarrow> aTrousCopyBuffer accum n iter t b = Inr b"
      by (simp add: aTrousCopyBuffer_def)
    show "\<And>t b v. t < n \<Longrightarrow> t < length b \<Longrightarrow> Inr (?f t) = Inr v \<Longrightarrow>
            aTrousCopyBuffer accum n iter t b = Inr (b[t := v])"
      using assms by (auto simp: aTrousCopyBuffer_def readAt_def vdivs_def writeAt_def)
    show "\<And>t. t < n \<Longrightarrow> Inr (?f t) = Inr (?f t)" by simp
    show "n \<le> length target" using assms by simp
    show "n \<le> ceilDiv n 128 * 128" by (simp add: ceilDiv_covers)
  qed
  moreover have "map ?f [0..<n] = meanImage accum iter"
    using assms(1) by (auto simp: meanImage_def intro!: nth_equalityI)
  ultimately show ?thesis using assms(2) by (simp add: grid1D_def)
qed

lemma aTrousIter_launch:
  assumes len: "length color = w * h" "length normal = w * h" "length position = w * h"
      "length stddev = w * h" "length colorOut = w * h"
    and nz: "\<And>i. i < w * h \<Longrightarrow> cw * cw * stddev ! i + 0.01 \<noteq> 0"
      "nw \<noteq> 0" "stepSize \<noteq> 0" "pw \<noteq> 0"
  shows "launch (aTrousIter color normal position stddev w h stepSize (cw * cw) (nw * nw) (pw * pw))
           (grid2D (ceilDiv w 16, ceilDiv h 16) (16, 16)) colorOut
         = Inr (filterImage (passOf color normal position stddev w h stepSize cw nw pw))"
proof -
  let ?f = "passOf color normal position stddev w h stepSize cw nw pw"
  have "launch (aTrousIter color normal position stddev w h stepSize (cw * cw) (nw * nw) (pw * pw))
           (grid2D (ceilDiv w 16, ceilDiv h 16) (16, 16)) colorOut
        = Inr (map (\<lambda>i. weightedAverage ?f (i mod w, i div w)) [0..<w * h])"
  proof (rule launch_pixels2D)
    show "\<And>x y b. w \<le> x \<or> h \<le> y \<Longrightarrow>
            aTrousIter color normal position stddev w h stepSize (cw * cw) (nw * nw) (pw * pw)
              (x, y) b = Inr b"
      by (auto simp: aTrousIter_def)
    show "\<And>x y b. x < w \<Longrightarrow> y < h \<Longrightarrow> y * w + x < length b \<Longrightarrow>
            aTrousIter color normal position stddev w h stepSize (cw * cw) (nw * nw) (pw * pw)
              (x, y) b = Inr (b[y * w + x := weightedAverage ?f (x, y)])"
    proof -
      fix x y and b :: "vec3 list"
      assume xy: "x < w" "y < h" and b: "y * w + x < length b"
      have "y * w + x < y * w + w" using xy by simp
      also have "\<dots> = Suc y * w" by simp
      also have "\<dots> \<le> h * w" using xy by (intro mult_le_mono1) simp
      finally have "y * w + x < w * h" by (simp add: mult.commute)
      then have "cw * cw * stddev ! (y * w + x) + 0.01 \<noteq> 0" by (rule nz(1))
      then show "aTrousIter color normal position stddev w h stepSize (cw * cw) (nw * nw) (pw * pw)
              (x, y) b = Inr (b[y * w + x := weightedAverage ?f (x, y)])"
        using aTrousIter_pixel[OF len(1-4) xy _ nz(2-4), of cw b] b by (simp add: writeAt_def)
    qed
    show "length colorOut = w * h" by (rule len)
    show "w \<le> fst (ceilDiv w 16, ceilDiv h 16) * fst (16::nat, 16::nat)"
      by (simp add: ceilDiv_covers)
    show "h \<le> snd (ceilDiv w 16, ceilDiv h 16) * snd (16::nat, 16::nat)"
      by (simp add: ceilDiv_covers)
  qed
  then show ?thesis by (simp add: filterImage_def passOf_def)
qed

lemma filterImage_length: "length (filterImage f) = passWidth f * passHeight f"
  by (simp add: filterImage_def)

lemma storedEstimate_nonneg: "0 \<le> storedEstimate csum sumSqr iter"
  by (simp add: storedEstimate_def)

lemma color_divisor_pos:
  fixes v cw :: real
  assumes "0 \<le> v"
  shows "cw * cw * v + 0.01 \<noteq> 0"
proof -
  have "0 \<le> cw * cw * v" using assms by simp
  then have "0 < cw * cw * v + 0.01" by (simp add: add_nonneg_pos)
  then show ?thesis by simp
qed

lemma deref_vecMem_update: "deref r (s\<lparr>vecMem := m\<rparr>) = deref r s"
  by (cases r) (simp_all add: deref_def)

lemma aTrousLevels_closed:
  assumes ok: "denoiserBuffersOK s"
    and nz: "nw \<noteq> 0" "pw \<noteq> 0" "stepSize \<noteq> 0"
    and sd: "\<forall>i < fst (resolution s) * snd (resolution s). 0 \<le> floatMem s (dev_stddevBuffer s) ! i"
  shows "\<exists>s'. aTrousLevels r cw nw pw k stepSize s = Inr s'
           \<and> vecMem s' (deref r s')
               = filterLevels k
                   (passOf (vecMem s (deref r s)) (vecMem s (dev_normalBuffer s))
                      (vecMem s (dev_positionBuffer s)) (floatMem s (dev_stddevBuffer s))
                      (fst (resolution s)) (snd (resolution s)) stepSize cw nw pw)
           \<and> floatMem s' = floatMem s
           \<and> denoiserFrame r s s'"
  using ok nz(3) sd
proof (induction k arbitrary: s stepSize)
  case 0
  then show ?case by (simp add: passOf_def denoiserFrame_def)
next
  case (Suc k)
  let ?w = "fst (resolution s)" and ?h = "snd (resolution s)"
  let ?A = "deref r s" and ?T = "dev_filteredTemp s"
  let ?f0 = "passOf (vecMem s ?A) (vecMem s (dev_normalBuffer s))
               (vecMem s (dev_positionBuffer s)) (floatMem s (dev_stddevBuffer s))
               ?w ?h stepSize cw nw pw"
  have okS: "denoiserBuffersOK s" by (rule Suc.prems(1))
  have lenA: "length (vecMem s ?A) = ?w * ?h"
    using okS by (cases r) (simp_all add: denoiserBuffersOK_def deref_def Let_def)
  have lens: "length (vecMem s (dev_normalBuffer s)) = ?w * ?h"
      "length (vecMem s (dev_positionBuffer s)) = ?w * ?h"
      "length (floatMem s (dev_stddevBuffer s)) = ?w * ?h"
      "length (vecMem s ?T) = ?w * ?h"
    using okS by (simp_all add: denoiserBuffersOK_def Let_def)
  have cnz: "\<And>i. i < ?w * ?h \<Longrightarrow> cw * cw * floatMem s (dev_stddevBuffer s) ! i + 0.01 \<noteq> 0"
    using Suc.prems(3) by (intro color_divisor_pos) simp
  have run: "launch (aTrousIter (vecMem s ?A) (vecMem s (dev_normalBuffer s))
                 (vecMem s (dev_positionBuffer s)) (floatMem s (dev_stddevBuffer s))
                 ?w ?h stepSize (cw * cw) (nw * nw) (pw * pw))
               (grid2D (ceilDiv ?w 16, ceilDiv ?h 16) (16, 16)) (vecMem s ?T)
             = Inr (filterImage ?f0)"
    by (rule aTrousIter_launch[OF lenA lens(1,2,3,4) cnz nz(1) Suc.prems(2) nz(2)])
  define s2 where "s2 = (assign r ?T (s\<lparr>vecMem := (vecMem s)(?T := filterImage ?f0)\<rparr>))
                          \<lparr>dev_filteredTemp := ?A\<rparr>"
  have step: "aTrousLevels r cw nw pw (Suc k) stepSize s
              = aTrousLevels r cw nw pw k (stepSize * 2) s2"
    by (simp add: run s2_def deref_vecMem_update Let_def)
  have AT: "?A \<noteq> ?T"
    using okS by (cases r) (auto simp: denoiserBuffersOK_def deref_def Let_def)
  have fl: "length (filterImage ?f0) = ?w * ?h"
    by (simp add: filterImage_length passOf_def)
  have ok2: "denoiserBuffersOK s2"
    using okS fl by (cases r) (auto simp: denoiserBuffersOK_def s2_def deref_def assign_def Let_def)
  have res2: "resolution s2 = resolution s" "floatMem s2 = floatMem s"
      "dev_stddevBuffer s2 = dev_stddevBuffer s"
    by (cases r; simp add: s2_def assign_def)+
  have sd2: "\<forall>i < fst (resolution s2) * snd (resolution s2). 0 \<le> floatMem s2 (dev_stddevBuffer s2) ! i"
    using Suc.prems(3) by (simp add: res2)
  have st2: "stepSize * 2 \<noteq> 0" using Suc.prems(2) by simp
  obtain s' where s': "aTrousLevels r cw nw pw k (stepSize * 2) s2 = Inr s'"
      "vecMem s' (deref r s')
               = filterLevels k
                   (passOf (vecMem s2 (deref r s2)) (vecMem s2 (dev_normalBuffer s2))
                      (vecMem s2 (dev_positionBuffer s2)) (floatMem s2 (dev_stddevBuffer s2))
                      (fst (resolution s2)) (snd (resolution s2)) (stepSize * 2) cw nw pw)"
      "floatMem s' = floatMem s2"
      "denoiserFrame r s2 s'"
    using Suc.IH[OF ok2 st2 sd2] by blast
  have d2: "deref r s2 = ?T" "dev_filteredTemp s2 = ?A"
    by (cases r; simp add: s2_def assign_def deref_def)+
  have v2: "vecMem s2 ?T = filterImage ?f0"
      "\<And>a. a \<noteq> ?T \<Longrightarrow> vecMem s2 a = vecMem s a"
    by (cases r; simp add: s2_def assign_def)+
  have ptr2: "dev_normalBuffer s2 = dev_normalBuffer s" "dev_positionBuffer s2 = dev_positionBuffer s"
      "dev_directIllum s2 = dev_directIllum s" "dev_indirectIllum s2 = dev_indirectIllum s"
      "dev_directIllumSqr s2 = dev_directIllumSqr s" "dev_indirectIllumSqr s2 = dev_indirectIllumSqr s"
      "deref (otherVar r) s2 = deref (otherVar r) s"
    by (cases r; simp add: s2_def assign_def deref_def otherVar_def)+
  have nT: "dev_normalBuffer s \<noteq> ?T" "dev_positionBuffer s \<noteq> ?T"
    using okS by (auto simp: denoiserBuffersOK_def Let_def)
  have pass: "passOf (vecMem s2 (deref r s2)) (vecMem s2 (dev_normalBuffer s2))
                      (vecMem s2 (dev_positionBuffer s2)) (floatMem s2 (dev_stddevBuffer s2))
                      (fst (resolution s2)) (snd (resolution s2)) (stepSize * 2) cw nw pw
              = ?f0\<lparr>passColor := filterImage ?f0, passStep := passStep ?f0 * 2\<rparr>"
    using nT by (simp add: d2 v2 ptr2 res2 passOf_def)
  have result: "vecMem s' (deref r s') = filterLevels (Suc k) ?f0"
    using s'(2) pass by simp
  have frame: "denoiserFrame r s s'"
    using s'(4) unfolding denoiserFrame_def
    by (simp add: d2 ptr2 res2 v2 insert_commute)
  show ?case
    using step s'(1) result s'(3) res2(2) frame by auto
qed

lemma aTrous_run:
  assumes ok: "denoiserBuffersOK s"
    and nz: "iter \<noteq> 0" "nw \<noteq> 0" "pw \<noteq> 0" "radius \<noteq> 0"
    and sel: "(buf = DirectSpecularIllumination \<and> colorBuf = dev_indirectIllum s
                \<and> colorSqrBuf = dev_indirectIllumSqr s \<and> r = addr_filteredIndirectDiffuse)
              \<or> (buf = IndirectDiffuseIllumination \<and> colorBuf = dev_directIllum s
                \<and> colorSqrBuf = dev_directIllumSqr s \<and> r = addr_filteredDirectSpecular)"
  shows "\<exists>s'. aTrous buf levels radius iter cw nw pw s = Inr s'
           \<and> vecMem s' (deref r s')
               = denoisedImage (vecMem s colorBuf) (floatMem s colorSqrBuf) s levels radius iter cw nw pw
           \<and> denoiserFrame r s s'"
proof -
  let ?w = "fst (resolution s)" and ?h = "snd (resolution s)"
  let ?n = "?w * ?h"
  let ?mean = "meanImage (vecMem s colorBuf) iter"
  let ?sd = "map (\<lambda>i. storedEstimate (vecMem s colorBuf ! i) (floatMem s colorSqrBuf ! i) iter) [0..<?n]"
  let ?step = "0.5 * radius / (2 powr real_of_int levels)"
  have lenC: "length (vecMem s colorBuf) = ?n" "length (floatMem s colorSqrBuf) = ?n"
      "length (vecMem s (deref r s)) = ?n" "length (floatMem s (dev_stddevBuffer s)) = ?n"
    using ok sel by (auto simp: denoiserBuffersOK_def deref_def Let_def)
  have ne: "colorBuf \<noteq> deref r s" "colorSqrBuf \<noteq> dev_stddevBuffer s"
    using ok sel by (auto simp: denoiserBuffersOK_def deref_def Let_def)
  have copy: "launch (aTrousCopyBuffer (vecMem s colorBuf) ?n iter) (grid1D (ceilDiv ?n 128) 128)
                (vecMem s (deref r s)) = Inr ?mean"
    by (rule aTrousCopyBuffer_launch[OF lenC(1) lenC(3) nz(1)])
  define s1 where "s1 = s\<lparr>vecMem := (vecMem s)(deref r s := ?mean)\<rparr>"
  have var: "launch (aTrousComputeVariance (vecMem s1 colorBuf) (floatMem s1 colorSqrBuf)
                 (fst (resolution s1)) (snd (resolution s1)) iter)
               (grid2D (ceilDiv ?w 16, ceilDiv ?h 16) (16, 16)) (floatMem s1 (dev_stddevBuffer s1))
             = Inr ?sd"
    using aTrousComputeVariance_launch[OF lenC(1) lenC(2) lenC(4), of iter] ne
    by (simp add: s1_def)
  define s2 where "s2 = s1\<lparr>floatMem := (floatMem s1)(dev_stddevBuffer s1 := ?sd)\<rparr>"
  have sel_eq: "(if buf = DirectSpecularIllumination then
              Inr (dev_indirectIllum s, dev_indirectIllumSqr s, addr_filteredIndirectDiffuse)
            else if buf = IndirectDiffuseIllumination then
              Inr (dev_directIllum s, dev_directIllumSqr s, addr_filteredDirectSpecular)
            else Inl ProcessAbort) = Inr (colorBuf, colorSqrBuf, r)"
    using sel by auto
  have unfold: "aTrous buf levels radius iter cw nw pw s
                = aTrousLevels r cw nw pw (nat levels) ?step s2"
    unfolding aTrous_def s2_def s1_def
    by (simp only: Let_def sel_eq sum.case prod.case copy var[unfolded s1_def])
  have ok2: "denoiserBuffersOK s2"
    using ok sel by (auto simp: denoiserBuffersOK_def s2_def s1_def deref_def Let_def meanImage_def)
  have st: "?step \<noteq> 0" using nz(4) by simp
  have sd2: "\<forall>i < fst (resolution s2) * snd (resolution s2). 0 \<le> floatMem s2 (dev_stddevBuffer s2) ! i"
    by (simp add: s2_def s1_def storedEstimate_nonneg)
  obtain s' where s': "aTrousLevels r cw nw pw (nat levels) ?step s2 = Inr s'"
      "vecMem s' (deref r s')
         = filterLevels (nat levels)
             (passOf (vecMem s2 (deref r s2)) (vecMem s2 (dev_normalBuffer s2))
                (vecMem s2 (dev_positionBuffer s2)) (floatMem s2 (dev_stddevBuffer s2))
                (fst (resolution s2)) (snd (resolution s2)) ?step cw nw pw)"
      "denoiserFrame r s2 s'"
    using aTrousLevels_closed[OF ok2 nz(2) nz(3) st sd2, of r cw "nat levels"] by blast
  have d2: "deref r s2 = deref r s" "deref (otherVar r) s2 = deref (otherVar r) s"
    by (cases r; simp add: s2_def s1_def deref_def otherVar_def)+
  have nT: "dev_normalBuffer s \<noteq> deref r s" "dev_positionBuffer s \<noteq> deref r s"
    using ok sel by (auto simp: denoiserBuffersOK_def deref_def Let_def)
  have pass: "passOf (vecMem s2 (deref r s2)) (vecMem s2 (dev_normalBuffer s2))
                (vecMem s2 (dev_positionBuffer s2)) (floatMem s2 (dev_stddevBuffer s2))
                (fst (resolution s2)) (snd (resolution s2)) ?step cw nw pw
              = passOf ?mean (vecMem s (dev_normalBuffer s)) (vecMem s (dev_positionBuffer s)) ?sd
                  ?w ?h ?step cw nw pw"
    using nT by (simp add: d2) (simp add: s2_def s1_def)
  have result: "vecMem s' (deref r s')
      = denoisedImage (vecMem s colorBuf) (floatMem s colorSqrBuf) s levels radius iter cw nw pw"
    using s'(2) pass by (simp add: denoisedImage_def)
  have frame: "denoiserFrame r s s'"
    using s'(3) unfolding denoiserFrame_def
    by (simp add: d2) (simp add: s2_def s1_def)
  show ?thesis
    using unfold s'(1) result frame by auto
qed

text \<open>
  C2. A run for the direct category filters the sums that buffer selection returns for
  the indirect variance type (the indirect sum and its sum of squares) and leaves the
  result in the buffer that buffer selection returns for \<open>FilteredIndirectDiffuse\<close>
  afterwards; a run for the indirect category filters the direct sums into the buffer of
  \<open>FilteredDirectSpecular\<close>. The other filtered buffer and the sums are as before
  (\<open>denoiserFrame\<close>).
\<close>

theorem C2_inverted_buffer_mapping:
  assumes "denoiserBuffersOK s" "iter \<noteq> 0" "nw \<noteq> 0" "pw \<noteq> 0" "radius \<noteq> 0"
  shows "(\<exists>s' src srcSqr dst.
            aTrous DirectSpecularIllumination levels radius iter cw nw pw s = Inr s'
            \<and> getBuffers IndirectDiffuseIlluminationVariance s None = (Some src, floatPtr srcSqr)
            \<and> getBuffers FilteredIndirectDiffuse s' None = (Some dst, nullptr)
            \<and> vecMem s' dst
                = denoisedImage (vecMem s src) (floatMem s srcSqr) s levels radius iter cw nw pw
            \<and> denoiserFrame addr_filteredIndirectDiffuse s s')
       \<and> (\<exists>s' src srcSqr dst.
            aTrous IndirectDiffuseIllumination levels radius iter cw nw pw s = Inr s'
            \<and> getBuffers DirectSpecularIlluminationVariance s None = (Some src, floatPtr srcSqr)
            \<and> getBuffers FilteredDirectSpecular s' None = (Some dst, nullptr)
            \<and> vecMem s' dst
                = denoisedImage (vecMem s src) (floatMem s srcSqr) s levels radius iter cw nw pw
            \<and> denoiserFrame addr_filteredDirectSpecular s s')"
proof -
  obtain s1 where s1: "aTrous DirectSpecularIllumination levels radius iter cw nw pw s = Inr s1"
      "vecMem s1 (deref addr_filteredIndirectDiffuse s1)
         = denoisedImage (vecMem s (dev_indirectIllum s)) (floatMem s (dev_indirectIllumSqr s))
             s levels radius iter cw nw pw"
      "denoiserFrame addr_filteredIndirectDiffuse s s1"
    using aTrous_run[OF assms, of DirectSpecularIllumination "dev_indirectIllum s"
            "dev_indirectIllumSqr s" addr_filteredIndirectDiffuse levels cw]
    by auto
  obtain s2 where s2: "aTrous IndirectDiffuseIllumination levels radius iter cw nw pw s = Inr s2"
      "vecMem s2 (deref addr_filteredDirectSpecular s2)
         = denoisedImage (vecMem s (dev_directIllum s)) (floatMem s (dev_directIllumSqr s))
             s levels radius iter cw nw pw"
      "denoiserFrame addr_filteredDirectSpecular s s2"
    using aTrous_run[OF assms, of IndirectDiffuseIllumination "dev_directIllum s"
            "dev_directIllumSqr s" addr_filteredDirectSpecular levels cw]
    by auto
  show ?thesis
    using s1 s2 by (simp add: getBuffers_def deref_def)
qed

theorem C2_inverted_buffer_mapping_witness:
  "denoiserBuffersOK exampleState \<and> (1::int) \<noteq> 0 \<and> (1::real) \<noteq> 0
   \<and> (\<exists>s'. aTrous DirectSpecularIllumination 1 1 1 1 1 1 exampleState = Inr s'
         \<and> getBuffers IndirectDiffuseIlluminationVariance exampleState None = (Some 1, floatPtr 1)
         \<and> getBuffers FilteredIndirectDiffuse s' None = (Some (dev_filteredIndirectDiffuse s'), nullptr)
         \<and> vecMem s' (dev_filteredIndirectDiffuse s')
             = denoisedImage (vecMem exampleState 1) (floatMem exampleState 1) exampleState 1 1 1 1 1 1)"
proof -
  have ok: "denoiserBuffersOK exampleState"
    by (simp add: denoiserBuffersOK_def exampleState_def)
  show ?thesis
    using C2_inverted_buffer_mapping[OF ok, of 1 1 1 1 1 1] ok
    by (auto simp: getBuffers_def exampleState_def)
qed

subsection \<open>The kernels of one depth\<close>

lemma forEach_upt_invariant:
  assumes "P 0 s0"
    and "\<And>j s. j < m \<Longrightarrow> P j s \<Longrightarrow> \<exists>s'. k j s = Inr s' \<and> P (Suc j) s'"
  shows "\<exists>s'. forEach k [0..<m] s0 = Inr s' \<and> P m s'"
  using assms(2)
proof (induction m)
  case 0
  then show ?case using assms(1) by simp
next
  case (Suc m)
  obtain s1 where s1: "forEach k [0..<m] s0 = Inr s1" "P m s1"
    using Suc.IH Suc.prems by (metis less_Suc_eq)
  obtain s2 where s2: "k m s1 = Inr s2" "P (Suc m) s2"
    using Suc.prems[of m s1] s1(2) by auto
  show ?case using s1 s2 by (simp add: forEach_append)
qed

lemma prefix_map_step:
  assumes "j < length xs" "j < length ys"
  shows "(map F (take j xs) @ drop j ys)[j := F (xs ! j)]
         = map F (take (Suc j) xs) @ drop (Suc j) ys"
proof -
  have "length (map F (take j xs)) = j" using assms by simp
  then have "(map F (take j xs) @ drop j ys)[j := F (xs ! j)]
             = map F (take j xs) @ (drop j ys)[0 := F (xs ! j)]"
    by (simp add: list_update_append)
  also have "(drop j ys)[0 := F (xs ! j)] = F (xs ! j) # drop (Suc j) ys"
    using assms(2) by (simp add: Cons_nth_drop_Suc[symmetric])
  finally show ?thesis using assms(1) by (simp add: take_Suc_conv_app_nth)
qed

lemma prefix_map_nth:
  assumes "j < length xs" "j < length ys"
  shows "(map F (take j xs) @ drop j ys) ! j = ys ! j"
  using assms by (simp add: nth_append)

lemma computeIntersections_launch:
  assumes len: "length ps = len" "length cleared = len" "length keys = len" "n \<le> len" "n \<le> m"
    and cl: "\<And>i. i < n \<Longrightarrow> cleared ! i = zeroIntersection"
  shows "launch (computeIntersections ext depth n) [0..<m] (ps, cleared, keys)
         = Inr (map (\<lambda>p. fst (intersectPath ext p)) (take n ps) @ drop n ps,
                map (\<lambda>p. snd (intersectPath ext p)) (take n ps) @ drop n cleared,
                map (\<lambda>p. materialId (snd (intersectPath ext p))) (take n ps) @ drop n keys)"
proof -
  let ?F = "\<lambda>p. fst (intersectPath ext p)"
  let ?G = "\<lambda>p. snd (intersectPath ext p)"
  let ?K = "\<lambda>p. materialId (snd (intersectPath ext p))"
  let ?P = "\<lambda>j st. st = (map ?F (take (min j n) ps) @ drop (min j n) ps,
                          map ?G (take (min j n) ps) @ drop (min j n) cleared,
                          map ?K (take (min j n) ps) @ drop (min j n) keys)"
  have "\<exists>s'. forEach (computeIntersections ext depth n) [0..<m] (ps, cleared, keys) = Inr s' \<and> ?P m s'"
  proof (rule forEach_upt_invariant[where P = ?P])
    show "?P 0 (ps, cleared, keys)" by simp
  next
    fix j st assume j: "j < m" and st: "?P j st"
    show "\<exists>s'. computeIntersections ext depth n j st = Inr s' \<and> ?P (Suc j) s'"
    proof (cases "j < n")
      case False
      then have "min j n = n" "min (Suc j) n = n" by simp_all
      then show ?thesis using st False by (simp add: computeIntersections_def)
    next
      case True
      then have mj: "min j n = j" "min (Suc j) n = Suc j" by simp_all
      have jl: "j < length ps" "j < length cleared" "j < length keys" using True len by simp_all
      have cj: "cleared ! j = zeroIntersection" using True by (rule cl)
      have new: "computeIntersections ext depth n j st
                 = Inr ((map ?F (take j ps) @ drop j ps)[j := ?F (ps ! j)],
                        (map ?G (take j ps) @ drop j cleared)[j := ?G (ps ! j)],
                        (map ?K (take j ps) @ drop j keys)[j := ?K (ps ! j)])"
        using True jl st cj
        by (simp add: mj computeIntersections_def intersectPath_def prefix_map_nth Let_def
            split: prod.splits)
      show ?thesis
        using prefix_map_step[OF jl(1) jl(1), of ?F] prefix_map_step[OF jl(1) jl(2), of ?G]
          prefix_map_step[OF jl(1) jl(3), of ?K]
        by (simp add: new mj)
    qed
  qed
  then show ?thesis using len by simp
qed

lemma shade_launch:
  assumes "n \<le> length paths" "n \<le> length isects" "n \<le> m"
    and ok: "\<And>i. i < n \<Longrightarrow>
               shadePath cfg ext iter depth i stratCount lightMis numLights (isects ! i) (paths ! i)
               = Inr (f i)"
  shows "launch (shade cfg ext iter depth n isects stratCount lightMis numLights) [0..<m] paths
         = Inr (map f [0..<n] @ drop n paths)"
proof (rule launch_slots1D[where val = "\<lambda>t x. shadePath cfg ext iter depth t stratCount lightMis
                                          numLights (isects ! t) x"])
  show "\<And>t b. n \<le> t \<Longrightarrow> shade cfg ext iter depth n isects stratCount lightMis numLights t b = Inr b"
    by (simp add: shade_def)
  show "\<And>t b v. t < n \<Longrightarrow> t < length b \<Longrightarrow>
          shadePath cfg ext iter depth t stratCount lightMis numLights (isects ! t) (b ! t) = Inr v \<Longrightarrow>
          shade cfg ext iter depth n isects stratCount lightMis numLights t b = Inr (b[t := v])"
    using assms(2) by (simp add: shade_def readAt_def writeAt_def)
  show "\<And>t. t < n \<Longrightarrow>
          shadePath cfg ext iter depth t stratCount lightMis numLights (isects ! t) (paths ! t)
          = Inr (f t)"
    by (rule ok)
  show "n \<le> length paths" by (rule assms)
  show "n \<le> m" by (rule assms)
qed

lemma sint_word_of_int_small:
  assumes "0 \<le> k" "k < 2 ^ 31"
  shows "sint (word_of_int k :: 32 word) = k"
  using assms by (simp add: sint_sbintrunc' signed_take_bit_int_eq_self order_trans[of _ 0])

lemma poolSlot_ok:
  assumes "samplesOK cfg iter n"
  shows "\<exists>slot. poolSlot (stratifiedSampleIndex cfg ext (word_of_int iter) p (word_of_int n)) n
                 = Inr slot"
proof -
  have n: "0 < n" "n < 2 ^ 31" using assms by (simp_all add: samplesOK_def)
  have sn: "sint (word_of_int n :: 32 word) = n" using n by (intro sint_word_of_int_small) simp_all
  have pos: "0 < sint (word_of_int n :: 32 word)" using n sn by simp
  show ?thesis
  proof (cases "stratifiedSplat cfg")
    case True
    then have i: "0 \<le> iter" "iter < 2 ^ 31" using assms by (simp_all add: samplesOK_def)
    have si: "sint (word_of_int iter :: 32 word) = iter" using i by (rule sint_word_of_int_small)
    obtain r where r: "stratifiedSampleIndex cfg ext (word_of_int iter) p (word_of_int n) = Inr r"
        "sint r = iter mod n"
      using splat_index[OF pos _ True, of "word_of_int iter" ext p] si sn i by auto
    have "0 \<le> sint r" "sint r < n" using r(2) n by simp_all
    then show ?thesis using r(1) by (simp add: poolSlot_def)
  next
    case False
    obtain r where r: "stratifiedSampleIndex cfg ext (word_of_int iter) p (word_of_int n) = Inr r"
        "0 \<le> sint r" "sint r < sint (word_of_int n :: 32 word)"
      using full_index[OF pos False, of ext "word_of_int iter" p] by auto
    then show ?thesis using sn by (simp add: poolSlot_def)
  qed
qed

lemma shadePath_ok:
  assumes "samplesOK cfg iter stratCount"
  shows "\<exists>p'. shadePath cfg ext iter depth iSelf stratCount lightMis numLights isect p = Inr p'"
proof -
  obtain slot where "poolSlot (stratifiedSampleIndex cfg ext (word_of_int iter)
                       (word_of_nat (pixelIndex p)) (word_of_int stratCount)) stratCount = Inr slot"
    using poolSlot_ok[OF assms] by blast
  then show ?thesis
    by (simp add: shadePath_def Let_def split: prod.splits)
qed

lemma shadePath_miss:
  "materialId isect = - 1 \<Longrightarrow>
   shadePath cfg ext iter depth iSelf stratCount lightMis numLights isect p
   = Inr (p\<lparr>colorThroughput := vec3s 0, remainingBounces := 0\<rparr>)"
  by (simp add: shadePath_def)

lemma thrust_partition_mset: "mset (fst (thrust_partition pred xs)) = mset xs"
  by (simp add: thrust_partition_def)

lemma thrust_partition_count: "snd (thrust_partition pred xs) \<le> length xs"
  by (simp add: thrust_partition_def)

lemma thrust_partition_front:
  "take (snd (thrust_partition pred xs)) (fst (thrust_partition pred xs)) = filter pred xs"
  by (simp add: thrust_partition_def)

lemma depthStep_closed:
  assumes ok: "pathBuffersOK s"
    and n: "n \<le> fst (resolution s) * snd (resolution s)"
    and cfg: "\<not> sortByMaterial cfg" "\<not> cacheFirstBounce cfg" "\<not> firstBounceCached s"
    and sh: "\<And>i. i < n \<Longrightarrow>
               shadePath cfg ext iter depth i (numStratifiedSamples s) lightMis numLights
                 (snd (intersectPath ext (dev_paths s ! i))) (fst (intersectPath ext (dev_paths s ! i)))
               = Inr (f i)"
  shows "\<exists>isects keys.
           depthStep cfg ext iter lightMis numLights depth n s
           = Inr (s\<lparr>dev_paths := filter IsRayTravelling (map f [0..<n])
                                  @ filter (\<lambda>x. \<not> IsRayTravelling x) (map f [0..<n])
                                  @ drop n (dev_paths s),
                     dev_intersections := isects, dev_materialSortBuffer := keys\<rparr>,
                  length (filter IsRayTravelling (map f [0..<n])))
           \<and> length isects = fst (resolution s) * snd (resolution s)
           \<and> length keys = fst (resolution s) * snd (resolution s)"
proof -
  let ?pc = "fst (resolution s) * snd (resolution s)"
  let ?ps = "dev_paths s"
  let ?cleared = "replicate ?pc zeroIntersection @ drop ?pc (dev_intersections s)"
  have len: "length ?ps = ?pc" "length (dev_intersections s) = ?pc"
      "length (dev_materialSortBuffer s) = ?pc"
    using ok by (simp_all add: pathBuffersOK_def Let_def)
  have ms: "cudaMemset0 ?pc (dev_intersections s) = Inr ?cleared"
    using len by (simp add: cudaMemset0_def)
  have lc: "length ?cleared = ?pc" using len by simp
  let ?ps1 = "map (\<lambda>p. fst (intersectPath ext p)) (take n ?ps) @ drop n ?ps"
  let ?is1 = "map (\<lambda>p. snd (intersectPath ext p)) (take n ?ps) @ drop n ?cleared"
  let ?ks1 = "map (\<lambda>p. materialId (snd (intersectPath ext p))) (take n ?ps)
              @ drop n (dev_materialSortBuffer s)"
  have ci: "launch (computeIntersections ext depth n) (grid1D (ceilDiv n 128) 128)
              (?ps, ?cleared, dev_materialSortBuffer s) = Inr (?ps1, ?is1, ?ks1)"
    unfolding grid1D_def
  proof (rule computeIntersections_launch[OF len(1) lc len(3) n])
    show "n \<le> ceilDiv n 128 * 128" by (simp add: ceilDiv_covers)
    show "\<And>i. i < n \<Longrightarrow> ?cleared ! i = zeroIntersection"
      using n by (simp add: nth_append)
  qed
  define s1 where "s1 = s\<lparr>dev_paths := ?ps1, dev_intersections := ?is1,
                           dev_materialSortBuffer := ?ks1\<rparr>"
  have stage: "intersectStage cfg ext depth n s = Inr s1"
    using cfg ms ci by (simp add: intersectStage_def Let_def s1_def)
  have l1: "length ?ps1 = ?pc" "length ?is1 = ?pc" "length ?ks1 = ?pc"
    using len n by simp_all
  have nth1: "\<And>i. i < n \<Longrightarrow> ?ps1 ! i = fst (intersectPath ext (?ps ! i))"
      "\<And>i. i < n \<Longrightarrow> ?is1 ! i = snd (intersectPath ext (?ps ! i))"
    using len n by (simp_all add: nth_append)
  have shl: "launch (shade cfg ext iter depth n ?is1 (numStratifiedSamples s) lightMis numLights)
               (grid1D (ceilDiv n 128) 128) ?ps1
             = Inr (map f [0..<n] @ drop n ?ps1)"
    unfolding grid1D_def
  proof (rule shade_launch)
    show "n \<le> length ?ps1" using l1 n by simp
    show "n \<le> length ?is1" using l1 n by simp
    show "n \<le> ceilDiv n 128 * 128" by (simp add: ceilDiv_covers)
    show "\<And>i. i < n \<Longrightarrow>
            shadePath cfg ext iter depth i (numStratifiedSamples s) lightMis numLights
              (?is1 ! i) (?ps1 ! i) = Inr (f i)"
      using sh nth1 by simp
  qed
  have dr: "drop n ?ps1 = drop n ?ps" using len n by simp
  have "depthStep cfg ext iter lightMis numLights depth n s
        = Inr (s\<lparr>dev_paths := filter IsRayTravelling (map f [0..<n])
                                  @ filter (\<lambda>x. \<not> IsRayTravelling x) (map f [0..<n])
                                  @ drop n (dev_paths s),
                  dev_intersections := ?is1, dev_materialSortBuffer := ?ks1\<rparr>,
               length (filter IsRayTravelling (map f [0..<n])))"
    using cfg(1) shl n len(1)
    by (simp add: depthStep_def stage s1_def dr thrust_partition_def)
  then show ?thesis using l1 by blast
qed

subsection \<open>C5: the loop over the depths ends\<close>

lemma depthStep_count:
  "depthStep cfg ext iter lightMis numLights depth n s = Inr (s', n') \<Longrightarrow> n' \<le> n"
  by (auto simp: depthStep_def thrust_partition_def Let_def
      split: sum.splits if_splits prod.splits intro: order_trans[OF length_filter_le])

lemma intersectPath_fields:
  "remainingBounces (fst (intersectPath ext p)) = remainingBounces p"
  "pixelIndex (fst (intersectPath ext p)) = pixelIndex p"
  "directAccum (fst (intersectPath ext p)) = directAccum p"
  "indirectAccum (fst (intersectPath ext p)) = indirectAccum p"
  by (simp_all add: intersectPath_def Let_def split: prod.splits)

lemma mset_map_partitioned:
  "mset (map g (filter P xs @ filter (\<lambda>x. \<not> P x) xs @ ys)) = mset (map g xs) + mset (map g ys)"
  by (induction xs) simp_all

lemma depthLoop_ends:
  fixes D :: int
  assumes cfg: "\<not> sortByMaterial cfg" "\<not> cacheFirstBounce cfg"
    and hyp: "\<forall>depth iSelf isect p p'.
               shadePath cfg ext iter depth iSelf stratCount lightMis numLights isect p = Inr p'
               \<longrightarrow> remainingBounces p' = remainingBounces p - 1 \<or> remainingBounces p' = 0"
    and sam: "samplesOK cfg iter stratCount"
    and D0: "0 \<le> D"
  shows "pathBuffersOK s \<Longrightarrow> numStratifiedSamples s = stratCount \<Longrightarrow> \<not> firstBounceCached s \<Longrightarrow>
         n \<le> fst (resolution s) * snd (resolution s) \<Longrightarrow>
         (\<forall>i<n. remainingBounces (dev_paths s ! i) \<le> D - int k) \<Longrightarrow>
         (0 < k \<longrightarrow> (\<forall>i<n. 0 < remainingBounces (dev_paths s ! i))) \<Longrightarrow>
         int k \<le> D + 1 \<Longrightarrow>
         \<exists>ps isects keys d.
           depthLoop cfg ext iter lightMis numLights k n s
           = Some (Inr (s\<lparr>dev_paths := ps, dev_intersections := isects,
                           dev_materialSortBuffer := keys\<rparr>, d))
           \<and> int d \<le> D + 1 \<and> k \<le> d
           \<and> length ps = length (dev_paths s)
           \<and> ((\<forall>depth iSelf isect p p'.
                  shadePath cfg ext iter depth iSelf stratCount lightMis numLights isect p = Inr p'
                  \<longrightarrow> pixelIndex p' = pixelIndex p)
                \<longrightarrow> mset (map pixelIndex ps) = mset (map pixelIndex (dev_paths s)))"
proof (induction "nat (D + 1) - k" arbitrary: k n s)
  case 0
  then have kD: "int k = D + 1" by simp
  have "n = 0"
  proof (rule ccontr)
    assume "n \<noteq> 0"
    then have n0: "0 < n" by simp
    have "0 < k" using kD D0 by (cases k) auto
    then have "0 < remainingBounces (dev_paths s ! 0)" using "0.prems"(6) n0 by simp
    moreover have "remainingBounces (dev_paths s ! 0) \<le> D - int k" using "0.prems"(5) n0 by simp
    ultimately show False using kD by simp
  qed
  then have "depthLoop cfg ext iter lightMis numLights k n s
             = Some (Inr (s\<lparr>dev_paths := dev_paths s, dev_intersections := dev_intersections s,
                             dev_materialSortBuffer := dev_materialSortBuffer s\<rparr>, k))"
    by (subst depthLoop.simps) simp
  then show ?case using kD
    by (intro exI[of _ "dev_paths s"] exI[of _ "dev_intersections s"]
          exI[of _ "dev_materialSortBuffer s"] exI[of _ k]) auto
next
  case (Suc m)
  show ?case
  proof (cases "n = 0")
    case True
    then have "depthLoop cfg ext iter lightMis numLights k n s
             = Some (Inr (s\<lparr>dev_paths := dev_paths s, dev_intersections := dev_intersections s,
                             dev_materialSortBuffer := dev_materialSortBuffer s\<rparr>, k))"
      by (subst depthLoop.simps) simp
    then show ?thesis using Suc.prems(7)
      by (intro exI[of _ "dev_paths s"] exI[of _ "dev_intersections s"]
            exI[of _ "dev_materialSortBuffer s"] exI[of _ k]) auto
  next
    case False
    let ?pc = "fst (resolution s) * snd (resolution s)"
    let ?ps = "dev_paths s"
    have "\<forall>i. \<exists>p'. shadePath cfg ext iter k i stratCount lightMis numLights
                      (snd (intersectPath ext (?ps ! i))) (fst (intersectPath ext (?ps ! i))) = Inr p'"
      using shadePath_ok[OF sam] by blast
    then obtain f where f: "\<And>i. shadePath cfg ext iter k i stratCount lightMis numLights
                      (snd (intersectPath ext (?ps ! i))) (fst (intersectPath ext (?ps ! i))) = Inr (f i)"
      by metis
    let ?l = "map f [0..<n]"
    let ?ps1 = "filter IsRayTravelling ?l @ filter (\<lambda>x. \<not> IsRayTravelling x) ?l @ drop n ?ps"
    let ?n1 = "length (filter IsRayTravelling ?l)"
    obtain isects keys where st:
      "depthStep cfg ext iter lightMis numLights k n s
       = Inr (s\<lparr>dev_paths := ?ps1, dev_intersections := isects, dev_materialSortBuffer := keys\<rparr>, ?n1)"
      "length isects = ?pc" "length keys = ?pc"
      using depthStep_closed[OF Suc.prems(1) Suc.prems(4) cfg Suc.prems(3), of ext iter k
          lightMis numLights f] f Suc.prems(2)
      by auto
    define s1 where "s1 = s\<lparr>dev_paths := ?ps1, dev_intersections := isects,
                             dev_materialSortBuffer := keys\<rparr>"
    have lenps: "length ?ps = ?pc" using Suc.prems(1) by (simp add: pathBuffersOK_def Let_def)
    have len1: "length ?ps1 = length ?ps"
      using sum_length_filter_compl[where P = IsRayTravelling and xs = ?l] Suc.prems(4) lenps by simp
    have ok1: "pathBuffersOK s1"
      using Suc.prems(1) st(2,3) len1 by (simp add: pathBuffersOK_def s1_def Let_def)
    have n1: "?n1 \<le> fst (resolution s1) * snd (resolution s1)"
      using length_filter_le[where P = IsRayTravelling and xs = ?l] Suc.prems(4)
      by (simp add: s1_def)
    have rbf: "\<And>j. remainingBounces (f j) = remainingBounces (?ps ! j) - 1 \<or> remainingBounces (f j) = 0"
      using hyp f intersectPath_fields(1) by metis
    have front: "\<And>i. i < ?n1 \<Longrightarrow> \<exists>j<n. dev_paths s1 ! i = f j \<and> 0 < remainingBounces (f j)"
    proof -
      fix i assume i: "i < ?n1"
      then have "dev_paths s1 ! i = filter IsRayTravelling ?l ! i"
        by (simp add: s1_def nth_append)
      moreover have "filter IsRayTravelling ?l ! i \<in> set (filter IsRayTravelling ?l)"
        using i by (intro nth_mem)
      ultimately show "\<exists>j<n. dev_paths s1 ! i = f j \<and> 0 < remainingBounces (f j)"
        by (auto simp: IsRayTravelling_def)
    qed
    have kD: "int k \<le> D"
    proof (rule ccontr)
      assume "\<not> int k \<le> D"
      then have "nat (D + 1) - k = 0" by simp
      then show False using Suc.hyps(2) by simp
    qed
    have inv1: "\<forall>i<?n1. remainingBounces (dev_paths s1 ! i) \<le> D - int (Suc k)"
    proof (intro allI impI)
      fix i assume "i < ?n1"
      then obtain j where j: "j < n" "dev_paths s1 ! i = f j" "0 < remainingBounces (f j)"
        using front by blast
      then have "remainingBounces (f j) = remainingBounces (?ps ! j) - 1" using rbf[of j] by auto
      then show "remainingBounces (dev_paths s1 ! i) \<le> D - int (Suc k)"
        using Suc.prems(5) j by auto
    qed
    have inv2: "0 < Suc k \<longrightarrow> (\<forall>i<?n1. 0 < remainingBounces (dev_paths s1 ! i))"
    proof (intro allI impI)
      fix i assume "i < ?n1"
      then obtain j where "j < n" "dev_paths s1 ! i = f j" "0 < remainingBounces (f j)"
        using front by blast
      then show "0 < remainingBounces (dev_paths s1 ! i)" by simp
    qed
    have m: "m = nat (D + 1) - Suc k" using Suc.hyps(2) by simp
    have ns1: "numStratifiedSamples s1 = stratCount" "\<not> firstBounceCached s1"
      using Suc.prems(2,3) by (simp_all add: s1_def)
    have kS: "int (Suc k) \<le> D + 1" using kD by simp
    obtain ps isects' keys' d where loop:
      "depthLoop cfg ext iter lightMis numLights (Suc k) ?n1 s1
       = Some (Inr (s1\<lparr>dev_paths := ps, dev_intersections := isects',
                        dev_materialSortBuffer := keys'\<rparr>, d))"
      "int d \<le> D + 1" "Suc k \<le> d" "length ps = length (dev_paths s1)"
      "(\<forall>depth iSelf isect p p'.
           shadePath cfg ext iter depth iSelf stratCount lightMis numLights isect p = Inr p'
           \<longrightarrow> pixelIndex p' = pixelIndex p)
       \<longrightarrow> mset (map pixelIndex ps) = mset (map pixelIndex (dev_paths s1))"
      using Suc.hyps(1)[OF m ok1 ns1 n1 inv1 inv2 kS] by blast
    have unroll: "depthLoop cfg ext iter lightMis numLights k n s
                  = depthLoop cfg ext iter lightMis numLights (Suc k) ?n1 s1"
      using False st(1) by (subst depthLoop.simps) (simp add: s1_def)
    have s1s: "s1\<lparr>dev_paths := ps, dev_intersections := isects', dev_materialSortBuffer := keys'\<rparr>
               = s\<lparr>dev_paths := ps, dev_intersections := isects', dev_materialSortBuffer := keys'\<rparr>"
      by (simp add: s1_def)
    have pix: "(\<forall>depth iSelf isect p p'.
           shadePath cfg ext iter depth iSelf stratCount lightMis numLights isect p = Inr p'
           \<longrightarrow> pixelIndex p' = pixelIndex p)
       \<longrightarrow> mset (map pixelIndex ps) = mset (map pixelIndex ?ps)"
    proof
      assume pres: "\<forall>depth iSelf isect p p'.
           shadePath cfg ext iter depth iSelf stratCount lightMis numLights isect p = Inr p'
           \<longrightarrow> pixelIndex p' = pixelIndex p"
      have pf: "\<And>j. pixelIndex (f j) = pixelIndex (?ps ! j)"
        using pres f intersectPath_fields(2) by metis
      have B: "map pixelIndex ?l = map pixelIndex (take n ?ps)"
        using Suc.prems(4) lenps by (intro nth_equalityI) (simp_all add: pf)
      have A: "mset (map pixelIndex ?ps1)
               = mset (map pixelIndex ?l) + mset (map pixelIndex (drop n ?ps))"
        by (rule mset_map_partitioned)
      have C: "mset (map pixelIndex (take n ?ps)) + mset (map pixelIndex (drop n ?ps))
               = mset (map pixelIndex ?ps)"
        by (metis append_take_drop_id map_append mset_append)
      have E: "dev_paths s1 = ?ps1" by (simp add: s1_def)
      have "mset (map pixelIndex (dev_paths s1)) = mset (map pixelIndex ?ps)"
        by (simp only: E A B C)
      then show "mset (map pixelIndex ps) = mset (map pixelIndex ?ps)"
        using loop(5) pres by simp
    qed
    have lps: "length ps = length ?ps" using loop(4) len1 by (simp add: s1_def)
    show ?thesis
      using unroll loop(1,2,3) s1s pix lps
      by (intro exI[of _ ps] exI[of _ isects'] exI[of _ keys'] exI[of _ d]) auto
  qed
qed

text \<open>
  C5. With the switches for sorting and caching as compiled, path buffers of one slot per
  pixel and a usable sample pool: if every path starts with \<open>remainingBounces = D \<ge> 0\<close>
  and every shading step either takes one from \<open>remainingBounces\<close> or sets it to zero, the
  loop over the depths returns, which it does when the number of active paths is zero,
  after at most \<open>D + 1\<close> rounds; and no round makes the number of active paths larger.
\<close>

theorem C5_depth_loop_ends:
  assumes "pathBuffersOK s" "\<not> sortByMaterial cfg" "\<not> cacheFirstBounce cfg"
    and "\<not> firstBounceCached s"
    and "samplesOK cfg iter (numStratifiedSamples s)"
    and "0 \<le> D" "\<forall>p\<in>set (dev_paths s). remainingBounces p = D"
    and "\<forall>depth iSelf isect p p'.
           shadePath cfg ext iter depth iSelf (numStratifiedSamples s) lightMis numLights isect p
             = Inr p'
           \<longrightarrow> remainingBounces p' = remainingBounces p - 1 \<or> remainingBounces p' = 0"
  shows "(\<exists>s' d. depthLoop cfg ext iter lightMis numLights 0
                   (fst (resolution s) * snd (resolution s)) s = Some (Inr (s', d))
                 \<and> int d \<le> D + 1)
       \<and> (\<forall>depth n s1 s2 n'.
             depthStep cfg ext iter lightMis numLights depth n s1 = Inr (s2, n') \<longrightarrow> n' \<le> n)"
proof -
  have len: "length (dev_paths s) = fst (resolution s) * snd (resolution s)"
    using assms(1) by (simp add: pathBuffersOK_def Let_def)
  have inv: "\<forall>i<fst (resolution s) * snd (resolution s).
               remainingBounces (dev_paths s ! i) \<le> D - int 0"
    using assms(7) len by simp
  have "\<exists>ps isects keys d.
           depthLoop cfg ext iter lightMis numLights 0 (fst (resolution s) * snd (resolution s)) s
           = Some (Inr (s\<lparr>dev_paths := ps, dev_intersections := isects,
                           dev_materialSortBuffer := keys\<rparr>, d))
           \<and> int d \<le> D + 1 \<and> 0 \<le> d
           \<and> length ps = length (dev_paths s)
           \<and> ((\<forall>depth iSelf isect p p'.
                  shadePath cfg ext iter depth iSelf (numStratifiedSamples s) lightMis numLights
                    isect p = Inr p'
                  \<longrightarrow> pixelIndex p' = pixelIndex p)
                \<longrightarrow> mset (map pixelIndex ps) = mset (map pixelIndex (dev_paths s)))"
    using assms(6)
    by (intro depthLoop_ends[OF assms(2,3,8,5,6) assms(1) refl assms(4) _ inv]) simp_all
  then show ?thesis
    using depthStep_count by blast
qed

lemma exampleExternals_shading:
  "shadePath cfg (exampleExternals hit h) iter depth iSelf stratCount lightMis numLights isect p = Inr p'
   \<Longrightarrow> remainingBounces p' = remainingBounces p - 1 \<or> remainingBounces p' = 0"
  by (auto simp: shadePath_def exampleExternals_def Let_def split: if_splits sum.splits)

theorem C5_depth_loop_ends_witness:
  "pathBuffersOK exampleState \<and> \<not> sortByMaterial compiledConfig
   \<and> \<not> cacheFirstBounce compiledConfig \<and> \<not> firstBounceCached exampleState
   \<and> samplesOK compiledConfig 1 (numStratifiedSamples exampleState)
   \<and> (0::int) \<le> 2
   \<and> (\<exists>s' d. depthLoop compiledConfig (exampleExternals 0 exampleHash) 1 0 1 0
                 (fst (resolution exampleState) * snd (resolution exampleState)) exampleState
               = Some (Inr (s', d))
             \<and> int d \<le> 2 + 1)"
proof -
  have ok: "pathBuffersOK exampleState"
    by (simp add: pathBuffersOK_def exampleState_def)
  have cfg: "\<not> sortByMaterial compiledConfig" "\<not> cacheFirstBounce compiledConfig"
    by (simp_all add: compiledConfig_def)
  have nc: "\<not> firstBounceCached exampleState" by (simp add: exampleState_def)
  have sam: "samplesOK compiledConfig 1 (numStratifiedSamples exampleState)"
    by (simp add: samplesOK_def compiledConfig_def exampleState_def)
  have rb: "\<forall>p\<in>set (dev_paths exampleState). remainingBounces p = 2"
    by (simp add: exampleState_def examplePath_def)
  have sh: "\<forall>depth iSelf isect p p'.
           shadePath compiledConfig (exampleExternals 0 exampleHash) 1 depth iSelf
             (numStratifiedSamples exampleState) 0 1 isect p = Inr p'
           \<longrightarrow> remainingBounces p' = remainingBounces p - 1 \<or> remainingBounces p' = 0"
    using exampleExternals_shading by blast
  show ?thesis
    using C5_depth_loop_ends[OF ok cfg nc sam _ rb sh] ok cfg nc sam by simp
qed

subsection \<open>C7: the final gather\<close>

lemma sums_snoc:
  fixes base :: "'a::comm_monoid_add list"
  assumes "key p < length base"
  shows "map (\<lambda>i. base ! i + sum_list (map g (filter (\<lambda>q. key q = i) (ps @ [p])))) [0..<length base]
         = (map (\<lambda>i. base ! i + sum_list (map g (filter (\<lambda>q. key q = i) ps))) [0..<length base])
             [key p := (map (\<lambda>i. base ! i + sum_list (map g (filter (\<lambda>q. key q = i) ps)))
                          [0..<length base]) ! key p + g p]"
  using assms by (intro nth_equalityI) (auto simp: nth_list_update add.assoc)

lemma gatherSums_lengths:
  "gatherSums (direct, directSqr, indirect, indirectSqr) ps = (d, dq, i, iq) \<Longrightarrow>
   length d = length direct \<and> length dq = length directSqr
   \<and> length i = length indirect \<and> length iq = length indirectSqr"
  by (auto simp: gatherSums_def)

lemma gatherSums_Nil:
  "gatherSums (direct, directSqr, indirect, indirectSqr) []
   = (direct, directSqr, indirect, indirectSqr)"
  by (simp add: gatherSums_def map_nth)

lemma finalGather_step:
  assumes lens: "length direct = len" "length directSqr = len" "length indirect = len"
      "length indirectSqr = len"
    and j: "j < nPaths" "j < length paths" "pixelIndex (paths ! j) < len"
  shows "finalGather nPaths paths j
           (gatherSums (direct, directSqr, indirect, indirectSqr) (take j paths))
         = Inr (gatherSums (direct, directSqr, indirect, indirectSqr) (take (Suc j) paths))"
proof -
  let ?p = "paths ! j"
  have tk: "take (Suc j) paths = take j paths @ [?p]"
    using j(2) by (simp add: take_Suc_conv_app_nth)
  have k: "pixelIndex ?p < length direct" "pixelIndex ?p < length directSqr"
      "pixelIndex ?p < length indirect" "pixelIndex ?p < length indirectSqr"
    using lens j(3) by simp_all
  show ?thesis
    unfolding tk
    using j(1,2) k
      sums_snoc[where key = pixelIndex and p = ?p and base = direct and g = directAccum
        and ps = "take j paths"]
      sums_snoc[where key = pixelIndex and p = ?p and base = directSqr
        and g = "\<lambda>p. length2 (directAccum p)" and ps = "take j paths"]
      sums_snoc[where key = pixelIndex and p = ?p and base = indirect and g = indirectAccum
        and ps = "take j paths"]
      sums_snoc[where key = pixelIndex and p = ?p and base = indirectSqr
        and g = "\<lambda>p. length2 (indirectAccum p)" and ps = "take j paths"]
    by (simp add: finalGather_def gatherSums_def readAt_def Let_def plus_vec3_def[symmetric])
qed

lemma finalGather_launch:
  assumes lens: "length direct = len" "length directSqr = len" "length indirect = len"
      "length indirectSqr = len"
    and n: "nPaths \<le> length paths" "nPaths \<le> m"
    and idx: "\<forall>i<nPaths. pixelIndex (paths ! i) < len"
  shows "launch (finalGather nPaths paths) [0..<m] (direct, directSqr, indirect, indirectSqr)
         = Inr (gatherSums (direct, directSqr, indirect, indirectSqr) (take nPaths paths))"
proof -
  let ?st0 = "(direct, directSqr, indirect, indirectSqr)"
  let ?P = "\<lambda>j st. st = gatherSums ?st0 (take (min j nPaths) paths)"
  have "\<exists>s'. forEach (finalGather nPaths paths) [0..<m] ?st0 = Inr s' \<and> ?P m s'"
  proof (rule forEach_upt_invariant[where P = ?P])
    show "?P 0 ?st0" by (simp add: gatherSums_Nil)
  next
    fix j st assume j: "j < m" and st: "?P j st"
    show "\<exists>s'. finalGather nPaths paths j st = Inr s' \<and> ?P (Suc j) s'"
    proof (cases "j < nPaths")
      case False
      then have "min j nPaths = nPaths" "min (Suc j) nPaths = nPaths" by simp_all
      then show ?thesis using st False by (simp add: finalGather_def split: prod.splits)
    next
      case True
      then have mj: "min j nPaths = j" "min (Suc j) nPaths = Suc j" by simp_all
      have "finalGather nPaths paths j (gatherSums ?st0 (take j paths))
            = Inr (gatherSums ?st0 (take (Suc j) paths))"
        using True n(1) idx by (intro finalGather_step[OF lens]) auto
      then show ?thesis using st by (simp add: mj)
    qed
  qed
  then obtain s' where "forEach (finalGather nPaths paths) [0..<m] ?st0 = Inr s'"
      "s' = gatherSums ?st0 (take (min m nPaths) paths)"
    by blast
  moreover have "min m nPaths = nPaths" using n(2) by simp
  ultimately show ?thesis by simp
qed

lemma sum_list_filter_mset:
  fixes g :: "'b \<Rightarrow> 'a::comm_monoid_add"
  shows "sum_list (map g (filter P xs)) = sum_mset (image_mset g (filter_mset P (mset xs)))"
  by (metis mset_filter mset_map sum_mset_sum_list)

lemma gatherSums_mset:
  assumes "mset qs = mset ps"
  shows "gatherSums st qs = gatherSums st ps"
  using assms by (cases st) (simp add: gatherSums_def sum_list_filter_mset)

lemma thrust_sort_by_key_mset:
  "length keys = length vals \<Longrightarrow> mset (snd (thrust_sort_by_key keys vals)) = mset vals"
proof -
  assume l: "length keys = length vals"
  have "mset (map snd (sort_key fst (zip keys vals))) = mset (map snd (zip keys vals))"
    by (metis mset_map mset_sort)
  then show ?thesis using l by (simp add: thrust_sort_by_key_def)
qed

text \<open>
  C7. The final gather adds the direct and the indirect radiance of every slot, and their
  squared lengths, to the sums of the pixel the slot names, whatever its
  \<open>remainingBounces\<close> (\<open>gatherSums\<close>); the sums that result are the same for every
  permutation of the slots. Compaction and sorting permute whole path records, so each
  record keeps its \<open>pixelIndex\<close>.
\<close>

theorem C7_gather_order_independent:
  assumes "mset qs = mset ps"
    and "length direct = len" "length directSqr = len" "length indirect = len"
      "length indirectSqr = len"
    and "\<forall>p\<in>set ps. pixelIndex p < len"
  shows "launch (finalGather (length ps) ps) (grid1D (ceilDiv (length ps) 128) 128)
           (direct, directSqr, indirect, indirectSqr)
         = Inr (gatherSums (direct, directSqr, indirect, indirectSqr) ps)
       \<and> launch (finalGather (length qs) qs) (grid1D (ceilDiv (length qs) 128) 128)
           (direct, directSqr, indirect, indirectSqr)
         = Inr (gatherSums (direct, directSqr, indirect, indirectSqr) ps)
       \<and> mset (fst (thrust_partition IsRayTravelling ps)) = mset ps
       \<and> (length keys = length ps \<longrightarrow> mset (snd (thrust_sort_by_key keys ps)) = mset ps)"
proof -
  have run: "\<And>xs. \<forall>p\<in>set xs. pixelIndex p < len \<Longrightarrow>
      launch (finalGather (length xs) xs) (grid1D (ceilDiv (length xs) 128) 128)
        (direct, directSqr, indirect, indirectSqr)
      = Inr (gatherSums (direct, directSqr, indirect, indirectSqr) xs)"
  proof -
    fix xs :: "PathSegment list"
    assume a: "\<forall>p\<in>set xs. pixelIndex p < len"
    have "launch (finalGather (length xs) xs) [0..<ceilDiv (length xs) 128 * 128]
            (direct, directSqr, indirect, indirectSqr)
          = Inr (gatherSums (direct, directSqr, indirect, indirectSqr) (take (length xs) xs))"
      using a by (intro finalGather_launch[OF assms(2-5)]) (simp_all add: ceilDiv_covers)
    then show "launch (finalGather (length xs) xs) (grid1D (ceilDiv (length xs) 128) 128)
        (direct, directSqr, indirect, indirectSqr)
      = Inr (gatherSums (direct, directSqr, indirect, indirectSqr) xs)"
      by (simp add: grid1D_def)
  qed
  have qset: "\<forall>p\<in>set qs. pixelIndex p < len"
    using assms(1,6) by (metis mset_eq_setD)
  show ?thesis
    using run[OF assms(6)] run[OF qset] gatherSums_mset[OF assms(1)]
    by (simp add: thrust_partition_mset thrust_sort_by_key_mset)
qed

theorem C7_gather_order_independent_witness:
  "mset [examplePath\<lparr>pixelIndex := 1, directAccum := Vec3 1 2 3\<rparr>, examplePath]
     = mset [examplePath, examplePath\<lparr>pixelIndex := 1, directAccum := Vec3 1 2 3\<rparr>]
   \<and> length [vec3s 0, vec3s 0] = 2 \<and> length [0::real, 0] = 2
   \<and> launch (finalGather 2 [examplePath\<lparr>pixelIndex := 1, directAccum := Vec3 1 2 3\<rparr>, examplePath])
         (grid1D (ceilDiv 2 128) 128) ([vec3s 0, vec3s 0], [0, 0], [vec3s 0, vec3s 0], [0, 0])
       = launch (finalGather 2 [examplePath, examplePath\<lparr>pixelIndex := 1, directAccum := Vec3 1 2 3\<rparr>])
         (grid1D (ceilDiv 2 128) 128) ([vec3s 0, vec3s 0], [0, 0], [vec3s 0, vec3s 0], [0, 0])"
proof -
  have m: "mset [examplePath\<lparr>pixelIndex := 1, directAccum := Vec3 1 2 3\<rparr>, examplePath]
     = mset [examplePath, examplePath\<lparr>pixelIndex := 1, directAccum := Vec3 1 2 3\<rparr>]"
    by simp
  have idx: "\<forall>p\<in>set [examplePath, examplePath\<lparr>pixelIndex := 1, directAccum := Vec3 1 2 3\<rparr>].
               pixelIndex p < 2"
    by (simp add: examplePath_def)
  show ?thesis
    using C7_gather_order_independent[OF m _ _ _ _ idx, of "[vec3s 0, vec3s 0]" "[0, 0]"
            "[vec3s 0, vec3s 0]" "[0, 0]" "[]"]
    by (simp add: numeral_2_eq_2)
qed

subsection \<open>C6: a scene that every ray misses\<close>

lemma ceilDiv_dvd: "b dvd n \<Longrightarrow> 0 < b \<Longrightarrow> ceilDiv n b * b = n"
proof -
  assume d: "b dvd n" and b: "0 < b"
  then obtain q where n: "n = b * q" by (auto simp: dvd_def)
  have r: "(b - 1) div b = 0" using b by simp
  have "(b - 1 + q * b) div b = q + (b - 1) div b"
    using b by (intro div_mult_self1) simp
  then have "(b - 1 + q * b) div b = q" using r by simp
  moreover have "n + b - 1 = b - 1 + q * b" using b n by (simp add: mult.commute)
  ultimately have "ceilDiv n b = q" by (simp only: ceilDiv_def)
  then show ?thesis using n by (simp add: mult.commute)
qed

lemma generateRay_launch:
  assumes dv: "8 dvd w" "8 dvd h"
    and len: "length paths = w * h"
    and sam: "samplesOK cfg iter numSamples"
  shows "\<exists>gen. launch (generateRayFromCamera cfg ext (w, h) iter depthLimit numSamples)
                 (grid2D (ceilDiv w 8, ceilDiv h 8) (8, 8)) paths = Inr gen
           \<and> length gen = w * h
           \<and> (\<forall>i<w * h. pixelIndex (gen ! i) = i \<and> directAccum (gen ! i) = vec3s 0
                \<and> indirectAccum (gen ! i) = vec3s 0 \<and> remainingBounces (gen ! i) = depthLimit)"
proof -
  have "\<forall>i. \<exists>slot. poolSlot (stratifiedSampleIndex cfg ext (word_of_int iter) (word_of_nat i)
                           (word_of_int numSamples)) numSamples = Inr slot"
    using poolSlot_ok[OF sam] by blast
  then obtain sl where sl: "\<And>i. poolSlot (stratifiedSampleIndex cfg ext (word_of_int iter)
                           (word_of_nat i) (word_of_int numSamples)) numSamples = Inr (sl i)"
    by metis
  let ?f = "\<lambda>t. \<lparr>ray = primaryRay ext iter (fst t) (snd t) (fst t + snd t * w)
                          (camSamplePool ext (sl (fst t + snd t * w))),
                  colorThroughput = vec3s 1, directAccum = vec3s 0, indirectAccum = vec3s 0,
                  pixelIndex = fst t + snd t * w, lastGeom = - 1,
                  remainingBounces = depthLimit,
                  prevBounceNoMis = True, prevBounceSpecular = True, indirectIllum = False\<rparr>"
  have cw: "ceilDiv w 8 * 8 = w" "ceilDiv h 8 * 8 = h" using dv by (simp_all add: ceilDiv_dvd)
  have run: "launch (generateRayFromCamera cfg ext (w, h) iter depthLimit numSamples)
               (grid2D (ceilDiv w 8, ceilDiv h 8) (8, 8)) paths
             = Inr (map (\<lambda>i. ?f (i mod w, i div w)) [0..<w * h])"
  proof (rule launch_pixels2D)
    show "\<And>x y b. (x, y) \<in> set (grid2D (ceilDiv w 8, ceilDiv h 8) (8, 8)) \<Longrightarrow> w \<le> x \<or> h \<le> y \<Longrightarrow>
            generateRayFromCamera cfg ext (w, h) iter depthLimit numSamples (x, y) b = Inr b"
      using cw by (auto simp: grid2D_def)
    show "\<And>x y b. x < w \<Longrightarrow> y < h \<Longrightarrow> y * w + x < length b \<Longrightarrow>
            generateRayFromCamera cfg ext (w, h) iter depthLimit numSamples (x, y) b
            = Inr (b[y * w + x := ?f (x, y)])"
      by (simp add: generateRayFromCamera_def sl writeAt_def Let_def add.commute)
    show "length paths = w * h" by (rule len)
    show "w \<le> fst (ceilDiv w 8, ceilDiv h 8) * fst (8::nat, 8::nat)" using cw by simp
    show "h \<le> snd (ceilDiv w 8, ceilDiv h 8) * snd (8::nat, 8::nat)" using cw by simp
  qed
  have "\<And>i. i < w * h \<Longrightarrow> i mod w + i div w * w = i"
    by (simp add: add.commute)
  then show ?thesis using run by simp
qed

lemma intersectPath_miss:
  assumes "fst (traverseAABBTree ext (ray p) (lastGeom p)) = - 1"
  shows "materialId (snd (intersectPath ext p)) = - 1"
  using assms by (auto simp: intersectPath_def Let_def split: prod.splits)

lemma sum_list_all_zero:
  fixes g :: "'b \<Rightarrow> 'a::monoid_add"
  shows "(\<And>x. x \<in> set xs \<Longrightarrow> g x = 0) \<Longrightarrow> sum_list (map g xs) = 0"
  by (induction xs) simp_all

lemma gatherSums_zero:
  assumes "\<forall>p\<in>set ps. directAccum p = vec3s 0 \<and> indirectAccum p = vec3s 0"
  shows "gatherSums st ps = st"
proof -
  have da: "\<And>x. x \<in> set ps \<Longrightarrow> directAccum x = 0" "\<And>x. x \<in> set ps \<Longrightarrow> indirectAccum x = 0"
    using assms by (simp_all add: zero_vec3_def)
  have dl: "\<And>x. x \<in> set ps \<Longrightarrow> length2 (directAccum x) = 0"
      "\<And>x. x \<in> set ps \<Longrightarrow> length2 (indirectAccum x) = 0"
    using assms by (simp_all add: length2_def vec3s_def)
  have z1: "\<And>i. sum_list (map directAccum (filter (\<lambda>p. pixelIndex p = i) ps)) = 0"
    by (rule sum_list_all_zero) (simp add: da)
  have z2: "\<And>i. sum_list (map indirectAccum (filter (\<lambda>p. pixelIndex p = i) ps)) = 0"
    by (rule sum_list_all_zero) (simp add: da)
  have z3: "\<And>i. sum_list (map (\<lambda>p. length2 (directAccum p)) (filter (\<lambda>p. pixelIndex p = i) ps)) = 0"
    by (rule sum_list_all_zero) (simp only: dl set_filter mem_Collect_eq)
  have z4: "\<And>i. sum_list (map (\<lambda>p. length2 (indirectAccum p)) (filter (\<lambda>p. pixelIndex p = i) ps)) = 0"
    by (rule sum_list_all_zero) (simp only: dl set_filter mem_Collect_eq)
  note z = z1 z2 z3 z4
  show ?thesis
    by (cases st) (simp add: gatherSums_def z map_nth)
qed

lemma shade_miss:
  assumes "iSelf < numPaths" "iSelf < length intersections" "iSelf < length paths"
    and "materialId (intersections ! iSelf) = - 1"
  shows "shade cfg ext iter depth numPaths intersections stratCount lightMis numLights iSelf paths
         = Inr (paths[iSelf := (paths ! iSelf)\<lparr>colorThroughput := vec3s 0, remainingBounces := 0\<rparr>])"
  using assms by (simp add: shade_def readAt_def writeAt_def shadePath_miss)

lemma pathtrace_all_miss:
  assumes ok: "pathBuffersOK s" "denoiserBuffersOK s"
    and dv: "8 dvd fst (resolution s)" "8 dvd snd (resolution s)"
    and cfg: "\<not> sortByMaterial cfg" "\<not> cacheFirstBounce cfg" "\<not> firstBounceCached s"
    and sam: "samplesOK cfg iter (numStratifiedSamples s)"
    and miss: "\<forall>r g. fst (traverseAABBTree ext r g) = - 1"
  shows "\<exists>gen s1 d s'.
           launch (generateRayFromCamera cfg ext (resolution s) iter (traceDepth s)
                     (numStratifiedSamples s))
             (grid2D (ceilDiv (fst (resolution s)) 8, ceilDiv (snd (resolution s)) 8) (8, 8))
             (dev_paths s) = Inr gen
           \<and> depthLoop cfg ext iter lightMis numLights 0
                 (fst (resolution s) * snd (resolution s)) (s\<lparr>dev_paths := gen\<rparr>)
               = Some (Inr (s1, d))
           \<and> d \<le> 1
           \<and> (0 < fst (resolution s) * snd (resolution s) \<longrightarrow>
                 (\<forall>p\<in>set (dev_paths s1). remainingBounces p = 0 \<and> colorThroughput p = vec3s 0))
           \<and> pathtrace cfg ext frame iter lightMis numLights s = Some (Inr s')
           \<and> accumOf s' = accumOf s"
proof -
  let ?w = "fst (resolution s)" and ?h = "snd (resolution s)"
  let ?pc = "?w * ?h"
  have lenp: "length (dev_paths s) = ?pc" using ok(1) by (simp add: pathBuffersOK_def Let_def)
  obtain gen where gen:
    "launch (generateRayFromCamera cfg ext (?w, ?h) iter (traceDepth s) (numStratifiedSamples s))
       (grid2D (ceilDiv ?w 8, ceilDiv ?h 8) (8, 8)) (dev_paths s) = Inr gen"
    "length gen = ?pc"
    "\<forall>i<?pc. pixelIndex (gen ! i) = i \<and> directAccum (gen ! i) = vec3s 0
        \<and> indirectAccum (gen ! i) = vec3s 0 \<and> remainingBounces (gen ! i) = traceDepth s"
    using generateRay_launch[OF dv lenp sam, of ext "traceDepth s"] by blast
  define s0 where "s0 = s\<lparr>dev_paths := gen\<rparr>"
  have ok0: "pathBuffersOK s0" using ok(1) gen(2) by (simp add: pathBuffersOK_def s0_def Let_def)
  let ?f = "\<lambda>i::nat. (fst (intersectPath ext (gen ! i)))\<lparr>colorThroughput := vec3s 0,
                                                         remainingBounces := 0\<rparr>"
  have loop: "\<exists>ps isects keys d.
      depthLoop cfg ext iter lightMis numLights 0 ?pc s0
      = Some (Inr (s\<lparr>dev_paths := ps, dev_intersections := isects,
                      dev_materialSortBuffer := keys\<rparr>, d))
      \<and> d \<le> 1 \<and> length ps = ?pc
      \<and> (\<forall>i<?pc. pixelIndex (ps ! i) = i \<and> directAccum (ps ! i) = vec3s 0
            \<and> indirectAccum (ps ! i) = vec3s 0)
      \<and> (0 < ?pc \<longrightarrow> (\<forall>p\<in>set ps. remainingBounces p = 0 \<and> colorThroughput p = vec3s 0))"
  proof (cases "?pc = 0")
    case True
    have "depthLoop cfg ext iter lightMis numLights 0 ?pc s0
          = Some (Inr (s\<lparr>dev_paths := gen, dev_intersections := dev_intersections s,
                          dev_materialSortBuffer := dev_materialSortBuffer s\<rparr>, 0))"
      using True by (subst depthLoop.simps) (auto simp: s0_def)
    moreover have "\<forall>i<?pc. pixelIndex (gen ! i) = i \<and> directAccum (gen ! i) = vec3s 0
            \<and> indirectAccum (gen ! i) = vec3s 0"
      using gen(3) by blast
    moreover have "0 < ?pc \<longrightarrow> (\<forall>p\<in>set gen. remainingBounces p = 0 \<and> colorThroughput p = vec3s 0)"
      using True by (metis less_irrefl)
    moreover have "(0::nat) \<le> 1" by simp
    ultimately show ?thesis
      using gen(2)
      by (intro exI[of _ gen] exI[of _ "dev_intersections s"]
            exI[of _ "dev_materialSortBuffer s"] exI[of _ 0] conjI)
  next
    case False
    have sh: "\<And>i. i < ?pc \<Longrightarrow>
               shadePath cfg ext iter 0 i (numStratifiedSamples s0) lightMis numLights
                 (snd (intersectPath ext (dev_paths s0 ! i)))
                 (fst (intersectPath ext (dev_paths s0 ! i)))
               = Inr (?f i)"
      using miss by (simp add: s0_def shadePath_miss intersectPath_miss)
    have res0: "fst (resolution s0) * snd (resolution s0) = ?pc" by (simp add: s0_def)
    have nc0: "\<not> firstBounceCached s0" using cfg(3) by (simp add: s0_def)
    obtain isects keys where st:
      "depthStep cfg ext iter lightMis numLights 0 ?pc s0
       = Inr (s0\<lparr>dev_paths := filter IsRayTravelling (map ?f [0..<?pc])
                                  @ filter (\<lambda>x. \<not> IsRayTravelling x) (map ?f [0..<?pc])
                                  @ drop ?pc (dev_paths s0),
                  dev_intersections := isects, dev_materialSortBuffer := keys\<rparr>,
              length (filter IsRayTravelling (map ?f [0..<?pc])))"
      using depthStep_closed[OF ok0 _ cfg(1,2) nc0, of ?pc ext iter 0 lightMis numLights ?f]
        sh res0
      by auto
    have nofront: "filter IsRayTravelling (map ?f [0..<?pc]) = []"
      by (simp add: IsRayTravelling_def filter_empty_conv)
    have allback: "filter (\<lambda>x. \<not> IsRayTravelling x) (map ?f [0..<?pc]) = map ?f [0..<?pc]"
      by (simp add: IsRayTravelling_def)
    have dr: "drop ?pc (dev_paths s0) = []" using gen(2) by (simp add: s0_def)
    have st': "depthStep cfg ext iter lightMis numLights 0 ?pc s0
       = Inr (s\<lparr>dev_paths := map ?f [0..<?pc], dev_intersections := isects,
                 dev_materialSortBuffer := keys\<rparr>, 0)"
      unfolding st nofront allback dr by (simp add: s0_def)
    have "depthLoop cfg ext iter lightMis numLights 0 ?pc s0
          = depthLoop cfg ext iter lightMis numLights (Suc 0) 0
              (s\<lparr>dev_paths := map ?f [0..<?pc], dev_intersections := isects,
                 dev_materialSortBuffer := keys\<rparr>)"
      using False st' by (subst depthLoop.simps) simp
    also have "\<dots> = Some (Inr (s\<lparr>dev_paths := map ?f [0..<?pc], dev_intersections := isects,
                 dev_materialSortBuffer := keys\<rparr>, Suc 0))"
      by (subst depthLoop.simps) simp
    finally have run: "depthLoop cfg ext iter lightMis numLights 0 ?pc s0
          = Some (Inr (s\<lparr>dev_paths := map ?f [0..<?pc], dev_intersections := isects,
                 dev_materialSortBuffer := keys\<rparr>, Suc 0))" .
    have fields: "\<forall>i<?pc. pixelIndex (map ?f [0..<?pc] ! i) = i
            \<and> directAccum (map ?f [0..<?pc] ! i) = vec3s 0
            \<and> indirectAccum (map ?f [0..<?pc] ! i) = vec3s 0"
      using gen(3) by (simp add: intersectPath_fields)
    have dead: "\<forall>p\<in>set (map ?f [0..<?pc]). remainingBounces p = 0 \<and> colorThroughput p = vec3s 0"
      by auto
    show ?thesis
      using run fields dead
      by (intro exI[of _ "map ?f [0..<?pc]"] exI[of _ isects] exI[of _ keys] exI[of _ "Suc 0"])
         simp
  qed
  from loop show ?thesis
  proof (elim exE conjE)
  fix ps isects keys d
  assume lp:
      "depthLoop cfg ext iter lightMis numLights 0 ?pc s0
       = Some (Inr (s\<lparr>dev_paths := ps, dev_intersections := isects,
                       dev_materialSortBuffer := keys\<rparr>, d))"
      "d \<le> 1" "length ps = ?pc"
      "\<forall>i<?pc. pixelIndex (ps ! i) = i \<and> directAccum (ps ! i) = vec3s 0
            \<and> indirectAccum (ps ! i) = vec3s 0"
      "0 < ?pc \<longrightarrow> (\<forall>p\<in>set ps. remainingBounces p = 0 \<and> colorThroughput p = vec3s 0)"
  define s1 where "s1 = s\<lparr>dev_paths := ps, dev_intersections := isects,
                           dev_materialSortBuffer := keys\<rparr>"
  have lens: "length (vecMem s (dev_directIllum s)) = ?pc"
      "length (floatMem s (dev_directIllumSqr s)) = ?pc"
      "length (vecMem s (dev_indirectIllum s)) = ?pc"
      "length (floatMem s (dev_indirectIllumSqr s)) = ?pc"
    using ok(2) by (simp_all add: denoiserBuffersOK_def Let_def)
  have idx: "\<forall>i<?pc. pixelIndex (ps ! i) < ?pc" using lp(4) by simp
  have zero: "\<forall>p\<in>set ps. directAccum p = vec3s 0 \<and> indirectAccum p = vec3s 0"
    using lp(3,4) by (auto simp: in_set_conv_nth)
  have fg: "launch (finalGather ?pc ps) (grid1D (ceilDiv ?pc 128) 128) (accumOf s)
            = Inr (accumOf s)"
  proof -
    have "launch (finalGather ?pc ps) [0..<ceilDiv ?pc 128 * 128]
            (vecMem s (dev_directIllum s), floatMem s (dev_directIllumSqr s),
             vecMem s (dev_indirectIllum s), floatMem s (dev_indirectIllumSqr s))
          = Inr (gatherSums (vecMem s (dev_directIllum s), floatMem s (dev_directIllumSqr s),
                   vecMem s (dev_indirectIllum s), floatMem s (dev_indirectIllumSqr s))
                   (take ?pc ps))"
      using lp(3) idx by (intro finalGather_launch[OF lens]) (simp_all add: ceilDiv_covers)
    then show ?thesis
      using lp(3) gatherSums_zero[OF zero] by (simp add: grid1D_def accumOf_def)
  qed
  have pt: "pathtrace cfg ext frame iter lightMis numLights s = Some (Inr s1)"
    using gen(1) lp(1) fg
    by (simp add: pathtrace_def Let_def s0_def[symmetric] s1_def[symmetric] accumOf_def)
       (simp add: s1_def)
  have "accumOf s1 = accumOf s" by (simp add: accumOf_def s1_def)
  then show ?thesis
    using gen(1) lp(1,2,5) pt
    by (intro exI[of _ gen] exI[of _ s1] exI[of _ d] exI[of _ s1])
       (simp add: s0_def s1_def)
  qed
qed

text \<open>
  C6 at resolution 1 by 1, with the buffers as allocated (one slot each), the switches as
  compiled and a traversal that finds no geometry for any ray: the launch of the
  camera-ray kernel in \<^verbatim>\<open>pathtrace\<close> has a thread whose x is in range and whose y is not,
  the guard of line 198 lets it through, and it writes slot 1 of the one-slot array of
  paths. The run ends there, before any path is shaded or gathered. For a resolution whose
  sides are multiples of 8 no such thread exists, and \<open>pathtrace_all_miss\<close> gives what
  the specification states.
\<close>

theorem C6_all_miss_failing_input:
  "pathBuffersOK smallState \<and> denoiserBuffersOK smallState
   \<and> samplesOK compiledConfig 1 (numStratifiedSamples smallState)
   \<and> (\<forall>r g. fst (traverseAABBTree (exampleExternals (- 1) exampleHash) r g) = - 1)
   \<and> pathtrace compiledConfig (exampleExternals (- 1) exampleHash) 0 1 0 1 smallState
     = Some (Inl OutOfBounds)"
proof -
  have ok: "pathBuffersOK smallState"
    by (simp add: pathBuffersOK_def smallState_def)
  have dk: "denoiserBuffersOK smallState"
    by (simp add: denoiserBuffersOK_def smallState_def)
  have sam: "samplesOK compiledConfig 1 (numStratifiedSamples smallState)"
    by (simp add: samplesOK_def compiledConfig_def smallState_def)
  have miss: "\<forall>r g. fst (traverseAABBTree (exampleExternals (- 1) exampleHash) r g) = - 1"
    by (simp add: exampleExternals_def)
  have gen: "launch (generateRayFromCamera compiledConfig (exampleExternals (- 1) exampleHash)
                      (1, 1) 1 2 4)
               (grid2D (ceilDiv 1 8, ceilDiv 1 8) (8, 8)) [examplePath] = Inl OutOfBounds"
    by (simp add: generateRayFromCamera_def poolSlot_def stratifiedSampleIndex_def
        compiledConfig_def exampleExternals_def exampleHash_def writeAt_def grid2D_def
        ceilDiv_def upt_rec)
  have run: "pathtrace compiledConfig (exampleExternals (- 1) exampleHash) 0 1 0 1 smallState
             = Some (Inl OutOfBounds)"
    using gen by (simp add: pathtrace_def smallState_def)
  show ?thesis using ok dk sam miss run by simp
qed

subsection \<open>C4: one level of the filter\<close>

lemma specWeightedAverage_code:
  "specWeightedAverage f variance p = weightedAverage (f\<lparr>passStddev := variance\<rparr>) p"
proof -
  have t: "\<And>t. specTapWeight f variance p t = tapWeight (f\<lparr>passStddev := variance\<rparr>) p t"
    by (simp add: specTapWeight_def tapWeight_def specColorTerm_def colorTerm_def normalTerm_def
        positionTerm_def tapPoint_def centerIndex_def)
  have c: "\<And>t. tapColor f p t = tapColor (f\<lparr>passStddev := variance\<rparr>) p t"
    by (simp add: tapColor_def tapPoint_def centerIndex_def)
  show ?thesis
    unfolding specWeightedAverage_def weightedAverage_def t c ..
qed

lemma bilinearTap_texel:
  "bilinearTap tex w h (real_of_int a + 0.5, real_of_int b + 0.5) = clampedTexel tex w h a b"
proof -
  have m: "\<And>p q. mix p q 0 = p"
    by (simp add: mix_def vadd_def smul_def)
  show ?thesis
    by (simp add: bilinearTap_def Let_def m)
qed

lemma tapPoint_unit:
  "tapPoint (passOf color normal position stddev w h 1 cw nw pw) (ix, iy) (tx, ty)
   = (real_of_int (int ix + int tx - 2) + 0.5, real_of_int (int iy + int ty - 2) + 0.5)"
  by (simp add: tapPoint_def passOf_def)

lemma example_texel:
  "clampedTexel [c0, c1] 2 1 a b = (if a \<le> 0 then c0 else c1)"
  by (simp add: clampedTexel_def max_def min_def nat_eq_iff)

lemma example_tap:
  fixes d :: real
  defines "f \<equiv> passOf [vec3s 0, Vec3 1 0 0] [vec3s 0, vec3s 0] [vec3s 0, vec3s 0] [d, 0]
                   2 1 1 1 1 1"
  assumes "tx < 5" "ty < 5"
  shows "tapWeight f (0, 0) (tx, ty)
         = binomialWeight tx * binomialWeight ty * (if tx \<le> 2 then 1 else exp (- (1 / (d + 0.01))))"
    and "smul (tapWeight f (0, 0) (tx, ty)) (tapColor f (0, 0) (tx, ty))
         = Vec3 (binomialWeight tx * binomialWeight ty
                  * (if tx \<le> 2 then 0 else exp (- (1 / (d + 0.01))))) 0 0"
proof -
  have tp: "tapPoint f (0, 0) (tx, ty)
            = (real_of_int (int 0 + int tx - 2) + 0.5, real_of_int (int 0 + int ty - 2) + 0.5)"
    unfolding f_def by (rule tapPoint_unit)
  have fl: "passColor f = [vec3s 0, Vec3 1 0 0]" "passNormal f = [vec3s 0, vec3s 0]"
      "passPosition f = [vec3s 0, vec3s 0]" "passWidth f = 2" "passHeight f = 1"
    by (simp_all add: f_def passOf_def)
  have col: "bilinearTap (passColor f) (passWidth f) (passHeight f) (tapPoint f (0, 0) (tx, ty))
             = (if tx \<le> 2 then vec3s 0 else Vec3 1 0 0)"
    unfolding tp fl bilinearTap_texel example_texel by auto
  have nor: "bilinearTap (passNormal f) (passWidth f) (passHeight f) (tapPoint f (0, 0) (tx, ty))
             = vec3s 0"
    unfolding tp fl bilinearTap_texel example_texel by auto
  have pos: "bilinearTap (passPosition f) (passWidth f) (passHeight f) (tapPoint f (0, 0) (tx, ty))
             = vec3s 0"
    unfolding tp fl bilinearTap_texel example_texel by auto
  have c: "passColor f ! centerIndex f (0, 0) = vec3s 0" "passNormal f ! centerIndex f (0, 0) = vec3s 0"
     "passPosition f ! centerIndex f (0, 0) = vec3s 0" "passStddev f ! centerIndex f (0, 0) = d"
     "passColorWeight f = 1" "passNormalWeight f = 1" "passPositionWeight f = 1" "passStep f = 1"
    by (simp_all add: f_def passOf_def centerIndex_def)
  have ct: "colorTerm f (0, 0) (tx, ty) = (if tx \<le> 2 then 0 else 1 / (d + 0.01))"
    unfolding colorTerm_def col c by (simp add: vsub_def length2_def vec3s_def)
  have nt: "normalTerm f (0, 0) (tx, ty) = 0"
    unfolding normalTerm_def nor c by (simp add: vsub_def length2_def vec3s_def)
  have pt: "positionTerm f (0, 0) (tx, ty) = 0"
    unfolding positionTerm_def pos c by (simp add: vsub_def length2_def vec3s_def)
  have b2: "binomialWeight 2 = 0.375" by (simp add: binomialWeight_def)
  show w: "tapWeight f (0, 0) (tx, ty)
         = binomialWeight tx * binomialWeight ty * (if tx \<le> 2 then 1 else exp (- (1 / (d + 0.01))))"
    unfolding tapWeight_def ct nt pt by (simp add: b2)
  have tc: "tapColor f (0, 0) (tx, ty) = (if tx \<le> 2 then vec3s 0 else Vec3 1 0 0)"
    unfolding tapColor_def col c by simp
  show "smul (tapWeight f (0, 0) (tx, ty)) (tapColor f (0, 0) (tx, ty))
         = Vec3 (binomialWeight tx * binomialWeight ty
                  * (if tx \<le> 2 then 0 else exp (- (1 / (d + 0.01))))) 0 0"
    unfolding w tc by (simp add: smul_def vec3s_def)
qed

lemma example_average:
  fixes d :: real
  defines "f \<equiv> passOf [vec3s 0, Vec3 1 0 0] [vec3s 0, vec3s 0] [vec3s 0, vec3s 0] [d, 0]
                   2 1 1 1 1 1"
  defines "e \<equiv> exp (- (1 / (d + 0.01)))"
  shows "weightedAverage f (0, 0) = Vec3 (0.3125 * e / (0.6875 + 0.3125 * e)) 0 0"
proof -
  have w: "(\<Sum>t\<in>{0..<5} \<times> {0..<5}. tapWeight f (0, 0) t)
           = (\<Sum>t\<in>{0..<5} \<times> {0..<5}. binomialWeight (fst t) * binomialWeight (snd t)
                                         * (if fst t \<le> 2 then 1 else e))"
  proof (rule sum.cong[OF refl])
    fix t :: "nat \<times> nat"
    assume "t \<in> {0..<5} \<times> {0..<5}"
    then have t: "fst t < 5" "snd t < 5" by auto
    show "tapWeight f (0, 0) t
          = binomialWeight (fst t) * binomialWeight (snd t) * (if fst t \<le> 2 then 1 else e)"
      using example_tap(1)[OF t, of d] by (simp only: f_def e_def prod.collapse)
  qed
  also have "\<dots> = (\<Sum>x\<in>{0..<5}. \<Sum>y\<in>{0..<5}. binomialWeight x * binomialWeight y
                                         * (if x \<le> 2 then 1 else e))"
    by (simp add: sum.cartesian_product case_prod_beta)
  also have "\<dots> = 0.6875 + 0.3125 * e"
    by (simp add: eval_nat_numeral binomialWeight_def)
  finally have tw: "(\<Sum>t\<in>{0..<5} \<times> {0..<5}. tapWeight f (0, 0) t) = 0.6875 + 0.3125 * e" .
  have "(\<Sum>t\<in>{0..<5} \<times> {0..<5}. smul (tapWeight f (0, 0) t) (tapColor f (0, 0) t))
           = (\<Sum>t\<in>{0..<5} \<times> {0..<5}. Vec3 (binomialWeight (fst t) * binomialWeight (snd t)
                                         * (if fst t \<le> 2 then 0 else e)) 0 0)"
  proof (rule sum.cong[OF refl])
    fix t :: "nat \<times> nat"
    assume "t \<in> {0..<5} \<times> {0..<5}"
    then have t: "fst t < 5" "snd t < 5" by auto
    show "smul (tapWeight f (0, 0) t) (tapColor f (0, 0) t)
          = Vec3 (binomialWeight (fst t) * binomialWeight (snd t)
                   * (if fst t \<le> 2 then 0 else e)) 0 0"
      using example_tap(2)[OF t, of d] by (simp only: f_def e_def prod.collapse)
  qed
  also have "\<dots> = (\<Sum>x\<in>{0..<5}. \<Sum>y\<in>{0..<5}. Vec3 (binomialWeight x * binomialWeight y
                                         * (if x \<le> 2 then 0 else e)) 0 0)"
    by (simp add: sum.cartesian_product case_prod_beta)
  also have "\<dots> = Vec3 (0.3125 * e) 0 0"
    by (simp add: eval_nat_numeral binomialWeight_def plus_vec3_def zero_vec3_def vadd_def vec3s_def)
  finally have tc: "(\<Sum>t\<in>{0..<5} \<times> {0..<5}. smul (tapWeight f (0, 0) t) (tapColor f (0, 0) t))
                    = Vec3 (0.3125 * e) 0 0" .
  show ?thesis
    unfolding weightedAverage_def Let_def tw tc by simp
qed

lemma example_filter:
  fixes d :: real
  assumes "0 \<le> d"
  shows "aTrousIter [vec3s 0, Vec3 1 0 0] [vec3s 0, vec3s 0] [vec3s 0, vec3s 0] [d, 0] 2 1 1
           (1 * 1) (1 * 1) (1 * 1) (0, 0) [vec3s 0, vec3s 0]
         = Inr [Vec3 (0.3125 * exp (- (1 / (d + 0.01)))
                       / (0.6875 + 0.3125 * exp (- (1 / (d + 0.01))))) 0 0, vec3s 0]"
proof -
  have nz: "1 * 1 * [d, 0] ! (0 * 2 + 0) + 0.01 \<noteq> 0"
    using color_divisor_pos[OF assms, of 1] by simp
  have "aTrousIter [vec3s 0, Vec3 1 0 0] [vec3s 0, vec3s 0] [vec3s 0, vec3s 0] [d, 0] 2 1 1
           (1 * 1) (1 * 1) (1 * 1) (0, 0) [vec3s 0, vec3s 0]
        = writeAt (0 * 2 + 0)
            (weightedAverage (passOf [vec3s 0, Vec3 1 0 0] [vec3s 0, vec3s 0] [vec3s 0, vec3s 0]
                                [d, 0] 2 1 1 1 1 1) (0, 0))
            [vec3s 0, vec3s 0]"
    by (rule aTrousIter_pixel[OF _ _ _ _ _ _ nz]) simp_all
  then show ?thesis
    unfolding example_average by (simp add: writeAt_def)
qed

lemma example_stddev:
  "launch (aTrousComputeVariance [Vec3 2 2 0, vec3s 0] [8, 0] 2 1 2)
     (grid2D (ceilDiv 2 16, ceilDiv 1 16) (16, 16)) [0, 0] = Inr [2, 0]"
proof -
  have "launch (aTrousComputeVariance [Vec3 2 2 0, vec3s 0] [8, 0] 2 1 2)
          (grid2D (ceilDiv 2 16, ceilDiv 1 16) (16, 16)) [0, 0]
        = Inr (map (\<lambda>i. storedEstimate ([Vec3 2 2 0, vec3s 0] ! i) ([8, 0] ! i) 2) [0..<2 * 1])"
    by (rule aTrousComputeVariance_launch) simp_all
  also have "map (\<lambda>i. storedEstimate ([Vec3 2 2 0, vec3s 0] ! i) ([8, 0] ! i) 2) [0..<2 * 1]
             = [2, 0]"
    by (simp add: upt_rec storedEstimate_def unbiasedVariance_def length2_def vec3s_def)
  finally show ?thesis .
qed

text \<open>
  C4, amended. After the variance pass over the running sums, the thread of pixel
  \<open>(ix, iy)\<close> of a filter level writes the weighted average of the 25 taps, normalised by the
  total weight. A tap that is not the centre has the product of its two binomial weights
  times \<open>exp (- (colorTerm + normalTerm + positionTerm))\<close>, where the colour term is the
  squared colour difference from the centre divided by
  \<open>colorWeight\<^sup>2 * centerStddev + 0.01\<close> and \<open>centerStddev\<close> is what the variance pass stored for
  the centre: the square root of the unbiased sample variance, floored at zero, when
  \<open>iter > 1\<close>, and 1 otherwise. The normal term and the position term are those of the
  specification (\<open>normalTerm\<close>, \<open>positionTerm\<close>); the centre tap has the weight
  \<open>0.375 * 0.375\<close> and the centre's own colour.
\<close>

theorem C4_filter_level:
  assumes "length color = w * h" "length normal = w * h" "length position = w * h"
    and "length colorTotal = w * h" "length colorSqr = w * h" "length stddev0 = w * h"
    and "ix < w" "iy < h"
    and "nw \<noteq> 0" "stepSize \<noteq> 0" "pw \<noteq> 0"
  shows "\<exists>stddev.
           launch (aTrousComputeVariance colorTotal colorSqr w h iter)
             (grid2D (ceilDiv w 16, ceilDiv h 16) (16, 16)) stddev0 = Inr stddev
         \<and> stddev ! (iy * w + ix)
             = (if 1 < iter
                then sqrt (max 0 (unbiasedVariance (colorTotal ! (iy * w + ix))
                                    (colorSqr ! (iy * w + ix)) iter))
                else 1)
         \<and> aTrousIter color normal position stddev w h stepSize (cw * cw) (nw * nw) (pw * pw)
               (ix, iy) colorOut
             = writeAt (iy * w + ix)
                 (weightedAverage (passOf color normal position stddev w h stepSize cw nw pw)
                    (ix, iy))
                 colorOut
         \<and> (\<forall>t. colorTerm (passOf color normal position stddev w h stepSize cw nw pw) (ix, iy) t
                  = length2 (vsub (bilinearTap color w h
                                     (tapPoint (passOf color normal position stddev w h stepSize
                                                  cw nw pw) (ix, iy) t))
                                  (color ! (iy * w + ix)))
                    / (cw\<^sup>2 * stddev ! (iy * w + ix) + 0.01))
         \<and> tapWeight (passOf color normal position stddev w h stepSize cw nw pw) (ix, iy) (2, 2)
             = 0.375 * 0.375
         \<and> tapColor (passOf color normal position stddev w h stepSize cw nw pw) (ix, iy) (2, 2)
             = color ! (iy * w + ix)"
proof -
  let ?sd = "map (\<lambda>i. storedEstimate (colorTotal ! i) (colorSqr ! i) iter) [0..<w * h]"
  have "iy * w + ix < iy * w + w" using assms(7) by simp
  also have "\<dots> = Suc iy * w" by simp
  also have "\<dots> \<le> h * w" using assms(8) by (intro mult_le_mono1) simp
  finally have idx: "iy * w + ix < w * h" by (simp add: mult.commute)
  have run: "launch (aTrousComputeVariance colorTotal colorSqr w h iter)
               (grid2D (ceilDiv w 16, ceilDiv h 16) (16, 16)) stddev0 = Inr ?sd"
    by (rule aTrousComputeVariance_launch[OF assms(4,5,6)])
  have len: "length ?sd = w * h" by simp
  have at: "?sd ! (iy * w + ix)
            = storedEstimate (colorTotal ! (iy * w + ix)) (colorSqr ! (iy * w + ix)) iter"
    using idx by simp
  have nz: "cw * cw * ?sd ! (iy * w + ix) + 0.01 \<noteq> 0"
    unfolding at by (rule color_divisor_pos[OF storedEstimate_nonneg])
  have px: "aTrousIter color normal position ?sd w h stepSize (cw * cw) (nw * nw) (pw * pw)
              (ix, iy) colorOut
            = writeAt (iy * w + ix)
                (weightedAverage (passOf color normal position ?sd w h stepSize cw nw pw) (ix, iy))
                colorOut"
    by (rule aTrousIter_pixel[OF assms(1,2,3) len assms(7,8) nz assms(9,10,11)])
  have ct: "\<forall>t. colorTerm (passOf color normal position ?sd w h stepSize cw nw pw) (ix, iy) t
                  = length2 (vsub (bilinearTap color w h
                                     (tapPoint (passOf color normal position ?sd w h stepSize
                                                  cw nw pw) (ix, iy) t))
                                  (color ! (iy * w + ix)))
                    / (cw\<^sup>2 * ?sd ! (iy * w + ix) + 0.01)"
    by (simp add: colorTerm_def passOf_def centerIndex_def)
  have ce: "tapWeight (passOf color normal position ?sd w h stepSize cw nw pw) (ix, iy) (2, 2)
             = 0.375 * 0.375"
     "tapColor (passOf color normal position ?sd w h stepSize cw nw pw) (ix, iy) (2, 2)
             = color ! (iy * w + ix)"
    by (simp_all add: tapWeight_def tapColor_def passOf_def centerIndex_def)
  have at': "?sd ! (iy * w + ix)
             = (if 1 < iter
                then sqrt (max 0 (unbiasedVariance (colorTotal ! (iy * w + ix))
                                    (colorSqr ! (iy * w + ix)) iter))
                else 1)"
    unfolding at by (simp add: storedEstimate_def)
  show ?thesis
    by (rule exI[of _ ?sd]) (intro conjI run at' px ct ce)
qed

theorem C4_filter_level_witness:
  "length [vec3s 0, Vec3 1 0 0] = 2 * 1 \<and> length [Vec3 2 2 0, vec3s 0] = 2 * 1
   \<and> length [8::real, 0] = 2 * 1 \<and> (0::nat) < 2 \<and> (0::nat) < 1 \<and> (1::real) \<noteq> 0
   \<and> launch (aTrousComputeVariance [Vec3 2 2 0, vec3s 0] [8, 0] 2 1 2)
         (grid2D (ceilDiv 2 16, ceilDiv 1 16) (16, 16)) [0, 0] = Inr [2, 0]
   \<and> aTrousIter [vec3s 0, Vec3 1 0 0] [vec3s 0, vec3s 0] [vec3s 0, vec3s 0] [2, 0] 2 1 1
         (1 * 1) (1 * 1) (1 * 1) (0, 0) [vec3s 0, vec3s 0]
       = Inr [weightedAverage (passOf [vec3s 0, Vec3 1 0 0] [vec3s 0, vec3s 0] [vec3s 0, vec3s 0]
                                 [2, 0] 2 1 1 1 1 1) (0, 0), vec3s 0]
   \<and> weightedAverage (passOf [vec3s 0, Vec3 1 0 0] [vec3s 0, vec3s 0] [vec3s 0, vec3s 0]
                         [2, 0] 2 1 1 1 1 1) (0, 0)
       = Vec3 (0.3125 * exp (- (1 / 2.01)) / (0.6875 + 0.3125 * exp (- (1 / 2.01)))) 0 0"
proof -
  from C4_filter_level[of "[vec3s 0, Vec3 1 0 0]" 2 1 "[vec3s 0, vec3s 0]" "[vec3s 0, vec3s 0]"
      "[Vec3 2 2 0, vec3s 0]" "[8, 0]" "[0, 0]" 0 0 1 1 1 2 1 "[vec3s 0, vec3s 0]"]
  obtain stddev where
    run: "launch (aTrousComputeVariance [Vec3 2 2 0, vec3s 0] [8, 0] 2 1 2)
            (grid2D (ceilDiv 2 16, ceilDiv 1 16) (16, 16)) [0, 0] = Inr stddev"
    and px: "aTrousIter [vec3s 0, Vec3 1 0 0] [vec3s 0, vec3s 0] [vec3s 0, vec3s 0] stddev 2 1 1
               (1 * 1) (1 * 1) (1 * 1) (0, 0) [vec3s 0, vec3s 0]
             = writeAt (0 * 2 + 0)
                 (weightedAverage (passOf [vec3s 0, Vec3 1 0 0] [vec3s 0, vec3s 0]
                                     [vec3s 0, vec3s 0] stddev 2 1 1 1 1 1) (0, 0))
                 [vec3s 0, vec3s 0]"
    by auto
  have sd: "stddev = [2, 0]" using run unfolding example_stddev by simp
  have av: "weightedAverage (passOf [vec3s 0, Vec3 1 0 0] [vec3s 0, vec3s 0] [vec3s 0, vec3s 0]
                         [2, 0] 2 1 1 1 1 1) (0, 0)
       = Vec3 (0.3125 * exp (- (1 / 2.01)) / (0.6875 + 0.3125 * exp (- (1 / 2.01)))) 0 0"
    unfolding example_average by simp
  show ?thesis
    using px[unfolded sd] example_stddev av by (simp add: writeAt_def)
qed

text \<open>
  C4 as the specification states it, with the variance of phase 1 in the colour term, fails on two
  pixels in a row with the colours \<open>(0, 0, 0)\<close> and \<open>(1, 0, 0)\<close>, equal normals and
  positions, the sums \<open>(2, 2, 0)\<close> and 8 of two iterations at the first pixel, step size 1
  and all three weights 1: the variance of the first pixel is 4 and the stored value 2, so
  the taps on the second pixel get the factor \<open>exp (- 1 / 2.01)\<close> from the code and
  \<open>exp (- 1 / 4.01)\<close> from the specification, and the two averages differ.
\<close>

theorem C4_variance_counterexample:
  "specVariance (Vec3 2 2 0) 8 2 = 4
   \<and> launch (aTrousComputeVariance [Vec3 2 2 0, vec3s 0] [8, 0] 2 1 2)
         (grid2D (ceilDiv 2 16, ceilDiv 1 16) (16, 16)) [0, 0] = Inr [2, 0]
   \<and> aTrousIter [vec3s 0, Vec3 1 0 0] [vec3s 0, vec3s 0] [vec3s 0, vec3s 0] [2, 0] 2 1 1
         (1 * 1) (1 * 1) (1 * 1) (0, 0) [vec3s 0, vec3s 0]
       \<noteq> writeAt 0
           (specWeightedAverage
              (passOf [vec3s 0, Vec3 1 0 0] [vec3s 0, vec3s 0] [vec3s 0, vec3s 0] [2, 0]
                 2 1 1 1 1 1)
              [specVariance (Vec3 2 2 0) 8 2, specVariance (vec3s 0) 0 2] (0, 0))
           [vec3s 0, vec3s 0]"
proof -
  define e2 :: real where "e2 = exp (- (1 / (2 + 0.01)))"
  define e4 :: real where "e4 = exp (- (1 / (4 + 0.01)))"
  have v: "specVariance (Vec3 2 2 0) 8 2 = 4" "specVariance (vec3s 0) 0 2 = 0"
    by (simp_all add: specVariance_def unbiasedVariance_def length2_def vec3s_def)
  have code: "aTrousIter [vec3s 0, Vec3 1 0 0] [vec3s 0, vec3s 0] [vec3s 0, vec3s 0] [2, 0] 2 1 1
         (1 * 1) (1 * 1) (1 * 1) (0, 0) [vec3s 0, vec3s 0]
       = Inr [Vec3 (0.3125 * e2 / (0.6875 + 0.3125 * e2)) 0 0, vec3s 0]"
    unfolding e2_def by (rule example_filter) simp
  have pass: "(passOf [vec3s 0, Vec3 1 0 0] [vec3s 0, vec3s 0] [vec3s 0, vec3s 0] [2, 0]
                 2 1 1 1 1 1)\<lparr>passStddev := [4, 0]\<rparr>
              = passOf [vec3s 0, Vec3 1 0 0] [vec3s 0, vec3s 0] [vec3s 0, vec3s 0] [4, 0]
                 2 1 1 1 1 1"
    by (simp add: passOf_def)
  have spec: "writeAt 0
           (specWeightedAverage
              (passOf [vec3s 0, Vec3 1 0 0] [vec3s 0, vec3s 0] [vec3s 0, vec3s 0] [2, 0]
                 2 1 1 1 1 1)
              [specVariance (Vec3 2 2 0) 8 2, specVariance (vec3s 0) 0 2] (0, 0))
           [vec3s 0, vec3s 0]
       = Inr [Vec3 (0.3125 * e4 / (0.6875 + 0.3125 * e4)) 0 0, vec3s 0]"
    unfolding v specWeightedAverage_code pass example_average e4_def by (simp add: writeAt_def)
  have lt: "e2 < e4" by (simp add: e2_def e4_def)
  have pos: "0 < e2" "0 < e4" by (simp_all add: e2_def e4_def)
  have ne: "0.3125 * e2 / (0.6875 + 0.3125 * e2) \<noteq> 0.3125 * e4 / (0.6875 + 0.3125 * e4)"
  proof
    assume "0.3125 * e2 / (0.6875 + 0.3125 * e2) = 0.3125 * e4 / (0.6875 + 0.3125 * e4)"
    moreover have "0.6875 + 0.3125 * e2 \<noteq> 0" "0.6875 + 0.3125 * e4 \<noteq> 0"
      using pos by (simp_all add: add_pos_pos)
    ultimately have "e2 * (11 + 5 * e4) = e4 * (11 + 5 * e2)"
      by (simp add: frac_eq_eq)
    then have "11 * e2 = 11 * e4" by (simp add: algebra_simps)
    then have "e2 = e4" by simp
    then show False using lt by simp
  qed
  show ?thesis
    unfolding code spec using v(1) example_stddev ne by simp
qed

end
